(* ===== verification/Go_Prelude.thy ===== *)
theory Go_Prelude
  imports Main "HOL-Library.Word" "HOL-Library.Signed_Division"
begin

text \<open>
  The vocabulary every other theory shares: how a Go computation ends, byte sequences and
  Go strings, the two \<^verbatim>\<open>io\<close> interfaces the program is written against (an
  \<^verbatim>\<open>io.Writer\<close> as a parameter, a \<^verbatim>\<open>bytes.Reader\<close> as the bytes still to be read) and
  \<^verbatim>\<open>strconv.Itoa\<close>.  The lemma collections declared here carry the proofs of the component
  theories.
\<close>

unbundle bit_operations_syntax

named_theorems go_simps \<open>unfolding rules for the sequencing of Go computations\<close>
named_theorems inv_intro \<open>introduction rules that keep an invariant through a Go computation\<close>

section \<open>How a Go computation ends\<close>

text \<open>
  A call returns, or it takes the process down: a run-time panic (\<open>Panic\<close>), a
  \<^verbatim>\<open>log.Fatalf\<close> (\<open>Fatal\<close>).  \<open>Diverge\<close> says that the recursion went deeper than the
  bound given to the model; every function that takes such a bound comes with a theorem
  that says which bound is enough.
\<close>

datatype crash = Panic | Fatal | Diverge

type_synonym 'a go = "crash + 'a"

definition bindG :: "'a go \<Rightarrow> ('a \<Rightarrow> 'b go) \<Rightarrow> 'b go" where
  "bindG m f = (case m of Inl c \<Rightarrow> Inl c | Inr x \<Rightarrow> f x)"

lemma bindG_simps [simp]: "bindG (Inl c) f = Inl c" "bindG (Inr x) f = f x"
  by (simp_all add: bindG_def)

lemma bindG_eq_Inr: "bindG m f = Inr y \<longleftrightarrow> (\<exists>x. m = Inr x \<and> f x = Inr y)"
  by (cases m) simp_all

lemma bindG_assoc: "bindG (bindG m f) g = bindG m (\<lambda>x. bindG (f x) g)"
  by (cases m) simp_all

lemma bindG_cong [fundef_cong]:
  "m = m' \<Longrightarrow> (\<And>x. m' = Inr x \<Longrightarrow> f x = f' x) \<Longrightarrow> bindG m f = bindG m' f'"
  by (cases m') simp_all

section \<open>Bytes, words and strings\<close>

type_synonym byte = "8 word"
type_synonym bytes = "8 word list"
type_synonym u32 = "32 word"
type_synonym u64 = "64 word"

text \<open>Go strings are byte sequences; \<^verbatim>\<open>[]byte(s)\<close> and \<^verbatim>\<open>string(b)\<close> convert.\<close>

definition string_bytes :: "string \<Rightarrow> bytes" where
  "string_bytes s = map of_char s"

definition bytes_string :: "bytes \<Rightarrow> string" where
  "bytes_string bs = map (\<lambda>b. char_of (unat b)) bs"

lemma length_string_bytes [simp]: "length (string_bytes s) = length s"
  by (simp add: string_bytes_def)

lemma length_bytes_string [simp]: "length (bytes_string bs) = length bs"
  by (simp add: bytes_string_def)

lemma unat_of_char_word: "unat (of_char c :: byte) = of_char c"
proof -
  have "(of_char c :: byte) = of_nat (of_char c)"
    by (simp add: of_nat_of_char)
  moreover have "of_char c < (256::nat)"
    by simp
  ultimately show ?thesis
    by (simp add: unat_of_nat)
qed

lemma bytes_string_bytes [simp]: "bytes_string (string_bytes s) = s"
  by (simp add: bytes_string_def string_bytes_def unat_of_char_word comp_def)

text \<open>Big-endian byte order, by shifts, as the code writes it.\<close>

definition be32 :: "u32 \<Rightarrow> bytes" where
  "be32 v = [ucast (drop_bit 24 v), ucast (drop_bit 16 v), ucast (drop_bit 8 v), ucast v]"

definition be64 :: "u64 \<Rightarrow> bytes" where
  "be64 v = [ucast (drop_bit 56 v), ucast (drop_bit 48 v), ucast (drop_bit 40 v), ucast (drop_bit 32 v),
             ucast (drop_bit 24 v), ucast (drop_bit 16 v), ucast (drop_bit 8 v), ucast v]"

definition of_be32 :: "bytes \<Rightarrow> u32" where
  "of_be32 b = ucast (b ! 3) OR push_bit 8 (ucast (b ! 2)) OR
     push_bit 16 (ucast (b ! 1)) OR push_bit 24 (ucast (b ! 0))"

definition of_be64 :: "bytes \<Rightarrow> u64" where
  "of_be64 b = ucast (b ! 7) OR push_bit 8 (ucast (b ! 6)) OR
     push_bit 16 (ucast (b ! 5)) OR push_bit 24 (ucast (b ! 4)) OR
     push_bit 32 (ucast (b ! 3)) OR push_bit 40 (ucast (b ! 2)) OR
     push_bit 48 (ucast (b ! 1)) OR push_bit 56 (ucast (b ! 0))"

lemma length_be [simp]: "length (be32 v) = 4" "length (be64 w) = 8"
  by (simp_all add: be32_def be64_def)

lemma bit_push_byte:
  fixes b :: byte
  shows "bit (push_bit k (ucast b :: 'a::len word)) n \<longleftrightarrow>
    k \<le> n \<and> n < k + 8 \<and> n < LENGTH('a) \<and> bit b (n - k)"
  by (auto simp: bit_simps dest: bit_imp_le_length)

lemma bit_ucast_byte:
  fixes b :: byte
  shows "bit (ucast b :: 'a::len word) n \<longleftrightarrow> n < 8 \<and> n < LENGTH('a) \<and> bit b n"
  by (auto simp: bit_simps dest: bit_imp_le_length)

lemma bit_of_be32:
  "n < 32 \<Longrightarrow> bit (of_be32 [b0, b1, b2, b3]) n \<longleftrightarrow>
     (if n < 8 then bit b3 n else if n < 16 then bit b2 (n - 8) else if n < 24 then bit b1 (n - 16)
      else bit b0 (n - 24))"
  unfolding of_be32_def bit_or_iff bit_push_byte bit_ucast_byte by simp

lemma bit_of_be64:
  "n < 64 \<Longrightarrow> bit (of_be64 [b0, b1, b2, b3, b4, b5, b6, b7]) n \<longleftrightarrow>
     (if n < 8 then bit b7 n else if n < 16 then bit b6 (n - 8) else if n < 24 then bit b5 (n - 16)
      else if n < 32 then bit b4 (n - 24) else if n < 40 then bit b3 (n - 32)
      else if n < 48 then bit b2 (n - 40) else if n < 56 then bit b1 (n - 48) else bit b0 (n - 56))"
  unfolding of_be64_def bit_or_iff bit_push_byte bit_ucast_byte by simp

lemma of_be32_be32 [simp]: "of_be32 (be32 v) = v"
proof (rule bit_word_eqI)
  fix n assume "n < LENGTH(32)"
  then have n: "n < 32" by simp
  show "bit (of_be32 (be32 v)) n = bit v n"
    unfolding be32_def bit_of_be32 [OF n] using n
    by (simp only: bit_simps) auto
qed

lemma of_be64_be64 [simp]: "of_be64 (be64 v) = v"
proof (rule bit_word_eqI)
  fix n assume "n < LENGTH(64)"
  then have n: "n < 64" by simp
  show "bit (of_be64 (be64 v)) n = bit v n"
    unfolding be64_def bit_of_be64 [OF n] using n
    by (simp only: bit_simps) auto
qed

text \<open>
  Little-endian: \<^verbatim>\<open>binary.LittleEndian.PutUint64\<close> and \<^verbatim>\<open>Uint64\<close>; the latter reads the first eight bytes
  of a slice and panics on a shorter one.
\<close>

definition le64 :: "u64 \<Rightarrow> bytes" where
  "le64 v = rev (be64 v)"

definition of_le64 :: "bytes \<Rightarrow> u64 go" where
  "of_le64 b = (if length b < 8 then Inl Panic else Inr (of_be64 (rev (take 8 b))))"

lemma length_le64 [simp]: "length (le64 v) = 8"
  by (simp add: le64_def)

lemma of_le64_le64 [simp]: "of_le64 (le64 v @ rest) = Inr v"
  by (simp add: of_le64_def le64_def)

lemma of_le64_le64_self [simp]: "of_le64 (le64 v) = Inr v"
  using of_le64_le64 [of v "[]"] by simp

lemma le64_inj: "le64 v = le64 v' \<longleftrightarrow> v = v'"
  by (metis of_le64_le64_self sum.inject(2))

text \<open>XDR pads to a multiple of four.\<close>

lemma pad4_dvd: "4 dvd l + (4 - l mod 4) mod (4::nat)"
proof -
  have "l mod 4 = 0 \<or> l mod 4 = 1 \<or> l mod 4 = 2 \<or> l mod 4 = 3" by arith
  then show ?thesis by (elim disjE) (simp_all, presburger+)
qed

section \<open>Writers and readers\<close>

datatype ioerror = EOF | UnexpectedEOF | OtherIO string

text \<open>
  \<^verbatim>\<open>w.Write(p)\<close> on a writer in state \<open>'w\<close>: how many bytes were written, the error if any,
  and the writer afterwards.  \<open>buffer_write\<close> is \<^verbatim>\<open>bytes.Buffer.Write\<close>, the writer the program
  marshals into: it takes all the bytes.
\<close>

type_synonym 'w writer = "bytes \<Rightarrow> 'w \<Rightarrow> nat \<times> ioerror option \<times> 'w"

definition buffer_write :: "bytes writer" where
  "buffer_write p w = (length p, None, w @ p)"

text \<open>
  \<^verbatim>\<open>io.ReadFull\<close> of \<open>k\<close> bytes from a reader over the bytes \<open>bs\<close>: the bytes read, their
  number, the error and the bytes still to read.
\<close>

definition ReadFull :: "nat \<Rightarrow> bytes \<Rightarrow> bytes \<times> nat \<times> ioerror option \<times> bytes" where
  "ReadFull k bs =
     (let b = take k bs in
      (b, length b, (if length b = k then None else if b = [] then Some EOF else Some UnexpectedEOF),
       drop k bs))"

lemma ReadFull_append [simp]: "length b = k \<Longrightarrow> ReadFull k (b @ rest) = (b, k, None, rest)"
  by (simp add: ReadFull_def)

lemma ReadFull_self [simp]: "length b = k \<Longrightarrow> ReadFull k b = (b, k, None, [])"
  using ReadFull_append [of b k "[]"] by simp

lemma ReadFull_spec:
  "ReadFull k bs = (b, n, e, rest) \<Longrightarrow>
     bs = b @ rest \<and> n = length b \<and> n \<le> k \<and> (e = None \<longleftrightarrow> n = k) \<and> (e \<noteq> None \<longrightarrow> rest = [])"
  by (auto simp: ReadFull_def Let_def min_def split: if_splits)

section \<open>Decimal numerals\<close>

definition digit_char :: "nat \<Rightarrow> char" where
  "digit_char d = char_of (48 + d)"

fun nat_digits :: "nat \<Rightarrow> string" where
  "nat_digits n = (if n < 10 then [digit_char n] else nat_digits (n div 10) @ [digit_char (n mod 10)])"

declare nat_digits.simps [simp del]

definition Itoa :: "int \<Rightarrow> string" where
  "Itoa i = (if i < 0 then CHR ''-'' # nat_digits (nat (- i)) else nat_digits (nat i))"

lemma digit_char_eq_iff: "d < 10 \<Longrightarrow> e < 10 \<Longrightarrow> digit_char d = digit_char e \<longleftrightarrow> d = e"
  by (auto simp: digit_char_def char_of_eq_iff take_bit_eq_mod dest: arg_cong [where f = of_char])

lemma digit_char_not_minus: "d < 10 \<Longrightarrow> digit_char d \<noteq> CHR ''-''"
  by (auto simp: digit_char_def dest!: arg_cong [where f = "of_char :: char \<Rightarrow> nat"])

lemma nat_digits_small: "n < 10 \<Longrightarrow> nat_digits n = [digit_char n]"
  by (simp add: nat_digits.simps)

lemma nat_digits_big: "10 \<le> n \<Longrightarrow> nat_digits n = nat_digits (n div 10) @ [digit_char (n mod 10)]"
  by (simp add: nat_digits.simps [of n])

lemma nat_digits_nonempty: "nat_digits n \<noteq> []"
  by (cases "n < 10") (simp_all add: nat_digits_small nat_digits_big)

lemma nat_digits_inj: "nat_digits m = nat_digits n \<Longrightarrow> m = n"
proof (induction m arbitrary: n rule: less_induct)
  case (less m)
  show ?case
  proof (cases "m < 10")
    case True
    with less.prems show ?thesis
      by (cases "n < 10") (auto simp: nat_digits_small nat_digits_big nat_digits_nonempty digit_char_eq_iff
          append_eq_Cons_conv Cons_eq_append_conv)
  next
    case m: False
    show ?thesis
    proof (cases "n < 10")
      case True
      with m less.prems show ?thesis
        by (auto simp: nat_digits_small nat_digits_big nat_digits_nonempty append_eq_Cons_conv)
    next
      case False
      with m less.prems have "nat_digits (m div 10) = nat_digits (n div 10)" "m mod 10 = n mod 10"
        by (auto simp: nat_digits_big digit_char_eq_iff)
      with less.IH [of "m div 10" "n div 10"] m have "m div 10 = n div 10" by simp
      with \<open>m mod 10 = n mod 10\<close> show ?thesis
        by (metis div_mult_mod_eq)
    qed
  qed
qed

lemma nat_digits_no_minus: "CHR ''-'' \<notin> set (nat_digits n)"
proof (induction n rule: nat_digits.induct)
  case (1 n)
  have "CHR ''-'' \<noteq> digit_char (n mod 10)" "n < 10 \<Longrightarrow> CHR ''-'' \<noteq> digit_char n"
    by (rule not_sym, rule digit_char_not_minus, simp)+
  with 1 show ?case
    by (cases "n < 10") (auto simp: nat_digits_small nat_digits_big)
qed

lemma Itoa_inj: "Itoa i = Itoa j \<longleftrightarrow> i = j"
proof
  assume "Itoa i = Itoa j"
  moreover have "\<And>k xs. nat_digits k \<noteq> CHR ''-'' # xs"
    by (metis list.set_intros(1) nat_digits_no_minus)
  ultimately show "i = j"
    by (auto simp: Itoa_def split: if_splits dest: nat_digits_inj) (metis nat_digits_inj)+
qed simp

end
