(* ===== verification/Xdr_Base.thy ===== *)
theory Xdr_Base
  imports Go_Prelude
begin

text \<open>
  The error values (\<^verbatim>\<open>xdr/error.go\<close>) and the struct tags (\<^verbatim>\<open>xdr/tag.go\<close>) of the XDR
  package.  Error values keep the code, the function name, the offending value and the
  underlying I/O error; the human-readable description is left out, nothing in the program
  reads it.
\<close>

section \<open>Errors (xdr/error.go)\<close>

datatype ErrorCode =
    ErrBadArguments | ErrUnsupportedType | ErrBadEnumValue | ErrNotSettable | ErrOverflow
  | ErrNilInterface | ErrIO | ErrParseTime | ErrBadDiscriminant | ErrBadOptional
  | OtherErrorCode int

fun errorCodeStrings :: "ErrorCode \<Rightarrow> string" where
  "errorCodeStrings ErrBadArguments = ''ErrBadArguments''"
| "errorCodeStrings ErrUnsupportedType = ''ErrUnsupportedType''"
| "errorCodeStrings ErrBadEnumValue = ''ErrBadEnumValue''"
| "errorCodeStrings ErrNotSettable = ''ErrNotSettable''"
| "errorCodeStrings ErrOverflow = ''ErrOverflow''"
| "errorCodeStrings ErrNilInterface = ''ErrNilInterface''"
| "errorCodeStrings ErrIO = ''ErrIO''"
| "errorCodeStrings ErrParseTime = ''ErrParseTime''"
| "errorCodeStrings ErrBadDiscriminant = ''ErrBadDiscriminant''"
| "errorCodeStrings ErrBadOptional = ''ErrBadOptional''"
| "errorCodeStrings (OtherErrorCode e) = ''''"

definition ErrorCode_String :: "ErrorCode \<Rightarrow> string" where
  "ErrorCode_String e =
     (if errorCodeStrings e \<noteq> '''' then errorCodeStrings e
      else ''Unknown ErrorCode ('' @ (case e of OtherErrorCode i \<Rightarrow> Itoa i | _ \<Rightarrow> '''') @ '')'')"

datatype errvalue = NoValue | BytesValue bytes | IntValue "32 word" | UintValue "32 word" | StringValue string

record xerror =
  err_code :: ErrorCode
  err_func :: string
  err_value :: errvalue
  err_under :: "ioerror option"

text \<open>\<^verbatim>\<open>*MarshalError\<close> and \<^verbatim>\<open>*UnmarshalError\<close> are different dynamic types of the interface
  \<^verbatim>\<open>error\<close>; every other dynamic type is \<open>PlainError\<close>.\<close>

datatype goerror = MarshalError xerror | UnmarshalError xerror | PlainError string

definition marshalError :: "string \<Rightarrow> ErrorCode \<Rightarrow> errvalue \<Rightarrow> ioerror option \<Rightarrow> goerror" where
  "marshalError f c v err = MarshalError \<lparr>err_code = c, err_func = f, err_value = v, err_under = err\<rparr>"

definition unmarshalError :: "string \<Rightarrow> ErrorCode \<Rightarrow> errvalue \<Rightarrow> ioerror option \<Rightarrow> goerror" where
  "unmarshalError f c v err = UnmarshalError \<lparr>err_code = c, err_func = f, err_value = v, err_under = err\<rparr>"

fun IsIO :: "goerror \<Rightarrow> bool" where
  "IsIO (UnmarshalError e) = (err_code e = ErrIO)"
| "IsIO (MarshalError e) = (err_code e = ErrIO)"
| "IsIO (PlainError s) = False"

fun code_of :: "goerror \<Rightarrow> ErrorCode option" where
  "code_of (MarshalError e) = Some (err_code e)"
| "code_of (UnmarshalError e) = Some (err_code e)"
| "code_of (PlainError s) = None"

lemma code_of_simps [simp]:
  "code_of (marshalError f c v err) = Some c" "code_of (unmarshalError f c v err) = Some c"
  by (simp_all add: marshalError_def unmarshalError_def)

lemma IsIO_code_of: "IsIO e \<longleftrightarrow> code_of e = Some ErrIO"
  by (cases e) simp_all

section \<open>Struct tags (xdr/tag.go)\<close>

text \<open>
  A \<^verbatim>\<open>reflect.StructTag\<close> is the association list of its \<^verbatim>\<open>key:"value"\<close> pairs, and \<^verbatim>\<open>tag.Get(k)\<close>
  is the value of the first pair for \<open>k\<close>, or the empty string.
\<close>

type_synonym StructTag = "(string \<times> string) list"
type_synonym xdrtag = string

definition StructTag_Get :: "StructTag \<Rightarrow> string \<Rightarrow> string" where
  "StructTag_Get tag k = (case map_of tag k of None \<Rightarrow> '''' | Some v \<Rightarrow> v)"

definition parseTag :: "StructTag \<Rightarrow> xdrtag" where
  "parseTag tag =
     (let t = StructTag_Get tag ''xdr'' in
      if StructTag_Get tag ''xdropaque'' = ''false''
      then (if t = '''' then '','' else t) @ '',opaque=false''
      else t)"

text \<open>\<^verbatim>\<open>strings.Index(s, ",")\<close>: the place of the first comma, if there is one.\<close>

fun Index_comma :: "string \<Rightarrow> nat option" where
  "Index_comma [] = None"
| "Index_comma (c # s) = (if c = CHR '','' then Some 0 else map_option Suc (Index_comma s))"

lemma Index_comma_None: "Index_comma s = None \<longleftrightarrow> CHR '','' \<notin> set s"
  by (induction s) auto

lemma Index_comma_Some:
  "Index_comma s = Some i \<Longrightarrow> i < length s \<and> s ! i = CHR '','' \<and> CHR '','' \<notin> set (take i s)"
  by (induction s arbitrary: i) (auto split: if_splits)

text \<open>The loop of \<^verbatim>\<open>xdrtag.Get\<close>; each round drops the text up to the next comma.\<close>

function tag_Get :: "xdrtag \<Rightarrow> string \<Rightarrow> string" where
  "tag_Get tag opt =
     (if tag = '''' then ''''
      else
        let (seg, rest) = (case Index_comma tag of Some i \<Rightarrow> (take i tag, drop (i + 1) tag)
                           | None \<Rightarrow> (tag, ''''))
        in if seg = opt then ''true''
           else if length seg > length opt \<and> take (length opt) seg = opt \<and> seg ! length opt = CHR ''=''
           then (let val = drop (length opt + 1) seg in
                 case Index_comma val of Some i \<Rightarrow> drop i val | None \<Rightarrow> val)
           else tag_Get rest opt)"
  by pat_completeness auto
termination
  by (relation "measure (\<lambda>(tag, opt). length tag)")
    (auto split: option.splits dest: Index_comma_Some)

declare tag_Get.simps [simp del]

text \<open>What the loop computes: the first of the comma-separated options that is \<open>opt\<close> or
  \<open>opt=value\<close>.\<close>

fun split_comma :: "string \<Rightarrow> string list" where
  "split_comma [] = [[]]"
| "split_comma (c # s) =
     (if c = CHR '','' then [] # split_comma s
      else (case split_comma s of [] \<Rightarrow> [[c]] | seg # segs \<Rightarrow> (c # seg) # segs))"

fun option_value :: "string \<Rightarrow> string list \<Rightarrow> string" where
  "option_value opt [] = ''''"
| "option_value opt (seg # segs) =
     (if seg = opt then ''true''
      else if length opt < length seg \<and> take (length opt) seg = opt \<and> seg ! length opt = CHR ''=''
      then drop (length opt + 1) seg
      else option_value opt segs)"

lemma split_comma_nonempty: "split_comma s \<noteq> []"
  by (induction s) (auto split: list.splits)

lemma split_comma_None: "CHR '','' \<notin> set s \<Longrightarrow> split_comma s = [s]"
  by (induction s) auto

lemma split_comma_take:
  "CHR '','' \<notin> set p \<Longrightarrow> split_comma (p @ CHR '','' # s) = p # split_comma s"
  by (induction p) auto

lemma Index_comma_split:
  "Index_comma s = Some i \<Longrightarrow> s = take i s @ CHR '','' # drop (Suc i) s"
  by (metis Index_comma_Some id_take_nth_drop)

lemma no_comma_drop: "CHR '','' \<notin> set s \<Longrightarrow> Index_comma (drop n s) = None"
  by (simp add: Index_comma_None) (meson in_set_dropD)

lemma tag_Get_step:
  assumes "tag \<noteq> ''''" and "opt \<noteq> ''''"
  shows "tag_Get tag opt =
    (case Index_comma tag of
       Some i \<Rightarrow> (if take i tag = opt then ''true''
                  else if length opt < length (take i tag) \<and> take (length opt) (take i tag) = opt \<and>
                          take i tag ! length opt = CHR ''=''
                  then drop (length opt + 1) (take i tag)
                  else tag_Get (drop (i + 1) tag) opt)
     | None \<Rightarrow> option_value opt [tag])"
proof (cases "Index_comma tag")
  case None
  then have "CHR '','' \<notin> set tag" by (simp add: Index_comma_None)
  then have "Index_comma (drop (length opt + 1) tag) = None" by (rule no_comma_drop)
  moreover have "tag_Get [] opt = ''''" by (simp add: tag_Get.simps)
  ultimately show ?thesis using assms None by (subst tag_Get.simps) (simp add: Let_def)
next
  case (Some i)
  then have "CHR '','' \<notin> set (take i tag)" by (auto dest: Index_comma_Some)
  then have "Index_comma (drop (length opt + 1) (take i tag)) = None" by (rule no_comma_drop)
  with assms Some show ?thesis
    by (subst tag_Get.simps) (simp add: Let_def del: take_take nth_take length_take)
qed

lemma tag_Get_eq: "opt \<noteq> '''' \<Longrightarrow> tag_Get tag opt = option_value opt (split_comma tag)"
proof (induction tag rule: length_induct)
  case (1 tag)
  show ?case
  proof (cases "tag = '''' \<or> Index_comma tag = None")
    case True
    then show ?thesis
    proof
      assume "tag = ''''"
      with "1.prems" show ?thesis by (simp add: tag_Get.simps)
    next
      assume "Index_comma tag = None"
      then have "split_comma tag = [tag]" by (simp add: Index_comma_None split_comma_None)
      with "1.prems" \<open>Index_comma tag = None\<close> show ?thesis
        by (cases "tag = ''''") (simp_all add: tag_Get.simps [of "''''"] tag_Get_step)
    qed
  next
    case False
    then obtain i where i: "Index_comma tag = Some i" and "tag \<noteq> ''''" by auto
    from Index_comma_Some [OF i] have "length (drop (i + 1) tag) < length tag" and
      nc: "CHR '','' \<notin> set (take i tag)" by auto
    with "1.IH" "1.prems" have IH: "tag_Get (drop (i + 1) tag) opt = option_value opt (split_comma (drop (i + 1) tag))"
      by blast
    have "split_comma tag = take i tag # split_comma (drop (i + 1) tag)"
      using split_comma_take [OF nc, of "drop (Suc i) tag"] Index_comma_split [OF i] by simp
    with IH i \<open>tag \<noteq> ''''\<close> "1.prems" show ?thesis
      by (simp add: tag_Get_step del: take_take nth_take length_take)
  qed
qed

text \<open>The example of the package documentation.\<close>

lemma tag_Get_doc_example:
  "tag_Get ''foo,bar=2,baz=false'' ''foo'' = ''true''"
  "tag_Get ''foo,bar=2,baz=false'' ''bar'' = ''2''"
  "tag_Get ''foo,bar=2,baz=false'' ''baz'' = ''false''"
  "tag_Get ''foo,bar=2,baz=false'' ''qux'' = ''''"
  by (simp_all add: tag_Get_eq)

lemma tag_Get_empty [simp]: "tag_Get '''' opt = ''''"
  by (simp add: tag_Get.simps)

end
