(* ===== verification/Xdr_Value.thy ===== *)
theory Xdr_Value
  imports Xdr_Base
begin

text \<open>
  The part of Go's \<^verbatim>\<open>reflect\<close> package the XDR code works on: types, values, the zero value of
  a type (\<^verbatim>\<open>reflect.New\<close>), and the typing relation between the two.

  A \<open>rvalue\<close> is a \<^verbatim>\<open>reflect.Value\<close> with the parts of its type the code asks for
  (\<^verbatim>\<open>v.Type().Elem()\<close>, the exported flag and the tag of a struct field).  \<open>RInvalid\<close> is the zero
  \<^verbatim>\<open>reflect.Value\<close>, what \<^verbatim>\<open>Elem()\<close> of a nil pointer gives.  A slice carries its elements and the
  elements between its length and its capacity.  Integers of every width are kept in 64 bits,
  as \<^verbatim>\<open>v.Int()\<close> and \<^verbatim>\<open>v.Uint()\<close> return them (\<open>IntP\<close> and \<open>UintP\<close> are the kinds \<^verbatim>\<open>int\<close> and
  \<^verbatim>\<open>uint\<close>, 64 bits wide on the platforms of the program); a float is its IEEE bit pattern.  Recursive
  types go through \<open>TNamed\<close>, which the environment resolves.

  Values are finite trees.  Go data that contains itself through a pointer, for which \<^verbatim>\<open>encode.go\<close> says that encoding
  does not end, has no counterpart here, and no theorem speaks of it; the values the program encodes (messages,
  arguments, replies) are built by its own code from finite lists.
\<close>

section \<open>Types\<close>

datatype intkind = Int8 | Int16 | Int32 | IntP | Int64
datatype uintkind = Uint8 | Uint16 | Uint32 | UintP | Uint64

record fieldinfo =
  exported :: bool
  ftag :: StructTag

datatype gotype =
    TInt intkind | TUint uintkind | TBool | TFloat32 | TFloat64 | TString | TTime
  | TArray nat gotype | TSlice gotype | TPtr gotype | TMap gotype gotype
  | TStruct "(fieldinfo \<times> gotype) list" | TIface | TNamed string | TUnsupported

datatype gotime = GoTime (unix_sec: int) (unix_nsec: nat)

text \<open>
  What the code gets from outside the repository: the named types of the program that uses the
  package, \<^verbatim>\<open>time.Time.Format(RFC3339Nano)\<close> and \<^verbatim>\<open>time.Parse(RFC3339, _)\<close>, and the conversions
  between floating-point formats.
\<close>

record genv =
  named :: "string \<Rightarrow> gotype option"
  time_Format :: "gotime \<Rightarrow> string"
  time_Parse :: "string \<Rightarrow> gotime option"
  f32_via_f64 :: "u32 \<Rightarrow> u32"
  f32_int :: "u32 \<Rightarrow> int"
  f64_int :: "u64 \<Rightarrow> int"

definition resolve :: "genv \<Rightarrow> gotype \<Rightarrow> gotype" where
  "resolve G T = (case T of TNamed n \<Rightarrow> (case named G n of Some T' \<Rightarrow> T' | None \<Rightarrow> TUnsupported) | _ \<Rightarrow> T)"

section \<open>Values\<close>

datatype rvalue =
    RInt intkind u64 | RUint uintkind u64 | RBool bool | RFloat32 u32 | RFloat64 u64
  | RString string | RTime gotime
  | RArray gotype "rvalue list"
  | RSlice gotype "rvalue list" "rvalue list"
  | RPtr gotype "rvalue option"
  | RMap gotype gotype "(rvalue \<times> rvalue) list"
  | RStruct "(fieldinfo \<times> rvalue) list"
  | RIface "rvalue option"
  | RInvalid | RUnsupported

text \<open>The zero value of a type; \<open>newval\<close> is \<^verbatim>\<open>reflect.New(T).Elem()\<close>.  January 1 of year 1 is
  the zero \<^verbatim>\<open>time.Time\<close>.\<close>

primrec zero :: "gotype \<Rightarrow> rvalue" where
  "zero (TInt k) = RInt k 0"
| "zero (TUint k) = RUint k 0"
| "zero TBool = RBool False"
| "zero TFloat32 = RFloat32 0"
| "zero TFloat64 = RFloat64 0"
| "zero TString = RString ''''"
| "zero TTime = RTime (GoTime (- 62135596800) 0)"
| "zero (TArray n T) = RArray T (replicate n (zero T))"
| "zero (TSlice T) = RSlice T [] []"
| "zero (TPtr T) = RPtr T None"
| "zero (TMap K V) = RMap K V []"
| "zero (TStruct fs) = RStruct (map (map_prod id zero) fs)"
| "zero TIface = RIface None"
| "zero (TNamed n) = RInvalid"
| "zero TUnsupported = RUnsupported"

definition newval :: "genv \<Rightarrow> gotype \<Rightarrow> rvalue" where
  "newval G T = zero (resolve G T)"

section \<open>Ranges\<close>

text \<open>\<^verbatim>\<open>v.OverflowInt(x)\<close> and \<^verbatim>\<open>v.OverflowUint(x)\<close>: \<open>x\<close> does not fit the kind.\<close>

fun int_bits :: "intkind \<Rightarrow> nat" where
  "int_bits Int8 = 8" | "int_bits Int16 = 16" | "int_bits Int32 = 32" | "int_bits IntP = 64" | "int_bits Int64 = 64"

fun uint_bits :: "uintkind \<Rightarrow> nat" where
  "uint_bits Uint8 = 8" | "uint_bits Uint16 = 16" | "uint_bits Uint32 = 32" | "uint_bits UintP = 64" | "uint_bits Uint64 = 64"

definition OverflowInt :: "intkind \<Rightarrow> u64 \<Rightarrow> bool" where
  "OverflowInt k x \<longleftrightarrow> \<not> (- (2 ^ (int_bits k - 1)) \<le> sint x \<and> sint x < 2 ^ (int_bits k - 1))"

definition OverflowUint :: "uintkind \<Rightarrow> u64 \<Rightarrow> bool" where
  "OverflowUint k x \<longleftrightarrow> \<not> unat x < 2 ^ uint_bits k"

section \<open>Typing\<close>

text \<open>
  Go demands that a type that contains itself does so behind a pointer, slice or map: a name
  may stand there and nowhere else (\<open>g\<close> tells whether it may stand here).
\<close>

fun wf_ty :: "bool \<Rightarrow> gotype \<Rightarrow> bool" where
  "wf_ty g (TNamed n) = g"
| "wf_ty g (TArray n T) = (n < 2 ^ 31 \<and> wf_ty False T)"
| "wf_ty g (TSlice T) = wf_ty True T"
| "wf_ty g (TPtr T) = wf_ty True T"
| "wf_ty g (TMap K V) = (wf_ty True K \<and> wf_ty True V)"
| "wf_ty g (TStruct fs) = (\<forall>ft \<in> set fs. wf_ty False (snd ft))"
| "wf_ty g _ = True"

definition env_ok :: "genv \<Rightarrow> bool" where
  "env_ok G \<longleftrightarrow> (\<forall>n T. named G n = Some T \<longrightarrow> wf_ty False T)"

text \<open>The type a value carries, and \<open>has_type G T v\<close>: \<open>v\<close> is a value of type \<open>T\<close>.\<close>

fun type_of :: "rvalue \<Rightarrow> gotype" where
  "type_of (RInt k x) = TInt k"
| "type_of (RUint k x) = TUint k"
| "type_of (RBool b) = TBool"
| "type_of (RFloat32 x) = TFloat32"
| "type_of (RFloat64 x) = TFloat64"
| "type_of (RString s) = TString"
| "type_of (RTime t) = TTime"
| "type_of (RArray E xs) = TArray (length xs) E"
| "type_of (RSlice E xs sp) = TSlice E"
| "type_of (RPtr E p) = TPtr E"
| "type_of (RMap K V kvs) = TMap K V"
| "type_of (RStruct fs) = TStruct (map (\<lambda>fv. (fst fv, type_of (snd fv))) fs)"
| "type_of (RIface p) = TIface"
| "type_of RInvalid = TUnsupported"
| "type_of RUnsupported = TUnsupported"

fun has_type :: "genv \<Rightarrow> gotype \<Rightarrow> rvalue \<Rightarrow> bool" where
  "has_type G T (RInt k x) = (T = TInt k \<and> \<not> OverflowInt k x)"
| "has_type G T (RUint k x) = (T = TUint k \<and> \<not> OverflowUint k x)"
| "has_type G T (RBool b) = (T = TBool)"
| "has_type G T (RFloat32 x) = (T = TFloat32)"
| "has_type G T (RFloat64 x) = (T = TFloat64)"
| "has_type G T (RString s) = (T = TString)"
| "has_type G T (RTime t) = (T = TTime)"
| "has_type G T (RArray E xs) = (T = TArray (length xs) E \<and> (\<forall>x \<in> set xs. has_type G E x))"
| "has_type G T (RSlice E xs sp) =
     (T = TSlice E \<and> (\<forall>x \<in> set xs. has_type G (resolve G E) x) \<and> (\<forall>x \<in> set sp. has_type G (resolve G E) x))"
| "has_type G T (RPtr E p) = (T = TPtr E \<and> (case p of None \<Rightarrow> True | Some u \<Rightarrow> has_type G (resolve G E) u))"
| "has_type G T (RMap K V kvs) =
     (T = TMap K V \<and> (\<forall>kv \<in> set kvs. has_type G (resolve G K) (fst kv) \<and> has_type G (resolve G V) (snd kv)))"
| "has_type G T (RStruct fs) =
     (case T of
        TStruct fts \<Rightarrow> list_all2 (\<lambda>ft fv. fst ft = fst fv \<and> has_type G (snd ft) (snd fv)) fts fs
      | _ \<Rightarrow> False)"
| "has_type G T (RIface p) =
     (T = TIface \<and> (case p of None \<Rightarrow> True | Some v \<Rightarrow> wf_ty False (type_of v) \<and> has_type G (type_of v) v))"
| "has_type G T RInvalid = False"
| "has_type G T RUnsupported = (T = TUnsupported)"

lemma has_type_type_of: "has_type G T v \<Longrightarrow> type_of v = T"
proof (induction v arbitrary: T)
  case (RStruct fs)
  then obtain fts where T: "T = TStruct fts"
    and fs: "list_all2 (\<lambda>ft fv. fst ft = fst fv \<and> has_type G (snd ft) (snd fv)) fts fs"
    by (auto split: gotype.splits)
  from fs RStruct.IH have "map (\<lambda>fv. (fst fv, type_of (snd fv))) fs = fts"
  proof (induction rule: list_all2_induct)
    case (Cons ft fts fv fs)
    then have "type_of (snd fv) = snd ft" by (metis list.set_intros(1) snds.intros prod.collapse)
    with Cons show ?case by (auto intro: prod_eqI)
  qed simp
  with T show ?case by simp
qed simp_all

end
