(* ===== verification/Xdr_Encode.thy ===== *)
theory Xdr_Encode
  imports Xdr_Value
begin

text \<open>
  \<^verbatim>\<open>xdr/encode.go\<close>: every method of \<^verbatim>\<open>Encoder\<close>.  The writer the encoder wraps is the
  parameter \<open>wr\<close>; a method takes the writer's state and returns the number of bytes written,
  the error and the writer's state.  The recursive methods take the recursive call
  (\<^verbatim>\<open>enc.encode\<close>) as an argument; \<open>encode\<close> ties the knot with a recursion depth, and
  \<open>encode_more_depth\<close> proves that the depth of the value is enough.
\<close>

type_synonym 'w eres = "nat \<times> goerror option \<times> 'w"

text \<open>The code's \<^verbatim>\<open>n2, err := ...; n += n2; if err != nil { return n, err }\<close> between two writes.\<close>

definition seqE :: "'w eres go \<Rightarrow> ('w \<Rightarrow> 'w eres go) \<Rightarrow> 'w eres go" where
  "seqE m f = bindG m (\<lambda>(n, err, w).
     (case err of Some e \<Rightarrow> Inr (n, Some e, w)
      | None \<Rightarrow> bindG (f w) (\<lambda>(n2, err2, w2). Inr (n + n2, err2, w2))))"

lemma seqE_Inr:
  "seqE m f = Inr (n, err, w') \<longleftrightarrow>
     (\<exists>e. m = Inr (n, Some e, w') \<and> err = Some e) \<or>
     (\<exists>n1 w1 n2. m = Inr (n1, None, w1) \<and> f w1 = Inr (n2, err, w') \<and> n = n1 + n2)"
proof (cases m)
  case (Inr x)
  obtain n1 e w1 where "x = (n1, e, w1)" by (cases x)
  with Inr show ?thesis by (cases e) (auto simp: seqE_def bindG_eq_Inr)
qed (simp add: seqE_def)

definition doneE :: "'w \<Rightarrow> 'w eres go" where
  "doneE w = Inr (0, None, w)"

definition failE :: "goerror \<Rightarrow> 'w \<Rightarrow> 'w eres go" where
  "failE e w = Inr (0, Some e, w)"

section \<open>Primitives\<close>

text \<open>One \<^verbatim>\<open>Write\<close>, and the error it turns into: \<open>mk\<close> makes it from the bytes written.\<close>

definition writeE :: "'w writer \<Rightarrow> bytes \<Rightarrow> (nat \<Rightarrow> ioerror \<Rightarrow> goerror) \<Rightarrow> 'w \<Rightarrow> 'w eres go" where
  "writeE wr b mk w =
     (case wr b w of (n, err, w') \<Rightarrow> Inr (n, map_option (mk n) err, w'))"

definition write_all :: "'w writer \<Rightarrow> string \<Rightarrow> bytes \<Rightarrow> 'w \<Rightarrow> 'w eres go" where
  "write_all wr f b = writeE wr b (\<lambda>n err. marshalError f ErrIO (BytesValue (take n b)) (Some err))"

definition EncodeInt :: "'w writer \<Rightarrow> 32 word \<Rightarrow> 'w \<Rightarrow> 'w eres go" where
  "EncodeInt wr v = write_all wr ''EncodeInt''
     [ucast (signed_drop_bit 24 v), ucast (signed_drop_bit 16 v), ucast (signed_drop_bit 8 v), ucast v]"

definition EncodeUint :: "'w writer \<Rightarrow> u32 \<Rightarrow> 'w \<Rightarrow> 'w eres go" where
  "EncodeUint wr v = write_all wr ''EncodeUint''
     [ucast (drop_bit 24 v), ucast (drop_bit 16 v), ucast (drop_bit 8 v), ucast v]"

definition EncodeEnum :: "'w writer \<Rightarrow> 32 word \<Rightarrow> (32 word \<Rightarrow> bool) \<Rightarrow> 'w \<Rightarrow> 'w eres go" where
  "EncodeEnum wr v validEnums w =
     (if \<not> validEnums v then failE (marshalError ''EncodeEnum'' ErrBadEnumValue (IntValue v) None) w
      else EncodeInt wr v w)"

definition EncodeBool :: "'w writer \<Rightarrow> bool \<Rightarrow> 'w \<Rightarrow> 'w eres go" where
  "EncodeBool wr v = (let i = (if v then 1 else 0) in EncodeInt wr i)"

definition EncodeHyper :: "'w writer \<Rightarrow> 64 word \<Rightarrow> 'w \<Rightarrow> 'w eres go" where
  "EncodeHyper wr v = write_all wr ''EncodeHyper''
     [ucast (signed_drop_bit 56 v), ucast (signed_drop_bit 48 v), ucast (signed_drop_bit 40 v),
      ucast (signed_drop_bit 32 v), ucast (signed_drop_bit 24 v), ucast (signed_drop_bit 16 v),
      ucast (signed_drop_bit 8 v), ucast v]"

definition EncodeUhyper :: "'w writer \<Rightarrow> u64 \<Rightarrow> 'w \<Rightarrow> 'w eres go" where
  "EncodeUhyper wr v = write_all wr ''EncodeUhyper''
     [ucast (drop_bit 56 v), ucast (drop_bit 48 v), ucast (drop_bit 40 v), ucast (drop_bit 32 v),
      ucast (drop_bit 24 v), ucast (drop_bit 16 v), ucast (drop_bit 8 v), ucast v]"

text \<open>A float is its bit pattern, so \<^verbatim>\<open>math.Float32bits\<close> is the identity.\<close>

definition EncodeFloat :: "'w writer \<Rightarrow> u32 \<Rightarrow> 'w \<Rightarrow> 'w eres go" where
  "EncodeFloat wr v = EncodeUint wr v"

definition EncodeDouble :: "'w writer \<Rightarrow> u64 \<Rightarrow> 'w \<Rightarrow> 'w eres go" where
  "EncodeDouble wr v = EncodeUhyper wr v"

text \<open>The data and its padding are two writes; the error of the second reports both.\<close>

definition EncodeFixedOpaque :: "'w writer \<Rightarrow> bytes \<Rightarrow> 'w \<Rightarrow> 'w eres go" where
  "EncodeFixedOpaque wr v w =
     (let l = length v; pad = (4 - l mod 4) mod 4 in
      seqE (write_all wr ''EncodeFixedOpaque'' v w)
        (\<lambda>w. if pad > 0 then
                (let b = replicate pad 0 in
                 writeE wr b (\<lambda>n2 err. marshalError ''EncodeFixedOpaque'' ErrIO
                                (BytesValue (v @ take n2 b)) (Some err)) w)
              else doneE w))"

definition EncodeOpaque :: "'w writer \<Rightarrow> bytes \<Rightarrow> 'w \<Rightarrow> 'w eres go" where
  "EncodeOpaque wr v w = seqE (EncodeUint wr (of_nat (length v)) w) (EncodeFixedOpaque wr v)"

definition EncodeString :: "'w writer \<Rightarrow> string \<Rightarrow> 'w \<Rightarrow> 'w eres go" where
  "EncodeString wr v w = seqE (EncodeUint wr (of_nat (length v)) w) (EncodeFixedOpaque wr (string_bytes v))"

section \<open>Reflection\<close>

text \<open>\<^verbatim>\<open>enc.indirect\<close>: follow pointers; \<^verbatim>\<open>Elem()\<close> of a nil pointer is the invalid value.\<close>

fun indirect :: "rvalue \<Rightarrow> rvalue" where
  "indirect (RPtr T (Some v)) = indirect v"
| "indirect (RPtr T None) = RInvalid"
| "indirect v = v"

text \<open>The bytes of a \<^verbatim>\<open>[]uint8\<close>.\<close>

fun byte_of :: "rvalue \<Rightarrow> byte" where
  "byte_of (RUint k x) = ucast x"
| "byte_of _ = 0"

definition rbyte :: "byte \<Rightarrow> rvalue" where
  "rbyte b = RUint Uint8 (ucast b)"

fun encode_elems :: "(rvalue \<Rightarrow> 'w \<Rightarrow> 'w eres go) \<Rightarrow> rvalue list \<Rightarrow> 'w \<Rightarrow> 'w eres go" where
  "encode_elems enc [] w = doneE w"
| "encode_elems enc (x # xs) w = seqE (enc x w) (encode_elems enc xs)"

definition encodeFixedArray ::
  "'w writer \<Rightarrow> (rvalue \<Rightarrow> 'w \<Rightarrow> 'w eres go) \<Rightarrow> gotype \<Rightarrow> rvalue list \<Rightarrow> bool \<Rightarrow> 'w \<Rightarrow> 'w eres go" where
  "encodeFixedArray wr enc E xs ignoreOpaque w =
     (if \<not> ignoreOpaque \<and> E = TUint Uint8 then EncodeFixedOpaque wr (map byte_of xs) w
      else encode_elems enc xs w)"

definition encodeArray ::
  "'w writer \<Rightarrow> (rvalue \<Rightarrow> 'w \<Rightarrow> 'w eres go) \<Rightarrow> gotype \<Rightarrow> rvalue list \<Rightarrow> bool \<Rightarrow> 'w \<Rightarrow> 'w eres go" where
  "encodeArray wr enc E xs ignoreOpaque w =
     seqE (EncodeUint wr (of_nat (length xs)) w) (encodeFixedArray wr enc E xs ignoreOpaque)"

text \<open>
  The text of a union discriminant: \<^verbatim>\<open>strconv.Itoa\<close> of a value convertible to \<^verbatim>\<open>int\<close>, \<^verbatim>\<open>"1"\<close> or
  \<^verbatim>\<open>"0"\<close> of a boolean, nothing for other kinds.  \<^verbatim>\<open>vf.Type()\<close> of the invalid value panics.
\<close>

fun discriminant :: "genv \<Rightarrow> rvalue \<Rightarrow> string option go" where
  "discriminant G (RInt k x) = Inr (Some (Itoa (sint x)))"
| "discriminant G (RUint k x) = Inr (Some (Itoa (sint x)))"
| "discriminant G (RFloat32 x) = Inr (Some (Itoa (f32_int G x)))"
| "discriminant G (RFloat64 x) = Inr (Some (Itoa (f64_int G x)))"
| "discriminant G (RBool b) = Inr (Some (if b then ''1'' else ''0''))"
| "discriminant G RInvalid = Inl Panic"
| "discriminant G v = Inr None"

text \<open>The field is left out: its \<^verbatim>\<open>unionnotcase\<close> is the discriminant, or its \<^verbatim>\<open>unioncase\<close> is not.\<close>

definition skip_case :: "xdrtag \<Rightarrow> string \<Rightarrow> bool" where
  "skip_case tag disc \<longleftrightarrow>
     disc \<noteq> '''' \<and>
     (tag_Get tag ''unionnotcase'' \<noteq> '''' \<and> tag_Get tag ''unionnotcase'' = disc \<or>
      tag_Get tag ''unioncase'' \<noteq> '''' \<and> tag_Get tag ''unioncase'' \<noteq> disc)"

text \<open>
  One field of \<^verbatim>\<open>encodeStruct\<close>, after the optional-data flag: \<open>cont\<close> is the rest of the loop,
  with the discriminant it starts from.  \<open>encode_member\<close> is the part after the check for
  non-opaque byte sequences.
\<close>

definition encode_member ::
  "genv \<Rightarrow> (rvalue \<Rightarrow> 'w \<Rightarrow> 'w eres go) \<Rightarrow> xdrtag \<Rightarrow> string \<Rightarrow> rvalue \<Rightarrow>
   (string \<Rightarrow> 'w \<Rightarrow> 'w eres go) \<Rightarrow> 'w \<Rightarrow> 'w eres go" where
  "encode_member G enc tag disc vf cont w =
     bindG (if tag_Get tag ''union'' = ''true'' then discriminant G vf else Inr (Some disc))
       (\<lambda>d. case d of
          None \<Rightarrow> failE (marshalError ''encodeStruct'' ErrBadDiscriminant NoValue None) w
        | Some disc' \<Rightarrow>
            if skip_case tag disc' then cont disc' w
            else seqE (enc vf w) (cont disc'))"

definition encode_field ::
  "genv \<Rightarrow> 'w writer \<Rightarrow> (rvalue \<Rightarrow> 'w \<Rightarrow> 'w eres go) \<Rightarrow> xdrtag \<Rightarrow> string \<Rightarrow> rvalue \<Rightarrow>
   (string \<Rightarrow> 'w \<Rightarrow> 'w eres go) \<Rightarrow> 'w \<Rightarrow> 'w eres go" where
  "encode_field G wr enc tag disc vf cont w =
     (if tag_Get tag ''opaque'' = ''false'' then
        (case vf of
           RSlice E xs sp \<Rightarrow> seqE (encodeArray wr enc E xs True w) (cont disc)
         | RArray E xs \<Rightarrow> seqE (encodeFixedArray wr enc E xs True w) (cont disc)
         | _ \<Rightarrow> encode_member G enc tag disc vf cont w)
      else encode_member G enc tag disc vf cont w)"

fun encode_fields ::
  "genv \<Rightarrow> 'w writer \<Rightarrow> (rvalue \<Rightarrow> 'w \<Rightarrow> 'w eres go) \<Rightarrow> string \<Rightarrow> (fieldinfo \<times> rvalue) list \<Rightarrow> 'w \<Rightarrow> 'w eres go" where
  "encode_fields G wr enc disc [] w = doneE w"
| "encode_fields G wr enc disc ((fi, vf) # fs) w =
     (if \<not> exported fi then encode_fields G wr enc disc fs w
      else
        (let tag = parseTag (ftag fi);
             cont = (\<lambda>disc. encode_fields G wr enc disc fs) in
         if tag_Get tag ''optional'' = ''true'' then
           (case vf of
              RPtr T p \<Rightarrow>
                seqE (EncodeBool wr (p \<noteq> None) w)
                  (\<lambda>w. if p = None then cont disc w
                       else encode_field G wr enc tag disc (indirect vf) cont w)
            | _ \<Rightarrow> failE (marshalError ''encodeStruct'' ErrBadOptional NoValue None) w)
         else encode_field G wr enc tag disc (indirect vf) cont w))"

definition encodeStruct ::
  "genv \<Rightarrow> 'w writer \<Rightarrow> (rvalue \<Rightarrow> 'w \<Rightarrow> 'w eres go) \<Rightarrow> (fieldinfo \<times> rvalue) list \<Rightarrow> 'w \<Rightarrow> 'w eres go" where
  "encodeStruct G wr enc fs = encode_fields G wr enc '''' fs"

fun encode_pairs :: "(rvalue \<Rightarrow> 'w \<Rightarrow> 'w eres go) \<Rightarrow> (rvalue \<times> rvalue) list \<Rightarrow> 'w \<Rightarrow> 'w eres go" where
  "encode_pairs enc [] w = doneE w"
| "encode_pairs enc (kv # kvs) w = seqE (enc (fst kv) w) (\<lambda>w. seqE (enc (snd kv) w) (encode_pairs enc kvs))"

definition encodeMap ::
  "'w writer \<Rightarrow> (rvalue \<Rightarrow> 'w \<Rightarrow> 'w eres go) \<Rightarrow> (rvalue \<times> rvalue) list \<Rightarrow> 'w \<Rightarrow> 'w eres go" where
  "encodeMap wr enc kvs w = seqE (EncodeUint wr (of_nat (length kvs)) w) (encode_pairs enc kvs)"

definition encodeInterface :: "(rvalue \<Rightarrow> 'w \<Rightarrow> 'w eres go) \<Rightarrow> rvalue option \<Rightarrow> 'w \<Rightarrow> 'w eres go" where
  "encodeInterface enc p w =
     (case p of
        None \<Rightarrow> failE (marshalError ''encodeInterface'' ErrNilInterface NoValue None) w
      | Some u \<Rightarrow> enc (indirect u) w)"

text \<open>\<^verbatim>\<open>enc.encode\<close>, the dispatch on the kind of the value.\<close>

definition encode_kind ::
  "genv \<Rightarrow> 'w writer \<Rightarrow> (rvalue \<Rightarrow> 'w \<Rightarrow> 'w eres go) \<Rightarrow> rvalue \<Rightarrow> 'w \<Rightarrow> 'w eres go" where
  "encode_kind G wr enc ve w =
     (case ve of
        RInvalid \<Rightarrow> Inl Panic
      | RTime t \<Rightarrow> EncodeString wr (time_Format G t) w
      | RInt k x \<Rightarrow> if k = Int64 then EncodeHyper wr x w else EncodeInt wr (ucast x) w
      | RUint k x \<Rightarrow> if k = Uint64 then EncodeUhyper wr x w else EncodeUint wr (ucast x) w
      | RBool b \<Rightarrow> EncodeBool wr b w
      | RFloat32 x \<Rightarrow> EncodeFloat wr (f32_via_f64 G x) w
      | RFloat64 x \<Rightarrow> EncodeDouble wr x w
      | RString s \<Rightarrow> EncodeString wr s w
      | RArray E xs \<Rightarrow> encodeFixedArray wr enc E xs False w
      | RSlice E xs sp \<Rightarrow> encodeArray wr enc E xs False w
      | RStruct fs \<Rightarrow> encodeStruct G wr enc fs w
      | RMap K V kvs \<Rightarrow> encodeMap wr enc kvs w
      | RIface p \<Rightarrow> encodeInterface enc p w
      | _ \<Rightarrow> failE (marshalError ''encode'' ErrUnsupportedType NoValue None) w)"

fun encode :: "genv \<Rightarrow> 'w writer \<Rightarrow> nat \<Rightarrow> rvalue \<Rightarrow> 'w \<Rightarrow> 'w eres go" where
  "encode G wr 0 v w = Inl Diverge"
| "encode G wr (Suc d) v w =
     (if v = RInvalid then failE (marshalError ''encode'' ErrUnsupportedType NoValue None) w
      else encode_kind G wr (encode G wr d) (indirect v) w)"

text \<open>How deep \<^verbatim>\<open>encode\<close> can go into a value.\<close>

definition maxl :: "nat list \<Rightarrow> nat" where
  "maxl ns = foldr max ns 0"

fun vdepth :: "rvalue \<Rightarrow> nat" where
  "vdepth (RArray E xs) = Suc (maxl (map vdepth xs))"
| "vdepth (RSlice E xs sp) = Suc (maxl (map vdepth xs))"
| "vdepth (RPtr E p) = Suc (case p of None \<Rightarrow> 0 | Some u \<Rightarrow> vdepth u)"
| "vdepth (RMap K V kvs) = Suc (maxl (map (\<lambda>kv. max (vdepth (fst kv)) (vdepth (snd kv))) kvs))"
| "vdepth (RStruct fs) = Suc (maxl (map (\<lambda>fv. vdepth (snd fv)) fs))"
| "vdepth (RIface p) = Suc (case p of None \<Rightarrow> 0 | Some u \<Rightarrow> vdepth u)"
| "vdepth _ = 1"

text \<open>
  \<^verbatim>\<open>enc.Encode(v)\<close> and \<^verbatim>\<open>Marshal(w, v)\<close>; \<open>None\<close> is the nil interface.  The recursion never goes
  deeper than the depth of the value (\<open>Marshal_returns\<close> below).
\<close>

fun nil_below :: "rvalue \<Rightarrow> bool" where
  "nil_below (RPtr T None) = True"
| "nil_below (RPtr T (Some v)) = nil_below v"
| "nil_below v = False"

definition Encode :: "genv \<Rightarrow> 'w writer \<Rightarrow> rvalue option \<Rightarrow> 'w \<Rightarrow> 'w eres go" where
  "Encode G wr p w =
     (case p of
        None \<Rightarrow> failE (marshalError ''Marshal'' ErrNilInterface NoValue None) w
      | Some v \<Rightarrow>
          if nil_below v then failE (marshalError ''Marshal'' ErrBadArguments NoValue None) w
          else encode G wr (vdepth v) (indirect v) w)"

definition Marshal :: "genv \<Rightarrow> 'w writer \<Rightarrow> 'w \<Rightarrow> rvalue option \<Rightarrow> 'w eres go" where
  "Marshal G wr w p = Encode G wr p w"

section \<open>What every encoder method has in common\<close>

lemma maxl_ge: "x \<in> set xs \<Longrightarrow> f x \<le> maxl (map f xs)"
  by (induction xs) (auto simp: maxl_def max_def)

lemma vdepth_pos: "0 < vdepth v"
  by (cases v) simp_all

lemma vdepth_indirect: "vdepth (indirect v) \<le> vdepth v"
proof (induction v rule: indirect.induct)
  case (2 T)
  then show ?case by simp
qed (simp_all add: le_SucI)

lemma vdepth_children:
  "x \<in> set xs \<Longrightarrow> vdepth x < vdepth (RArray E xs)"
  "x \<in> set xs \<Longrightarrow> vdepth x < vdepth (RSlice E xs sp)"
  "kv \<in> set kvs \<Longrightarrow> vdepth (fst kv) < vdepth (RMap K V kvs) \<and> vdepth (snd kv) < vdepth (RMap K V kvs)"
  "fv \<in> set fs \<Longrightarrow> vdepth (snd fv) < vdepth (RStruct fs)"
  using maxl_ge [of x xs vdepth] maxl_ge [of fv fs "\<lambda>fv. vdepth (snd fv)"]
    maxl_ge [of kv kvs "\<lambda>kv. max (vdepth (fst kv)) (vdepth (snd kv))"]
  by auto

lemma discriminant_crash: "discriminant G v = Inl c \<Longrightarrow> c = Panic"
  by (cases v) simp_all

text \<open>
  A property of encoder steps that the writes have and that sequencing keeps holds of every
  method of the encoder.  The locale states this once; its instances are the byte count, the
  alignment, termination and the independence of what was written before.
\<close>

locale encoder_property =
  fixes wr :: "'w writer"
    and P :: "('w \<Rightarrow> 'w eres go) \<Rightarrow> bool"
  assumes P_done: "P doneE"
    and P_fail: "code_of e \<noteq> Some ErrIO \<Longrightarrow> P (failE e)"
    and P_panic: "P (\<lambda>w. Inl Panic)"
    and P_word: "length b = 4 \<or> length b = 8 \<Longrightarrow> P (write_all wr fname b)"
    and P_opaque: "P (EncodeFixedOpaque wr b)"
    and P_seq: "P f \<Longrightarrow> P g \<Longrightarrow> P (\<lambda>w. seqE (f w) g)"
begin

lemma P_prims [intro]:
  "P (EncodeInt wr i)" "P (EncodeUint wr u)" "P (EncodeBool wr bo)" "P (EncodeHyper wr h)"
  "P (EncodeUhyper wr uh)" "P (EncodeFloat wr fl)" "P (EncodeDouble wr db)"
  by (simp_all add: EncodeInt_def EncodeUint_def EncodeBool_def EncodeHyper_def EncodeUhyper_def
      EncodeFloat_def EncodeDouble_def Let_def P_word)

lemma P_opaques [intro]: "P (EncodeOpaque wr bs)" "P (EncodeString wr s)"
  unfolding EncodeOpaque_def [abs_def] EncodeString_def [abs_def]
  by (intro P_seq P_opaque P_prims)+

lemma P_if: "P f \<Longrightarrow> P g \<Longrightarrow> P (\<lambda>w. if b then f w else g w)"
  by (cases b) simp_all

lemma P_elems: "(\<And>x. x \<in> set xs \<Longrightarrow> P (enc x)) \<Longrightarrow> P (encode_elems enc xs)"
proof (induction xs)
  case Nil
  have "encode_elems enc [] = doneE" by (rule ext) simp
  then show ?case using P_done by simp
next
  case (Cons x xs)
  have "encode_elems enc (x # xs) = (\<lambda>w. seqE (enc x w) (encode_elems enc xs))"
    by (rule ext) simp
  with Cons show ?case by (simp add: P_seq)
qed

lemma P_pairs:
  "(\<And>kv. kv \<in> set kvs \<Longrightarrow> P (enc (fst kv)) \<and> P (enc (snd kv))) \<Longrightarrow> P (encode_pairs enc kvs)"
proof (induction kvs)
  case Nil
  have "encode_pairs enc [] = doneE" by (rule ext) simp
  then show ?case using P_done by simp
next
  case (Cons kv kvs)
  have "encode_pairs enc (kv # kvs) =
      (\<lambda>w. seqE (enc (fst kv) w) (\<lambda>w. seqE (enc (snd kv) w) (encode_pairs enc kvs)))"
    by (rule ext) simp
  with Cons show ?case by (simp add: P_seq)
qed

lemma P_arrays:
  assumes "\<And>x. x \<in> set xs \<Longrightarrow> P (enc x)"
  shows "P (encodeFixedArray wr enc E xs io)" and "P (encodeArray wr enc E xs io)"
proof -
  have "encodeFixedArray wr enc E xs io =
      (if \<not> io \<and> E = TUint Uint8 then EncodeFixedOpaque wr (map byte_of xs) else encode_elems enc xs)"
    by (rule ext) (simp add: encodeFixedArray_def)
  then show fixed: "P (encodeFixedArray wr enc E xs io)"
    using assms by (simp add: P_opaque P_elems)
  then show "P (encodeArray wr enc E xs io)"
    unfolding encodeArray_def [abs_def] by (intro P_seq P_prims)
qed

lemma P_member:
  assumes "P (enc vf)" and "\<And>disc. P (cont disc)"
  shows "P (encode_member G enc tag disc vf cont)"
proof -
  define D where "D = (if tag_Get tag ''union'' = ''true'' then discriminant G vf else Inr (Some disc))"
  have E: "encode_member G enc tag disc vf cont =
    (case D of
       Inl c \<Rightarrow> (\<lambda>w. Inl c)
     | Inr None \<Rightarrow> failE (marshalError ''encodeStruct'' ErrBadDiscriminant NoValue None)
     | Inr (Some d) \<Rightarrow> if skip_case tag d then cont d else (\<lambda>w. seqE (enc vf w) (cont d)))"
    by (rule ext) (simp add: encode_member_def D_def [symmetric] split: sum.split option.split)
  have "D = Inl c \<Longrightarrow> c = Panic" for c
    by (auto simp: D_def split: if_splits dest: discriminant_crash)
  then show ?thesis
    using assms P_panic by (auto simp: E P_fail P_seq split: sum.split option.split)
qed

lemma P_field:
  assumes enc: "P (enc vf)" and sub: "\<And>x. vdepth x < vdepth vf \<Longrightarrow> P (enc x)"
    and cont: "\<And>disc. P (cont disc)"
  shows "P (encode_field G wr enc tag disc vf cont)"
proof -
  have E: "encode_field G wr enc tag disc vf cont =
    (if tag_Get tag ''opaque'' = ''false'' then
        (case vf of
           RSlice E xs sp \<Rightarrow> (\<lambda>w. seqE (encodeArray wr enc E xs True w) (cont disc))
         | RArray E xs \<Rightarrow> (\<lambda>w. seqE (encodeFixedArray wr enc E xs True w) (cont disc))
         | _ \<Rightarrow> encode_member G enc tag disc vf cont)
      else encode_member G enc tag disc vf cont)"
    by (rule ext) (simp add: encode_field_def split: rvalue.split)
  have "P (encode_member G enc tag disc vf cont)"
    using enc cont by (rule P_member)
  moreover have "P (\<lambda>w. seqE (encodeArray wr enc E xs True w) (cont disc))" if "vf = RSlice E xs sp" for E xs sp
    using that by (intro P_seq P_arrays cont) (simp add: sub vdepth_children del: vdepth.simps)
  moreover have "P (\<lambda>w. seqE (encodeFixedArray wr enc E xs True w) (cont disc))" if "vf = RArray E xs" for E xs
    using that by (intro P_seq P_arrays cont) (simp add: sub vdepth_children del: vdepth.simps)
  ultimately show ?thesis by (auto simp: E split: rvalue.split)
qed

lemma P_fields:
  assumes "\<And>fv x. fv \<in> set fs \<Longrightarrow> vdepth x \<le> vdepth (snd fv) \<Longrightarrow> P (enc x)"
  shows "P (encode_fields G wr enc disc fs)"
  using assms
proof (induction fs arbitrary: disc)
  case Nil
  have "encode_fields G wr enc disc [] = doneE" by (rule ext) simp
  then show ?case using P_done by simp
next
  case (Cons fv fs)
  obtain fi vf where fv: "fv = (fi, vf)" by (cases fv)
  define tag where "tag = parseTag (ftag fi)"
  define cont where "cont = (\<lambda>disc. encode_fields G wr enc disc fs)"
  have cont: "P (cont disc)" for disc
    unfolding cont_def by (rule Cons.IH) (rule Cons.prems, auto)
  have small: "P (enc x)" if "vdepth x \<le> vdepth vf" for x
    using Cons.prems [of fv x] that fv by simp
  have field: "P (encode_field G wr enc tag disc (indirect vf) cont)" for disc
    using small cont vdepth_indirect [of vf] by (intro P_field) auto
  have E: "encode_fields G wr enc disc (fv # fs) =
     (if \<not> exported fi then cont disc
      else if tag_Get tag ''optional'' = ''true'' then
           (case vf of
              RPtr T p \<Rightarrow> (\<lambda>w. seqE (EncodeBool wr (p \<noteq> None) w)
                  (\<lambda>w. if p = None then cont disc w
                       else encode_field G wr enc tag disc (indirect vf) cont w))
            | _ \<Rightarrow> failE (marshalError ''encodeStruct'' ErrBadOptional NoValue None))
         else encode_field G wr enc tag disc (indirect vf) cont)"
    unfolding fv tag_def cont_def by (rule ext) (simp add: Let_def split: rvalue.split)
  show ?case
    using field cont by (auto simp: E P_fail intro!: P_seq P_prims P_if split: rvalue.split)
qed

lemma P_kind:
  assumes sub: "\<And>x. vdepth x < vdepth v \<Longrightarrow> P (enc x)"
  shows "P (encode_kind G wr enc v)"
proof (cases v)
  case (RStruct fs)
  have "P (encode_fields G wr enc '''' fs)"
    using vdepth_children(4) [of _ fs] by (intro P_fields sub) (force simp: RStruct simp del: vdepth.simps)
  then show ?thesis by (simp add: RStruct encode_kind_def [abs_def] encodeStruct_def)
next
  case (RMap K V kvs)
  have "P (encodeMap wr enc kvs)"
    unfolding encodeMap_def [abs_def] using vdepth_children(3) [of _ kvs K V]
    by (intro P_seq P_prims P_pairs) (simp add: RMap sub del: vdepth.simps)
  then show ?thesis by (simp add: RMap encode_kind_def [abs_def])
next
  case (RIface p)
  have "P (encodeInterface enc p)"
  proof (cases p)
    case None
    then show ?thesis by (simp add: encodeInterface_def [abs_def] P_fail)
  next
    case (Some u)
    then have "P (enc (indirect u))"
      using vdepth_indirect [of u] by (intro sub) (simp add: RIface less_Suc_eq_le)
    with Some show ?thesis by (simp add: encodeInterface_def [abs_def])
  qed
  then show ?thesis by (simp add: RIface encode_kind_def [abs_def])
next
  case (RArray E xs)
  then show ?thesis
    using P_arrays(1) [of xs enc E False] sub vdepth_children(1)
    by (simp add: encode_kind_def [abs_def] del: vdepth.simps)
next
  case (RSlice E xs sp)
  then show ?thesis
    using P_arrays(2) [of xs enc E False] sub vdepth_children(2)
    by (simp add: encode_kind_def [abs_def] del: vdepth.simps)
next
  case (RInt k x)
  then show ?thesis by (cases "k = Int64") (simp_all add: encode_kind_def [abs_def] P_prims)
next
  case (RUint k x)
  then show ?thesis by (cases "k = Uint64") (simp_all add: encode_kind_def [abs_def] P_prims)
qed (auto simp: encode_kind_def [abs_def] P_panic P_fail P_opaques P_prims)

theorem P_encode: "vdepth v \<le> d \<Longrightarrow> P (encode G wr d v)"
proof (induction d arbitrary: v)
  case 0
  then show ?case using vdepth_pos [of v] by simp
next
  case (Suc d)
  have E: "encode G wr (Suc d) v =
    (if v = RInvalid then failE (marshalError ''encode'' ErrUnsupportedType NoValue None)
     else encode_kind G wr (encode G wr d) (indirect v))"
    by (rule ext) simp
  have "P (encode G wr d x)" if "vdepth x < vdepth (indirect v)" for x
    using that Suc vdepth_indirect [of v] by auto
  then have "P (encode_kind G wr (encode G wr d) (indirect v))" by (rule P_kind)
  then show ?case by (simp only: E) (simp add: P_fail)
qed

theorem P_Marshal: "P (\<lambda>w. Marshal G wr w p)"
proof (cases p)
  case None
  then show ?thesis by (simp add: Marshal_def Encode_def P_fail)
next
  case (Some v)
  then have "(\<lambda>w. Marshal G wr w p) =
    (if nil_below v then failE (marshalError ''Marshal'' ErrBadArguments NoValue None)
     else encode G wr (vdepth v) (indirect v))"
    by (intro ext) (simp add: Marshal_def Encode_def)
  moreover have "P (encode G wr (vdepth v) (indirect v))"
    by (rule P_encode) (rule vdepth_indirect)
  ultimately show ?thesis by (simp add: P_fail)
qed

end

section \<open>The byte count\<close>

text \<open>The documented contract of \<^verbatim>\<open>io.Writer\<close>: at most the bytes given are written, the count is
  theirs, and a short write comes with an error.  \<open>written\<close> is what the writer has received.\<close>

locale io_writer =
  fixes wr :: "'w writer"
    and written :: "'w \<Rightarrow> bytes"
  assumes write_contract:
    "wr b w = (n, err, w') \<Longrightarrow>
       n \<le> length b \<and> written w' = written w @ take n b \<and> (err = None \<longrightarrow> n = length b)"
begin

definition counted :: "('w \<Rightarrow> 'w eres go) \<Rightarrow> bool" where
  "counted f \<longleftrightarrow> (\<forall>w n err w'. f w = Inr (n, err, w') \<longrightarrow>
     (\<exists>b. written w' = written w @ b \<and> length b = n \<and> (err = None \<longrightarrow> 4 dvd n)))"

lemma writeE_written:
  "writeE wr b mk w = Inr (n, err, w') \<Longrightarrow>
     \<exists>b'. written w' = written w @ b' \<and> length b' = n \<and> (err = None \<longrightarrow> n = length b)"
  using write_contract [of b w] by (auto simp: writeE_def split: prod.splits)

lemma counted_seq:
  assumes "counted f" and "counted g"
  shows "counted (\<lambda>w. seqE (f w) g)"
  unfolding counted_def
proof (intro allI impI)
  fix w n err w'
  assume "seqE (f w) g = Inr (n, err, w')"
  then consider e where "f w = Inr (n, Some e, w')" "err = Some e"
    | n1 w1 n2 where "f w = Inr (n1, None, w1)" "g w1 = Inr (n2, err, w')" "n = n1 + n2"
    by (auto simp: seqE_Inr)
  then show "\<exists>b. written w' = written w @ b \<and> length b = n \<and> (err = None \<longrightarrow> 4 dvd n)"
  proof cases
    case 1
    with assms(1) show ?thesis unfolding counted_def by blast
  next
    case 2
    with assms obtain b1 b2 where "written w1 = written w @ b1" "length b1 = n1" "4 dvd n1"
      "written w' = written w1 @ b2" "length b2 = n2" "err = None \<longrightarrow> 4 dvd n2"
      unfolding counted_def by blast
    with 2 show ?thesis by (intro exI [of _ "b1 @ b2"]) simp
  qed
qed

lemma counted_opaque: "counted (EncodeFixedOpaque wr b)"
  unfolding counted_def
proof (intro allI impI)
  fix w n err w'
  define pad where "pad = (4 - length b mod 4) mod 4"
  define rest where "rest = (\<lambda>w. if pad > 0 then
                (let b' = replicate pad 0 in
                 writeE wr b' (\<lambda>n2 err. marshalError ''EncodeFixedOpaque'' ErrIO
                                (BytesValue (b @ take n2 b')) (Some err)) w)
              else doneE w)"
  have rest: "\<exists>b2. written w2 = written w1 @ b2 \<and> length b2 = n2 \<and> (err = None \<longrightarrow> n2 = pad)"
    if "rest w1 = Inr (n2, err, w2)" for w1 n2 w2
    using that by (auto simp: rest_def doneE_def Let_def split: if_splits dest!: writeE_written)
  assume "EncodeFixedOpaque wr b w = Inr (n, err, w')"
  then have "seqE (write_all wr ''EncodeFixedOpaque'' b w) rest = Inr (n, err, w')"
    unfolding EncodeFixedOpaque_def Let_def pad_def rest_def .
  then consider e where "write_all wr ''EncodeFixedOpaque'' b w = Inr (n, Some e, w')" "err = Some e"
    | n1 w1 n2 where "write_all wr ''EncodeFixedOpaque'' b w = Inr (n1, None, w1)" "n = n1 + n2"
        "rest w1 = Inr (n2, err, w')"
    unfolding seqE_Inr by blast
  then show "\<exists>b. written w' = written w @ b \<and> length b = n \<and> (err = None \<longrightarrow> 4 dvd n)"
  proof cases
    case 1
    then show ?thesis unfolding write_all_def by (auto dest!: writeE_written)
  next
    case 2
    from 2(1) obtain b1 where b1: "written w1 = written w @ b1" "length b1 = n1" "n1 = length b"
      unfolding write_all_def by (auto dest!: writeE_written)
    from rest [OF 2(3)] obtain b2 where b2: "written w' = written w1 @ b2" "length b2 = n2" "err = None \<longrightarrow> n2 = pad"
      by blast
    have "4 dvd length b + pad"
      unfolding pad_def by (rule pad4_dvd)
    with b1 b2 2(2) show ?thesis by (intro exI [of _ "b1 @ b2"]) auto
  qed
qed

sublocale count: encoder_property wr counted
proof unfold_locales
  show "counted (write_all wr fname b)" if "length b = 4 \<or> length b = 8" for b fname
    using that unfolding counted_def write_all_def by (auto dest!: writeE_written)
  show "counted (EncodeFixedOpaque wr b)" for b by (rule counted_opaque)
  show "counted (\<lambda>w. seqE (f w) g)" if "counted f" "counted g" for f g
    using that by (rule counted_seq)
qed (simp_all add: counted_def doneE_def failE_def)

lemma Marshal_counted:
  "Marshal G wr w p = Inr (n, err, w') \<Longrightarrow>
     \<exists>b. written w' = written w @ b \<and> length b = n \<and> (err = None \<longrightarrow> 4 dvd n)"
  using count.P_Marshal [of G p] unfolding counted_def by blast

end

text \<open>\<^verbatim>\<open>bytes.Buffer\<close> keeps the contract.\<close>

interpretation buf: io_writer buffer_write "\<lambda>w. w"
  by unfold_locales (auto simp: buffer_write_def)

text \<open>For every writer that keeps the contract of \<^verbatim>\<open>io.Writer\<close>, also one that fails half-way, the
  count \<^verbatim>\<open>Marshal\<close> returns is the number of bytes the writer has received, and when there is no error
  it is a multiple of four.\<close>

lemma Marshal_count:
  assumes "io_writer wr written" and "Marshal G wr w p = Inr (n, err, w')"
  shows "\<exists>b. written w' = written w @ b \<and> length b = n \<and> (err = None \<longrightarrow> 4 dvd n)"
  using assms(2) by (rule io_writer.Marshal_counted [OF assms(1)])

text \<open>A writer with room for \<open>k\<close> more bytes, which fails when it is full.\<close>

definition bounded_write :: "(nat \<times> bytes) writer" where
  "bounded_write p s =
     (case s of (k, w) \<Rightarrow>
        (min k (length p), (if length p \<le> k then None else Some (OtherIO ''full'')), (k - length p, w @ take k p)))"

lemma bounded_writer: "io_writer bounded_write snd"
  by unfold_locales (auto simp: bounded_write_def min_def split: prod.splits if_splits)

lemma Marshal_count_full_writer:
  "\<exists>G n err w'. Marshal G bounded_write (6, []) (Some (RSlice (TInt Int32) [RInt Int32 1, RInt Int32 2] [])) = Inr (n, err, w') \<and>
     err \<noteq> None \<and> n = 6 \<and> snd w' = [0, 0, 0, 2, 0, 0]"
proof -
  fix G
  obtain n err w' where
    m: "Marshal G bounded_write (6, []) (Some (RSlice (TInt Int32) [RInt Int32 1, RInt Int32 2] [])) = Inr (n, err, w')"
    and r: "err \<noteq> None" "snd w' = [0, 0, 0, 2, 0, 0]"
    by (simp add: Marshal_def Encode_def encode_kind_def encodeArray_def encodeFixedArray_def maxl_def
        EncodeUint_def EncodeInt_def write_all_def writeE_def bounded_write_def seqE_def)
  from Marshal_count [OF bounded_writer m] r have "n = 6" by auto
  with m r show ?thesis by blast
qed

section \<open>Termination\<close>

definition returns :: "('w \<Rightarrow> 'w eres go) \<Rightarrow> bool" where
  "returns f \<longleftrightarrow> (\<forall>w. f w \<noteq> Inl Diverge \<and> f w \<noteq> Inl Fatal)"

lemma returns_write: "returns (write_all wr fname b)" "returns (writeE wr b mk)"
  by (simp_all add: returns_def write_all_def writeE_def split: prod.split)

lemma returns_seq: "returns f \<Longrightarrow> returns g \<Longrightarrow> returns (\<lambda>w. seqE (f w) g)"
  by (auto simp: returns_def seqE_def bindG_def split: sum.split option.split)

lemma returns_done: "returns doneE" "returns (failE e)"
  by (simp_all add: returns_def doneE_def failE_def)

interpretation ret: encoder_property wr returns for wr :: "'w writer"
proof unfold_locales
  show "returns (EncodeFixedOpaque wr b)" for b :: bytes
  proof -
    have "EncodeFixedOpaque wr b = (\<lambda>w. seqE (write_all wr ''EncodeFixedOpaque'' b w)
       (if 0 < (4 - length b mod 4) mod 4
        then writeE wr (replicate ((4 - length b mod 4) mod 4) 0) (\<lambda>n2 err.
           marshalError ''EncodeFixedOpaque'' ErrIO (BytesValue (b @ take n2 (replicate ((4 - length b mod 4) mod 4) 0))) (Some err))
        else doneE))"
      by (rule ext) (simp add: EncodeFixedOpaque_def Let_def)
    then show ?thesis by (simp only:) (intro returns_seq returns_write, simp add: returns_write returns_done)
  qed
  show "returns (\<lambda>w. seqE (f w) g)" if "returns f" "returns g" for f g :: "'w \<Rightarrow> 'w eres go"
    using that by (rule returns_seq)
qed (simp_all add: returns_write returns_done returns_def [of "\<lambda>w. Inl Panic"])

text \<open>\<^verbatim>\<open>Marshal\<close> ends on every value of the model and every writer: the recursion depth given to it (the depth of the
  value) is always enough, and the one way not to return is the panic on an invalid value inside.  Values of the model are
  finite; on cyclic data the source warns that it does not end, and no type of the program is cyclic.\<close>

lemma Marshal_returns: "Marshal G wr w p \<noteq> Inl Diverge \<and> Marshal G wr w p \<noteq> Inl Fatal"
  using ret.P_Marshal [of G wr p] by (simp add: returns_def)

lemma encode_more_depth: "vdepth v \<le> d \<Longrightarrow> encode G wr d v w \<noteq> Inl Diverge"
  using ret.P_encode [of v d G wr] by (simp add: returns_def)

end
