(* ===== verification/Xdr_Decode.thy ===== *)
theory Xdr_Decode
  imports Xdr_Encode
begin

text \<open>
  \<^verbatim>\<open>xdr/decode.go\<close>: every method of \<^verbatim>\<open>Decoder\<close>.  The reader is the one the program uses, a
  \<^verbatim>\<open>bytes.Reader\<close>: its state is the list of the bytes still to read.  A method gets the value it
  decodes into and returns that value updated (also when it fails, as the code has then written
  part of it), the number of bytes read, the error and the bytes left.  \<open>cs\<close> is \<^verbatim>\<open>v.CanSet()\<close>
  and \<open>lim\<close> is \<^verbatim>\<open>d.maxReadSize\<close>.
\<close>

type_synonym 'a dres = "'a \<times> nat \<times> goerror option \<times> bytes"

section \<open>Primitives\<close>

text \<open>\<^verbatim>\<open>io.ReadFull\<close> into a buffer of \<open>k\<close> bytes, and what the method makes of it.\<close>

definition readD :: "string \<Rightarrow> nat \<Rightarrow> 'a \<Rightarrow> (bytes \<Rightarrow> 'a) \<Rightarrow> bytes \<Rightarrow> 'a dres" where
  "readD fname k dflt conv bs =
     (case ReadFull k bs of (buf, n, err, rest) \<Rightarrow>
        (case err of
           Some e \<Rightarrow> (dflt, n, Some (unmarshalError fname ErrIO (BytesValue buf) (Some e)), rest)
         | None \<Rightarrow> (conv buf, n, None, rest)))"

definition DecodeInt :: "bytes \<Rightarrow> (32 word) dres" where
  "DecodeInt = readD ''DecodeInt'' 4 0 of_be32"

definition DecodeUint :: "bytes \<Rightarrow> u32 dres" where
  "DecodeUint = readD ''DecodeUint'' 4 0 of_be32"

definition DecodeEnum :: "(32 word \<Rightarrow> bool) \<Rightarrow> bytes \<Rightarrow> (32 word) dres" where
  "DecodeEnum validEnums bs =
     (case DecodeInt bs of (val, n, err, rest) \<Rightarrow>
        (case err of
           Some e \<Rightarrow> (0, n, Some e, rest)
         | None \<Rightarrow>
             if \<not> validEnums val
             then (0, n, Some (unmarshalError ''DecodeEnum'' ErrBadEnumValue (IntValue val) None), rest)
             else (val, n, None, rest)))"

definition DecodeBool :: "bytes \<Rightarrow> bool dres" where
  "DecodeBool bs =
     (case DecodeInt bs of (val, n, err, rest) \<Rightarrow>
        (case err of
           Some e \<Rightarrow> (False, n, Some e, rest)
         | None \<Rightarrow>
             if val = 0 then (False, n, None, rest)
             else if val = 1 then (True, n, None, rest)
             else (False, n, Some (unmarshalError ''DecodeBool'' ErrBadEnumValue (IntValue val) None), rest)))"

definition DecodeHyper :: "bytes \<Rightarrow> (64 word) dres" where
  "DecodeHyper = readD ''DecodeHyper'' 8 0 of_be64"

definition DecodeUhyper :: "bytes \<Rightarrow> u64 dres" where
  "DecodeUhyper = readD ''DecodeUhyper'' 8 0 of_be64"

definition DecodeFloat :: "bytes \<Rightarrow> u32 dres" where
  "DecodeFloat = readD ''DecodeFloat'' 4 0 of_be32"

definition DecodeDouble :: "bytes \<Rightarrow> u64 dres" where
  "DecodeDouble = readD ''DecodeDouble'' 8 0 of_be64"

definition MaxInt32 :: nat where
  "MaxInt32 = 2147483647"

text \<open>
  The size is an \<^verbatim>\<open>int32\<close>: the padded size wraps around, and \<^verbatim>\<open>uint(paddedSize)\<close> of a negative
  number is beyond \<^verbatim>\<open>MaxInt32\<close>.  For sizes -1, -2, -3 the padded size is 0 and \<^verbatim>\<open>buf[0:size]\<close>
  panics.
\<close>

definition DecodeFixedOpaque :: "32 word \<Rightarrow> bytes \<Rightarrow> bytes dres go" where
  "DecodeFixedOpaque sz bs =
     (if sz = 0 then Inr ([], 0, None, bs)
      else
        let pad = (4 - sint sz smod 4) smod 4;
            paddedSize = sz + word_of_int pad in
        if unat (scast paddedSize :: u64) > MaxInt32 then
          Inr ([], 0, Some (unmarshalError ''DecodeFixedOpaque'' ErrOverflow (IntValue paddedSize) None), bs)
        else
          (case ReadFull (unat paddedSize) bs of (buf, n, err, rest) \<Rightarrow>
             (case err of
                Some e \<Rightarrow> Inr ([], n, Some (unmarshalError ''DecodeFixedOpaque'' ErrIO (BytesValue buf) (Some e)), rest)
              | None \<Rightarrow> if sint sz < 0 then Inl Panic else Inr (take (unat sz) buf, n, None, rest))))"

definition too_long :: "nat \<Rightarrow> u32 \<Rightarrow> bool" where
  "too_long lim dataLen \<longleftrightarrow> unat dataLen > MaxInt32 \<or> lim \<noteq> 0 \<and> unat dataLen > lim"

text \<open>A length, its check and the data: \<^verbatim>\<open>DecodeOpaque\<close> and \<^verbatim>\<open>DecodeString\<close>.\<close>

definition DecodeOpaque :: "nat \<Rightarrow> bytes \<Rightarrow> bytes dres go" where
  "DecodeOpaque lim bs =
     (case DecodeUint bs of (dataLen, n, err, bs1) \<Rightarrow>
        (case err of
           Some e \<Rightarrow> Inr ([], n, Some e, bs1)
         | None \<Rightarrow>
             if too_long lim dataLen
             then Inr ([], n, Some (unmarshalError ''DecodeOpaque'' ErrOverflow (UintValue dataLen) None), bs1)
             else bindG (DecodeFixedOpaque dataLen bs1) (\<lambda>(rv, n2, err2, bs2).
               (case err2 of Some e \<Rightarrow> Inr ([], n + n2, Some e, bs2) | None \<Rightarrow> Inr (rv, n + n2, None, bs2)))))"

definition DecodeString :: "nat \<Rightarrow> bytes \<Rightarrow> string dres go" where
  "DecodeString lim bs =
     (case DecodeUint bs of (dataLen, n, err, bs1) \<Rightarrow>
        (case err of
           Some e \<Rightarrow> Inr ('''', n, Some e, bs1)
         | None \<Rightarrow>
             if too_long lim dataLen
             then Inr ('''', n, Some (unmarshalError ''DecodeString'' ErrOverflow (UintValue dataLen) None), bs1)
             else bindG (DecodeFixedOpaque dataLen bs1) (\<lambda>(opaque, n2, err2, bs2).
               (case err2 of Some e \<Rightarrow> Inr ('''', n + n2, Some e, bs2)
                | None \<Rightarrow> Inr (bytes_string opaque, n + n2, None, bs2)))))"

section \<open>Reflection\<close>

text \<open>
  \<^verbatim>\<open>d.indirect\<close>: follow pointers, allocating nil ones.  The result is the chain of pointer types
  followed, the value at its end and whether it can be set; \<open>wrapP\<close> puts the pointers back.
\<close>

fun wrapP :: "gotype list \<Rightarrow> rvalue \<Rightarrow> rvalue" where
  "wrapP [] v = v"
| "wrapP (T # Ts) v = RPtr T (Some (wrapP Ts v))"

fun dindirect :: "genv \<Rightarrow> nat \<Rightarrow> bool \<Rightarrow> rvalue \<Rightarrow> (gotype list \<times> bool \<times> rvalue \<times> goerror option) go" where
  "dindirect G d cs v =
     (case v of
        RPtr T p \<Rightarrow>
          if p = None \<and> \<not> cs then Inr ([], cs, v, Some (unmarshalError ''indirect'' ErrNotSettable NoValue None))
          else
            (case d of
               0 \<Rightarrow> Inl Diverge
             | Suc d' \<Rightarrow>
                 bindG (dindirect G d' True (case p of None \<Rightarrow> newval G T | Some u \<Rightarrow> u))
                   (\<lambda>(Ts, cs', u, err). Inr (T # Ts, cs', u, err)))
      | _ \<Rightarrow> Inr ([], cs, v, None))"

declare dindirect.simps [simp del]

type_synonym decoder = "bool \<Rightarrow> rvalue \<Rightarrow> bytes \<Rightarrow> rvalue dres go"

fun decode_elems :: "(rvalue \<Rightarrow> bytes \<Rightarrow> rvalue dres go) \<Rightarrow> rvalue list \<Rightarrow> bytes \<Rightarrow> (rvalue list) dres go" where
  "decode_elems dec [] bs = Inr ([], 0, None, bs)"
| "decode_elems dec (x # xs) bs =
     bindG (dec x bs) (\<lambda>(x', n, err, bs1).
       (case err of
          Some e \<Rightarrow> Inr (x' # xs, n, Some e, bs1)
        | None \<Rightarrow> bindG (decode_elems dec xs bs1) (\<lambda>(xs', n2, err2, bs2). Inr (x' # xs', n + n2, err2, bs2))))"

definition decodeFixedArray ::
  "decoder \<Rightarrow> bool \<Rightarrow> gotype \<Rightarrow> rvalue list \<Rightarrow> bool \<Rightarrow> bytes \<Rightarrow> (rvalue list) dres go" where
  "decodeFixedArray dec cs E xs ignoreOpaque bs =
     (if \<not> ignoreOpaque \<and> E = TUint Uint8 then
        bindG (DecodeFixedOpaque (of_nat (length xs)) bs) (\<lambda>(data, n, err, bs1).
          (case err of
             Some e \<Rightarrow> Inr (xs, n, Some e, bs1)
           | None \<Rightarrow> Inr (take (length xs) (map rbyte data) @ drop (length data) xs, n, None, bs1)))
      else decode_elems (dec cs) xs bs)"

text \<open>\<^verbatim>\<open>MakeSlice\<close> when the capacity is too small, \<^verbatim>\<open>SetLen\<close> when only the length is.\<close>

definition resize :: "genv \<Rightarrow> gotype \<Rightarrow> nat \<Rightarrow> rvalue list \<Rightarrow> rvalue list \<Rightarrow> rvalue list \<times> rvalue list" where
  "resize G E sliceLen xs sp =
     (if length xs + length sp < sliceLen then (replicate sliceLen (newval G E), [])
      else if length xs < sliceLen then (take sliceLen (xs @ sp), drop sliceLen (xs @ sp))
      else (xs, sp))"

definition decodeArray ::
  "genv \<Rightarrow> nat \<Rightarrow> decoder \<Rightarrow> gotype \<Rightarrow> rvalue list \<Rightarrow> rvalue list \<Rightarrow> bool \<Rightarrow> bytes \<Rightarrow>
   (rvalue list \<times> rvalue list) dres go" where
  "decodeArray G lim dec E xs sp ignoreOpaque bs =
     (case DecodeUint bs of (dataLen, n, err, bs1) \<Rightarrow>
        (case err of
           Some e \<Rightarrow> Inr ((xs, sp), n, Some e, bs1)
         | None \<Rightarrow>
             if too_long lim dataLen
             then Inr ((xs, sp), n, Some (unmarshalError ''decodeArray'' ErrOverflow (UintValue dataLen) None), bs1)
             else
               let sliceLen = unat dataLen;
                   (ys, sp') = resize G E sliceLen xs sp in
               if \<not> ignoreOpaque \<and> E = TUint Uint8 then
                 bindG (DecodeFixedOpaque (of_nat sliceLen) bs1) (\<lambda>(data, n2, err2, bs2).
                   (case err2 of
                      Some e \<Rightarrow> Inr ((ys, sp'), n + n2, Some e, bs2)
                    | None \<Rightarrow> Inr ((map rbyte data, []), n + n2, None, bs2)))
               else
                 bindG (decode_elems (dec True) (take sliceLen ys) bs1) (\<lambda>(zs, n2, err2, bs2).
                   Inr ((zs @ drop sliceLen ys, sp'), n + n2, err2, bs2))))"

text \<open>
  One field of \<^verbatim>\<open>decodeStruct\<close>, after the optional-data flag: the field, the bytes read, the
  error, the bytes left and the discriminant for the next fields.  The discriminant is taken
  after the field has been decoded.
\<close>

definition decode_member ::
  "genv \<Rightarrow> decoder \<Rightarrow> bool \<Rightarrow> xdrtag \<Rightarrow> string \<Rightarrow> rvalue \<Rightarrow> bytes \<Rightarrow>
   (rvalue \<times> nat \<times> goerror option \<times> bytes \<times> string) go" where
  "decode_member G dec cs tag disc u bs =
     (if skip_case tag disc then Inr (u, 0, None, bs, disc)
      else bindG (dec cs u bs) (\<lambda>(u', n, err, bs1).
        (case err of
           Some e \<Rightarrow> Inr (u', n, Some e, bs1, disc)
         | None \<Rightarrow>
             if tag_Get tag ''union'' = ''true'' then
               bindG (discriminant G u') (\<lambda>d. case d of
                 None \<Rightarrow> Inr (u', n, Some (unmarshalError ''decodeStruct'' ErrBadDiscriminant NoValue None), bs1, disc)
               | Some disc' \<Rightarrow> Inr (u', n, None, bs1, disc'))
             else Inr (u', n, None, bs1, disc))))"

definition decode_field ::
  "genv \<Rightarrow> nat \<Rightarrow> decoder \<Rightarrow> nat \<Rightarrow> bool \<Rightarrow> xdrtag \<Rightarrow> string \<Rightarrow> rvalue \<Rightarrow> bytes \<Rightarrow>
   (rvalue \<times> nat \<times> goerror option \<times> bytes \<times> string) go" where
  "decode_field G lim dec d cs tag disc vf bs =
     bindG (dindirect G d cs vf) (\<lambda>(Ts, cs', u, err).
       (case err of
          Some e \<Rightarrow> Inr (wrapP Ts u, 0, Some e, bs, disc)
        | None \<Rightarrow>
            if \<not> cs' then
              Inr (wrapP Ts u, 0, Some (unmarshalError ''decodeStruct'' ErrNotSettable NoValue None), bs, disc)
            else
              bindG (if tag_Get tag ''opaque'' = ''false'' then
                       (case u of
                          RSlice E xs sp \<Rightarrow>
                            bindG (decodeArray G lim dec E xs sp True bs)
                              (\<lambda>((ys, sp'), n, err, bs1). Inr (RSlice E ys sp', n, err, bs1, disc))
                        | RArray E xs \<Rightarrow>
                            bindG (decodeFixedArray dec cs' E xs True bs)
                              (\<lambda>(ys, n, err, bs1). Inr (RArray E ys, n, err, bs1, disc))
                        | _ \<Rightarrow> decode_member G dec cs' tag disc u bs)
                     else decode_member G dec cs' tag disc u bs)
                (\<lambda>(u', n, err, bs1, disc'). Inr (wrapP Ts u', n, err, bs1, disc'))))"

fun decode_fields ::
  "genv \<Rightarrow> nat \<Rightarrow> decoder \<Rightarrow> nat \<Rightarrow> bool \<Rightarrow> string \<Rightarrow> (fieldinfo \<times> rvalue) list \<Rightarrow> bytes \<Rightarrow>
   ((fieldinfo \<times> rvalue) list) dres go" where
  "decode_fields G lim dec d cs disc [] bs = Inr ([], 0, None, bs)"
| "decode_fields G lim dec d cs disc ((fi, vf) # fs) bs =
     (if \<not> exported fi then
        bindG (decode_fields G lim dec d cs disc fs bs) (\<lambda>(fs', n, err, bs1). Inr ((fi, vf) # fs', n, err, bs1))
      else
        let tag = parseTag (ftag fi);
            step = (\<lambda>n0 bs. bindG (decode_field G lim dec d cs tag disc vf bs) (\<lambda>(vf', n, err, bs1, disc').
              (case err of
                 Some e \<Rightarrow> Inr ((fi, vf') # fs, n0 + n, Some e, bs1)
               | None \<Rightarrow> bindG (decode_fields G lim dec d cs disc' fs bs1)
                   (\<lambda>(fs', n2, err2, bs2). Inr ((fi, vf') # fs', n0 + n + n2, err2, bs2))))) in
        if tag_Get tag ''optional'' = ''true'' then
          (case vf of
             RPtr T p \<Rightarrow>
               (case DecodeBool bs of (hasopt, n0, err, bs0) \<Rightarrow>
                  (case err of
                     Some e \<Rightarrow> Inr ((fi, vf) # fs, n0, Some e, bs0)
                   | None \<Rightarrow>
                       if \<not> hasopt then
                         bindG (decode_fields G lim dec d cs disc fs bs0)
                           (\<lambda>(fs', n2, err2, bs2). Inr ((fi, vf) # fs', n0 + n2, err2, bs2))
                       else step n0 bs0))
           | _ \<Rightarrow> Inr ((fi, vf) # fs, 0, Some (unmarshalError ''decodeStruct'' ErrBadOptional NoValue None), bs))
        else step 0 bs)"

definition decodeStruct ::
  "genv \<Rightarrow> nat \<Rightarrow> decoder \<Rightarrow> nat \<Rightarrow> bool \<Rightarrow> (fieldinfo \<times> rvalue) list \<Rightarrow> bytes \<Rightarrow> ((fieldinfo \<times> rvalue) list) dres go" where
  "decodeStruct G lim dec d cs fs bs = decode_fields G lim dec d cs '''' fs bs"

text \<open>\<^verbatim>\<open>v.SetMapIndex(key, val)\<close>.\<close>

fun SetMapIndex :: "(rvalue \<times> rvalue) list \<Rightarrow> rvalue \<Rightarrow> rvalue \<Rightarrow> (rvalue \<times> rvalue) list" where
  "SetMapIndex [] k v = [(k, v)]"
| "SetMapIndex (kv # kvs) k v = (if fst kv = k then (k, v) # kvs else kv # SetMapIndex kvs k v)"

fun decode_pairs ::
  "genv \<Rightarrow> decoder \<Rightarrow> gotype \<Rightarrow> gotype \<Rightarrow> nat \<Rightarrow> (rvalue \<times> rvalue) list \<Rightarrow> bytes \<Rightarrow> ((rvalue \<times> rvalue) list) dres go" where
  "decode_pairs G dec K V 0 kvs bs = Inr (kvs, 0, None, bs)"
| "decode_pairs G dec K V (Suc i) kvs bs =
     bindG (dec True (newval G K) bs) (\<lambda>(key, n, err, bs1).
       (case err of
          Some e \<Rightarrow> Inr (kvs, n, Some e, bs1)
        | None \<Rightarrow> bindG (dec True (newval G V) bs1) (\<lambda>(val, n2, err2, bs2).
            (case err2 of
               Some e \<Rightarrow> Inr (kvs, n + n2, Some e, bs2)
             | None \<Rightarrow> bindG (decode_pairs G dec K V i (SetMapIndex kvs key val) bs2)
                 (\<lambda>(kvs', n3, err3, bs3). Inr (kvs', n + n2 + n3, err3, bs3))))))"

definition decodeMap ::
  "genv \<Rightarrow> decoder \<Rightarrow> gotype \<Rightarrow> gotype \<Rightarrow> (rvalue \<times> rvalue) list \<Rightarrow> bytes \<Rightarrow> ((rvalue \<times> rvalue) list) dres go" where
  "decodeMap G dec K V kvs bs =
     (case DecodeUint bs of (dataLen, n, err, bs1) \<Rightarrow>
        (case err of
           Some e \<Rightarrow> Inr (kvs, n, Some e, bs1)
         | None \<Rightarrow> bindG (decode_pairs G dec K V (unat dataLen) kvs bs1)
             (\<lambda>(kvs', n2, err2, bs2). Inr (kvs', n + n2, err2, bs2))))"

text \<open>The value inside the interface is not settable itself; what it points to is.\<close>

definition decodeInterface ::
  "genv \<Rightarrow> decoder \<Rightarrow> nat \<Rightarrow> rvalue option \<Rightarrow> bytes \<Rightarrow> (rvalue option) dres go" where
  "decodeInterface G dec d p bs =
     (case p of
        None \<Rightarrow> Inr (None, 0, Some (unmarshalError ''decodeInterface'' ErrNilInterface NoValue None), bs)
      | Some v \<Rightarrow>
          bindG (dindirect G d False v) (\<lambda>(Ts, cs, u, err).
            (case err of
               Some e \<Rightarrow> Inr (Some (wrapP Ts u), 0, Some e, bs)
             | None \<Rightarrow>
                 if \<not> cs then
                   Inr (Some (wrapP Ts u), 0, Some (unmarshalError ''decodeInterface'' ErrNotSettable NoValue None), bs)
                 else bindG (dec cs u bs) (\<lambda>(u', n, err, bs1). Inr (Some (wrapP Ts u'), n, err, bs1)))))"

text \<open>The dispatch of \<^verbatim>\<open>d.decode\<close> on the kind, and the recursion.\<close>

definition setD :: "('a \<Rightarrow> rvalue) \<Rightarrow> 'a dres go \<Rightarrow> rvalue dres go" where
  "setD c m = bindG m (\<lambda>(x, n, err, bs). Inr (c x, n, err, bs))"

text \<open>A scalar is stored only when it was decoded.\<close>

definition storeD :: "rvalue \<Rightarrow> ('a \<Rightarrow> rvalue) \<Rightarrow> 'a dres \<Rightarrow> rvalue dres go" where
  "storeD v c r = (case r of (x, n, err, bs) \<Rightarrow> Inr (if err = None then c x else v, n, err, bs))"

definition decode_kind ::
  "genv \<Rightarrow> nat \<Rightarrow> decoder \<Rightarrow> nat \<Rightarrow> bool \<Rightarrow> rvalue \<Rightarrow> bytes \<Rightarrow> rvalue dres go" where
  "decode_kind G lim dec d cs ve bs =
     (case ve of
        RTime t \<Rightarrow>
          bindG (DecodeString lim bs) (\<lambda>(s, n, err, bs1).
            (case err of
               Some e \<Rightarrow> Inr (ve, n, Some e, bs1)
             | None \<Rightarrow>
                 (case time_Parse G s of
                    None \<Rightarrow> Inr (ve, n, Some (unmarshalError ''decode'' ErrParseTime (StringValue s) None), bs1)
                  | Some tv \<Rightarrow> Inr (RTime tv, n, None, bs1))))
      | RInt k x \<Rightarrow>
          if k = Int64 then storeD ve (RInt k) (DecodeHyper bs)
          else
            (case DecodeInt bs of (i, n, err, bs1) \<Rightarrow>
               (case err of
                  Some e \<Rightarrow> Inr (ve, n, Some e, bs1)
                | None \<Rightarrow>
                    if OverflowInt k (scast i)
                    then Inr (ve, n, Some (unmarshalError ''decode'' ErrOverflow (IntValue i) None), bs1)
                    else Inr (RInt k (scast i), n, None, bs1)))
      | RUint k x \<Rightarrow>
          if k = Uint64 then storeD ve (RUint k) (DecodeUhyper bs)
          else
            (case DecodeUint bs of (ui, n, err, bs1) \<Rightarrow>
               (case err of
                  Some e \<Rightarrow> Inr (ve, n, Some e, bs1)
                | None \<Rightarrow>
                    if OverflowUint k (ucast ui)
                    then Inr (ve, n, Some (unmarshalError ''decode'' ErrOverflow (UintValue ui) None), bs1)
                    else Inr (RUint k (ucast ui), n, None, bs1)))
      | RBool b \<Rightarrow> storeD ve RBool (DecodeBool bs)
      | RFloat32 x \<Rightarrow> storeD ve (\<lambda>f. RFloat32 (f32_via_f64 G f)) (DecodeFloat bs)
      | RFloat64 x \<Rightarrow> storeD ve RFloat64 (DecodeDouble bs)
      | RString s \<Rightarrow> bindG (DecodeString lim bs) (storeD ve RString)
      | RArray E xs \<Rightarrow> setD (RArray E) (decodeFixedArray dec cs E xs False bs)
      | RSlice E xs sp \<Rightarrow> setD (\<lambda>(ys, sp'). RSlice E ys sp') (decodeArray G lim dec E xs sp False bs)
      | RStruct fs \<Rightarrow> setD RStruct (decodeStruct G lim dec d cs fs bs)
      | RMap K V kvs \<Rightarrow> setD (RMap K V) (decodeMap G dec K V kvs bs)
      | RIface p \<Rightarrow> setD RIface (decodeInterface G dec d p bs)
      | _ \<Rightarrow> Inr (ve, 0, Some (unmarshalError ''decode'' ErrUnsupportedType NoValue None), bs))"

fun decode :: "genv \<Rightarrow> nat \<Rightarrow> nat \<Rightarrow> decoder" where
  "decode G lim 0 cs v bs = Inl Diverge"
| "decode G lim (Suc d) cs v bs =
     (if v = RInvalid then Inr (v, 0, Some (unmarshalError ''decode'' ErrUnsupportedType NoValue None), bs)
      else
        bindG (dindirect G d cs v) (\<lambda>(Ts, cs', u, err).
          (case err of
             Some e \<Rightarrow> Inr (wrapP Ts u, 0, Some e, bs)
           | None \<Rightarrow> setD (wrapP Ts) (decode_kind G lim (decode G lim d) d cs' u bs))))"

text \<open>\<^verbatim>\<open>d.Decode(v)\<close>, \<^verbatim>\<open>Unmarshal(r, v)\<close> and \<^verbatim>\<open>UnmarshalLimited(r, v, maxSize)\<close>; \<open>d\<close> bounds the
  recursion and \<open>None\<close> is the nil interface.\<close>

definition Decode :: "genv \<Rightarrow> nat \<Rightarrow> nat \<Rightarrow> rvalue option \<Rightarrow> bytes \<Rightarrow> (rvalue option) dres go" where
  "Decode G lim d p bs =
     (case p of
        None \<Rightarrow> Inr (None, 0, Some (unmarshalError ''Unmarshal'' ErrNilInterface NoValue None), bs)
      | Some v \<Rightarrow>
          (case v of
             RPtr T q \<Rightarrow>
               if q = None then Inr (p, 0, Some (unmarshalError ''Unmarshal'' ErrNotSettable NoValue None), bs)
               else bindG (decode G lim d False v bs) (\<lambda>(v', n, err, bs1). Inr (Some v', n, err, bs1))
           | _ \<Rightarrow> Inr (p, 0, Some (unmarshalError ''Unmarshal'' ErrBadArguments NoValue None), bs)))"

definition Unmarshal :: "genv \<Rightarrow> nat \<Rightarrow> bytes \<Rightarrow> rvalue option \<Rightarrow> (rvalue option) dres go" where
  "Unmarshal G d bs p = Decode G 0 d p bs"

definition UnmarshalLimited :: "genv \<Rightarrow> nat \<Rightarrow> bytes \<Rightarrow> rvalue option \<Rightarrow> nat \<Rightarrow> (rvalue option) dres go" where
  "UnmarshalLimited G d bs p maxSize = Decode G maxSize d p bs"

end
