(* ===== verification/Xdr_Safety.thy ===== *)
theory Xdr_Safety
  imports Xdr_Decode
begin

text \<open>
  What the decoder guarantees on every input: the byte count it reports is the bytes it consumed,
  a value keeps its Go type (also when decoding stops half-way), and for the types the program
  registers it returns, whatever the bytes are: no panic, no unbounded recursion.
\<close>

section \<open>What every decoder method guarantees\<close>

text \<open>
  \<open>dec_ok tot Q bs m\<close>: the method, started on the bytes \<open>bs\<close>, counts exactly the bytes it
  consumes, consumes a multiple of four when it succeeds, and leaves a value with \<open>Q\<close> behind
  in any case; with \<open>tot\<close> it moreover returns (no panic, no unbounded recursion).
\<close>

definition dec_ok :: "bool \<Rightarrow> ('a \<Rightarrow> bool) \<Rightarrow> bytes \<Rightarrow> 'a dres go \<Rightarrow> bool" where
  "dec_ok tot Q bs m \<longleftrightarrow>
     (case m of
        Inl c \<Rightarrow> \<not> tot
      | Inr (x, n, err, rest) \<Rightarrow> Q x \<and> n \<le> length bs \<and> rest = drop n bs \<and> (err = None \<longrightarrow> 4 dvd n))"

lemma dec_ok_Inr [simp]:
  "dec_ok tot Q bs (Inr (x, n, err, rest)) \<longleftrightarrow>
     Q x \<and> n \<le> length bs \<and> rest = drop n bs \<and> (err = None \<longrightarrow> 4 dvd n)"
  by (simp add: dec_ok_def)

lemma dec_ok_Inl [simp]: "dec_ok tot Q bs (Inl c) \<longleftrightarrow> \<not> tot"
  by (simp add: dec_ok_def)

lemma dec_okE:
  assumes "dec_ok tot Q bs m"
  obtains c where "m = Inl c" "\<not> tot"
    | x n err where "m = Inr (x, n, err, drop n bs)" "Q x" "n \<le> length bs" "err = None \<longrightarrow> 4 dvd n"
  using assms by (cases m) auto

lemma dec_ok_bind:
  assumes "dec_ok tot Q bs m"
    and "\<And>x n err. Q x \<Longrightarrow> n \<le> length bs \<Longrightarrow> (err = None \<Longrightarrow> 4 dvd n) \<Longrightarrow>
           dec_ok tot R bs (f (x, n, err, drop n bs))"
  shows "dec_ok tot R bs (bindG m f)"
  using assms by (elim dec_okE) auto

lemma dec_ok_then:
  assumes "dec_ok tot Q (drop n bs) m" and "n \<le> length bs" and "4 dvd n"
    and "\<And>x n2 err. Q x \<Longrightarrow> n + n2 \<le> length bs \<Longrightarrow> (err = None \<Longrightarrow> 4 dvd n + n2) \<Longrightarrow>
           dec_ok tot R bs (f (x, n2, err, drop (n + n2) bs))"
  shows "dec_ok tot R bs (bindG m f)"
  using assms(1)
proof (cases rule: dec_okE)
  case (2 x n2 err)
  from 2(3) assms(2) have "n + n2 \<le> length bs" by simp
  moreover have "err = None \<Longrightarrow> 4 dvd n + n2" using 2(4) assms(3) by simp
  moreover have "drop n2 (drop n bs) = drop (n + n2) bs" by (simp add: add.commute)
  ultimately show ?thesis using 2(1,2) assms(4) [of x n2 err] by simp
qed simp

lemma dec_ok_weaken: "dec_ok tot Q bs m \<Longrightarrow> (\<And>x. Q x \<Longrightarrow> R x) \<Longrightarrow> dec_ok tot R bs m"
  by (auto simp: dec_ok_def split: sum.splits)

lemma readD_ok:
  "4 dvd k \<Longrightarrow> dec_ok tot (\<lambda>x. True) bs (Inr (readD fname k dflt conv bs))"
  by (auto simp: readD_def ReadFull_def Let_def min_def split: option.split)

lemma dec_prims_ok [intro]:
  "dec_ok tot (\<lambda>x. True) bs (Inr (DecodeInt bs))" "dec_ok tot (\<lambda>x. True) bs (Inr (DecodeUint bs))"
  "dec_ok tot (\<lambda>x. True) bs (Inr (DecodeHyper bs))" "dec_ok tot (\<lambda>x. True) bs (Inr (DecodeUhyper bs))"
  "dec_ok tot (\<lambda>x. True) bs (Inr (DecodeFloat bs))" "dec_ok tot (\<lambda>x. True) bs (Inr (DecodeDouble bs))"
  by (simp_all add: DecodeInt_def DecodeUint_def DecodeHyper_def DecodeUhyper_def DecodeFloat_def
      DecodeDouble_def readD_ok)

lemma dec_prim_split:
  assumes "dec_ok True Q bs (Inr r)"
    and "\<And>x n err. n \<le> length bs \<Longrightarrow> (err = None \<Longrightarrow> 4 dvd n) \<Longrightarrow> Q x \<Longrightarrow> R (f x n err (drop n bs))"
  shows "R (case r of (x, n, err, rest) \<Rightarrow> f x n err rest)"
  using assms by (cases r) auto

lemma DecodeBool_ok [intro]: "dec_ok tot (\<lambda>x. True) bs (Inr (DecodeBool bs))"
  unfolding DecodeBool_def by (rule dec_prim_split [OF dec_prims_ok(1)]) (auto split: option.split)

lemma sint_small:
  fixes w :: "'a::len word"
  assumes "unat w < 2 ^ (LENGTH('a) - 1)"
  shows "sint w = int (unat w)"
  using assms unfolding sint_uint
  by (subst signed_take_bit_int_eq_self)
    (auto simp: order.trans [OF _ uint_ge_0] simp flip: of_nat_less_iff [where 'a = int])

text \<open>For a length below \<^verbatim>\<open>MaxInt32\<close> the padded size is the length rounded up.\<close>

definition pad_len :: "nat \<Rightarrow> nat" where
  "pad_len n = n + (4 - n mod 4) mod 4"

lemma pad_len_bounds: "n \<le> pad_len n" "pad_len n < n + 4" "4 dvd pad_len n"
  unfolding pad_len_def using pad4_dvd [of n] by auto

lemma pad_len_0 [simp]: "pad_len 0 = 0"
  by (simp add: pad_len_def)

lemma padded_size:
  fixes sz :: u32
  assumes "unat sz < 2 ^ 31"
  shows "sz + word_of_int ((4 - sint sz smod 4) smod 4) = of_nat (pad_len (unat sz))"
proof -
  define k where "k = unat sz"
  have sint: "sint sz = int k" using sint_small [of sz] assms by (simp add: k_def)
  have le: "k mod 4 \<le> 4" by (rule order.trans [OF less_imp_le [OF mod_less_divisor]]) simp_all
  have "(4 - int k smod 4) smod 4 = (4 - int (k mod 4)) mod 4"
    using le by (simp add: smod_mod_positive zmod_int)
  also have "\<dots> = int ((4 - k mod 4) mod 4)"
    using le by (simp add: of_nat_diff zmod_int)
  finally have pad: "(4 - sint sz smod 4) smod 4 = int ((4 - k mod 4) mod 4)" by (simp add: sint)
  have "sz = of_nat k" by (simp add: k_def)
  then show ?thesis unfolding pad pad_len_def k_def [symmetric] by simp
qed

lemma DecodeFixedOpaque_nonneg:
  assumes sz: "unat sz < 2 ^ 31"
  shows "DecodeFixedOpaque sz bs =
    (let k = pad_len (unat sz) in
     if unat sz = 0 then Inr ([], 0, None, bs)
     else if k > MaxInt32
     then Inr ([], 0, Some (unmarshalError ''DecodeFixedOpaque'' ErrOverflow (IntValue (of_nat k)) None), bs)
     else
       (case ReadFull k bs of (buf, n, err, rest) \<Rightarrow>
          (case err of
             Some e \<Rightarrow> Inr ([], n, Some (unmarshalError ''DecodeFixedOpaque'' ErrIO (BytesValue buf) (Some e)), rest)
           | None \<Rightarrow> Inr (take (unat sz) buf, n, None, rest))))"
proof -
  define k where "k = pad_len (unat sz)"
  have k: "k \<le> 2 ^ 31" using pad_len_bounds [of "unat sz"] sz unfolding k_def
    by (auto simp: dvd_def)
  have sint: "sint sz = int (unat sz)" using sint_small [of sz] sz by simp
  have big: "unat (scast (of_nat k :: u32) :: u64) = (if k = 2 ^ 31 then 2 ^ 64 - 2 ^ 31 else k)"
  proof (cases "k = 2 ^ 31")
    case True
    then show ?thesis by simp
  next
    case False
    with k have "k < 2 ^ 31" by simp
    moreover from this have "unat (of_nat k :: u32) = k" by (simp add: unat_of_nat)
    ultimately have "sint (of_nat k :: u32) = int k" using sint_small [of "of_nat k :: u32"] by simp
    then have "(scast (of_nat k :: u32) :: u64) = of_nat k" by (simp add: scast_eq)
    with \<open>k < 2 ^ 31\<close> show ?thesis by (simp add: unat_of_nat)
  qed
  have u: "k \<le> MaxInt32 \<Longrightarrow> unat (of_nat k :: u32) = k" by (simp add: unat_of_nat MaxInt32_def)
  have cond: "unat (scast (of_nat k :: u32) :: u64) > MaxInt32 \<longleftrightarrow> k > MaxInt32"
    using k unfolding big MaxInt32_def by auto
  show ?thesis
    unfolding DecodeFixedOpaque_def padded_size [OF sz] k_def [symmetric] Let_def cond
    using u sint by (auto simp: unat_eq_zero split: prod.splits option.splits)
qed

lemma DecodeFixedOpaque_ok:
  assumes "unat sz < 2 ^ 31"
  shows "dec_ok tot (\<lambda>x. True) bs (DecodeFixedOpaque sz bs)"
  unfolding DecodeFixedOpaque_nonneg [OF assms] using pad_len_bounds(3) [of "unat sz"]
  by (auto simp: Let_def ReadFull_def min_def split: option.split prod.split)

lemma DecodeFixedOpaque_length:
  "unat sz < 2 ^ 31 \<Longrightarrow> DecodeFixedOpaque sz bs = Inr (data, n, None, rest) \<Longrightarrow> length data = unat sz"
  using pad_len_bounds(1) [of "unat sz"]
  by (auto simp: DecodeFixedOpaque_nonneg Let_def min_def dest: ReadFull_spec
      split: if_splits option.splits prod.splits)

lemma too_long_bound: "\<not> too_long lim l \<Longrightarrow> unat l < 2 ^ 31"
  by (simp add: too_long_def MaxInt32_def)

lemma DecodeString_ok: "dec_ok tot (\<lambda>x. True) bs (DecodeString lim bs)"
  unfolding DecodeString_def
proof (rule dec_prim_split [OF dec_prims_ok(2)], clarsimp split: option.split)
  fix l :: u32 and n
  assume *: "n \<le> length bs" "4 dvd n" "\<not> too_long lim l"
  show "dec_ok tot (\<lambda>x. True) bs (bindG (DecodeFixedOpaque l (drop n bs)) (\<lambda>(opaque, n2, err2, bs2).
        case err2 of None \<Rightarrow> Inr (bytes_string opaque, n + n2, None, bs2)
        | Some e \<Rightarrow> Inr ('''', n + n2, Some e, bs2)))"
    using * by (intro dec_ok_then [OF DecodeFixedOpaque_ok]) (auto dest: too_long_bound split: option.split)
qed

section \<open>Types without names\<close>

text \<open>\<open>plain\<close> types name no other type and hold no interface; \<open>tdepth\<close> is their nesting.\<close>

fun plain :: "gotype \<Rightarrow> bool" where
  "plain (TNamed n) = False"
| "plain TIface = False"
| "plain (TArray n T) = plain T"
| "plain (TSlice T) = plain T"
| "plain (TPtr T) = plain T"
| "plain (TMap K V) = (plain K \<and> plain V)"
| "plain (TStruct fs) = (\<forall>ft \<in> set fs. plain (snd ft))"
| "plain _ = True"

fun tdepth :: "gotype \<Rightarrow> nat" where
  "tdepth (TArray n T) = Suc (tdepth T)"
| "tdepth (TSlice T) = Suc (tdepth T)"
| "tdepth (TPtr T) = Suc (tdepth T)"
| "tdepth (TMap K V) = Suc (max (tdepth K) (tdepth V))"
| "tdepth (TStruct fs) = Suc (maxl (map (\<lambda>ft. tdepth (snd ft)) fs))"
| "tdepth _ = 1"

lemma tdepth_pos: "0 < tdepth T"
  by (cases T) simp_all

lemma tdepth_not_0 [simp]: "tdepth T \<noteq> 0"
  using tdepth_pos [of T] by simp

lemma tdepth_field: "ft \<in> set fs \<Longrightarrow> tdepth (snd ft) < tdepth (TStruct fs)"
  using maxl_ge [of ft fs "\<lambda>ft. tdepth (snd ft)"] by (simp add: less_Suc_eq_le)

lemma wf_ty_any: "wf_ty False T \<Longrightarrow> wf_ty g T"
  by (cases T) simp_all

lemma zero_typed: "wf_ty False T \<Longrightarrow> has_type G T (zero T)"
proof (induction T)
  case (TStruct fs)
  then show ?case
    by (auto simp: list_all2_map2 list_all2_same)
next
  case (TInt k)
  then show ?case by (cases k) (simp_all add: OverflowInt_def)
next
  case (TUint k)
  then show ?case by (cases k) (simp_all add: OverflowUint_def)
qed simp_all

lemma resolve_wf: "env_ok G \<Longrightarrow> wf_ty True T \<Longrightarrow> wf_ty False (resolve G T)"
  by (cases T) (auto simp: resolve_def env_ok_def split: option.split)

lemma resolve_plain [simp]: "plain T \<Longrightarrow> resolve G T = T"
  by (cases T) (simp_all add: resolve_def)

lemma newval_typed: "env_ok G \<Longrightarrow> wf_ty True T \<Longrightarrow> has_type G (resolve G T) (newval G T)"
  by (simp add: newval_def resolve_wf zero_typed)

fun is_ptr :: "rvalue \<Rightarrow> bool" where
  "is_ptr (RPtr T p) = True"
| "is_ptr _ = False"

lemma case_RPtr: "(case v of RPtr T p \<Rightarrow> a | _ \<Rightarrow> b) = (if is_ptr v then a else b)"
  by (cases v) simp_all

text \<open>Following the pointers of a typed value ends at a typed value, and wrapping it again gives
  the type back.\<close>

lemma dindirect_typed:
  assumes "env_ok G" and "wf_ty False T" and "has_type G T v"
  shows "case dindirect G d cs v of
      Inl c \<Rightarrow> \<not> (plain T \<and> tdepth T \<le> Suc d)
    | Inr (Ts, cs', u, err) \<Rightarrow>
        (\<exists>U. wf_ty False U \<and> has_type G U u \<and> (plain T \<longrightarrow> plain U \<and> tdepth U \<le> tdepth T) \<and>
             (err = None \<longrightarrow> \<not> is_ptr u) \<and> (\<forall>u'. has_type G U u' \<longrightarrow> has_type G T (wrapP Ts u')))"
  using assms(2,3)
proof (induction d arbitrary: cs v T)
  case 0
  show ?case
  proof (cases "\<exists>E p. v = RPtr E p")
    case True
    then obtain E p where v: "v = RPtr E p" by blast
    with 0 show ?thesis using tdepth_pos [of E]
      by (auto simp: dindirect.simps [of G 0] intro!: exI [of _ T] split: option.split)
  next
    case False
    with 0 show ?thesis
      by (cases v) (auto simp: dindirect.simps [of G 0] intro!: exI [of _ T])
  qed
next
  case (Suc d)
  show ?case
  proof (cases "\<exists>E p. v = RPtr E p")
    case True
    then obtain E p where v: "v = RPtr E p" by blast
    show ?thesis
    proof (cases "p = None \<and> \<not> cs")
      case True
      with Suc.prems v show ?thesis
        by (auto simp: dindirect.simps [of G "Suc d"] intro!: exI [of _ T])
    next
      case False
      define w where "w = (case p of None \<Rightarrow> newval G E | Some u \<Rightarrow> u)"
      from Suc.prems v have T: "T = TPtr E" and E: "wf_ty True E" by auto
      have w: "wf_ty False (resolve G E)" "has_type G (resolve G E) w"
        using Suc.prems v E assms(1) by (auto simp: w_def newval_typed resolve_wf split: option.split)
      have eq: "dindirect G (Suc d) cs v = bindG (dindirect G d True w) (\<lambda>(Ts, cs', u, err). Inr (E # Ts, cs', u, err))"
        using False by (auto simp: v w_def dindirect.simps [of G "Suc d"])
      show ?thesis
      proof (cases "dindirect G d True w")
        case (Inl c)
        with Suc.IH [OF w, of True] T show ?thesis by (auto simp: eq)
      next
        case (Inr r)
        obtain Ts cs' u err where r: "r = (Ts, cs', u, err)" by (cases r)
        with Suc.IH [OF w, of True] Inr obtain U where U: "wf_ty False U" "has_type G U u"
          "plain (resolve G E) \<longrightarrow> plain U \<and> tdepth U \<le> tdepth (resolve G E)"
          "err = None \<longrightarrow> \<not> is_ptr u" "\<forall>u'. has_type G U u' \<longrightarrow> has_type G (resolve G E) (wrapP Ts u')"
          by auto
        have "plain T \<longrightarrow> plain U \<and> tdepth U \<le> tdepth T"
          using U(3) by (auto simp: T)
        with U show ?thesis by (auto simp: eq Inr r T)
      qed
    qed
  next
    case False
    with Suc.prems show ?thesis
      by (cases v) (auto simp: dindirect.simps [of G "Suc d"] intro!: exI [of _ T])
  qed
qed

section \<open>Typing and totality of the decoder\<close>

definition child_ok :: "genv \<Rightarrow> bool \<Rightarrow> nat \<Rightarrow> decoder \<Rightarrow> bool" where
  "child_ok G tot d dec \<longleftrightarrow>
     (\<forall>T x cs bs. wf_ty False T \<longrightarrow> has_type G T x \<longrightarrow> (tot \<longrightarrow> plain T \<and> tdepth T \<le> d) \<longrightarrow>
        dec_ok tot (has_type G T) bs (dec cs x bs))"

lemma child_okD:
  "child_ok G tot d dec \<Longrightarrow> wf_ty False T \<Longrightarrow> has_type G T x \<Longrightarrow> (tot \<Longrightarrow> plain T \<and> tdepth T \<le> d) \<Longrightarrow>
     dec_ok tot (has_type G T) bs (dec cs x bs)"
  by (simp add: child_ok_def)

lemma decode_elems_ok:
  assumes "child_ok G tot d dec" and "wf_ty False U" and "tot \<Longrightarrow> plain U \<and> tdepth U \<le> d"
  shows "\<forall>x \<in> set xs. has_type G U x \<Longrightarrow>
    dec_ok tot (\<lambda>ys. length ys = length xs \<and> (\<forall>y \<in> set ys. has_type G U y)) bs (decode_elems (dec cs) xs bs)"
proof (induction xs arbitrary: bs)
  case (Cons x xs)
  from Cons.prems have "dec_ok tot (has_type G U) bs (dec cs x bs)"
    by (intro child_okD [OF assms(1,2)] assms(3)) auto
  then show ?case unfolding decode_elems.simps
  proof (rule dec_ok_bind)
    fix x' n and err :: "goerror option"
    assume *: "has_type G U x'" "n \<le> length bs" "err = None \<Longrightarrow> 4 dvd n"
    have tl: "dec_ok tot (\<lambda>ys. length ys = length xs \<and> (\<forall>y \<in> set ys. has_type G U y)) (drop n bs)
        (decode_elems (dec cs) xs (drop n bs))"
      using Cons by auto
    show "dec_ok tot (\<lambda>ys. length ys = length (x # xs) \<and> (\<forall>y\<in>set ys. has_type G U y)) bs
      (case (x', n, err, drop n bs) of (x', n, None, bs1) \<Rightarrow>
          bindG (decode_elems (dec cs) xs bs1) (\<lambda>(xs', n2, err2, bs2). Inr (x' # xs', n + n2, err2, bs2))
        | (x', n, Some e, bs1) \<Rightarrow> Inr (x' # xs, n, Some e, bs1))"
      using * Cons.prems by (cases err) (auto intro!: dec_ok_then [OF tl])
  qed
qed simp

lemma bytes_typed: "\<forall>y \<in> set (map rbyte data). has_type G (TUint Uint8) y"
proof -
  have "unat (ucast b :: u64) < 256" for b :: byte
  proof -
    have "unat (ucast b :: u64) \<le> unat b" by (simp add: unsigned_ucast_eq)
    also have "unat b < 256" using unsigned_less [of b] by simp
    finally show ?thesis .
  qed
  then show ?thesis by (simp add: rbyte_def OverflowUint_def)
qed

lemma decodeFixedArray_ok:
  assumes "child_ok G tot d dec" and "wf_ty False (TArray (length xs) E)"
    and "tot \<Longrightarrow> plain E \<and> tdepth E \<le> d" and "\<forall>x \<in> set xs. has_type G E x"
  shows "dec_ok tot (\<lambda>ys. length ys = length xs \<and> (\<forall>y \<in> set ys. has_type G E y)) bs
    (decodeFixedArray dec cs E xs io bs)"
proof (cases "\<not> io \<and> E = TUint Uint8")
  case True
  from assms(2) have l: "length xs < 2 ^ 31" by simp
  then have u: "unat (of_nat (length xs) :: u32) = length xs" by (simp add: unat_of_nat)
  have "dec_ok tot (\<lambda>x. True) bs (DecodeFixedOpaque (of_nat (length xs)) bs)"
    by (rule DecodeFixedOpaque_ok) (use l u in simp)
  moreover have "\<forall>y \<in> set (take (length xs) (map rbyte data) @ drop (length data) xs). has_type G E y" for data
    using assms(4) True bytes_typed [of data G] by (metis UnE in_set_dropD in_set_takeD set_append)
  ultimately show ?thesis using True assms(4)
    unfolding decodeFixedArray_def
    by (simp del: set_append set_map) (rule dec_ok_bind, assumption, auto simp del: set_append set_map split: option.split)
next
  case False
  then have "decodeFixedArray dec cs E xs io bs = decode_elems (dec cs) xs bs"
    by (auto simp: decodeFixedArray_def)
  then show ?thesis
    using decode_elems_ok [OF assms(1) _ assms(3,4)] assms(2) by simp
qed

lemma resize_typed:
  assumes "env_ok G" and "wf_ty True E" and "resize G E k xs sp = (ys, sp')"
    and "\<forall>x \<in> set xs. has_type G (resolve G E) x" and "\<forall>x \<in> set sp. has_type G (resolve G E) x"
  shows "(\<forall>x \<in> set ys. has_type G (resolve G E) x) \<and> (\<forall>x \<in> set sp'. has_type G (resolve G E) x) \<and> k \<le> length ys"
  using assms newval_typed [OF assms(1,2)]
  by (auto simp: resize_def split: if_splits dest!: in_set_takeD in_set_dropD)

definition slice_ok :: "genv \<Rightarrow> gotype \<Rightarrow> rvalue list \<times> rvalue list \<Rightarrow> bool" where
  "slice_ok G E = (\<lambda>(ys, sp). has_type G (TSlice E) (RSlice E ys sp))"

lemma decodeArray_ok:
  assumes "env_ok G" and "child_ok G tot d dec" and "wf_ty True E" and "tot \<Longrightarrow> plain E \<and> tdepth E \<le> d"
    and "slice_ok G E (xs, sp)"
  shows "dec_ok tot (slice_ok G E) bs (decodeArray G lim dec E xs sp io bs)"
  unfolding decodeArray_def
proof (rule dec_prim_split [OF dec_prims_ok(2)])
  fix l :: u32 and n and err :: "goerror option"
  assume n: "n \<le> length bs" "err = None \<Longrightarrow> 4 dvd n"
  obtain ys sp' where r: "resize G E (unat l) xs sp = (ys, sp')" by force
  have "\<forall>x \<in> set xs. has_type G (resolve G E) x" "\<forall>x \<in> set sp. has_type G (resolve G E) x"
    using assms(5) by (simp_all add: slice_ok_def)
  from resize_typed [OF assms(1,3) r this]
  have ys: "\<forall>x \<in> set ys. has_type G (resolve G E) x" "\<forall>x \<in> set sp'. has_type G (resolve G E) x" "unat l \<le> length ys"
    by simp_all
  have bytes: "dec_ok tot (slice_ok G E) bs
      (bindG (DecodeFixedOpaque (of_nat (unat l)) (drop n bs)) (\<lambda>(data, n2, err2, bs2).
         case err2 of None \<Rightarrow> Inr ((map rbyte data, []), n + n2, None, bs2) | Some e \<Rightarrow> Inr ((ys, sp'), n + n2, Some e, bs2)))"
    if "E = TUint Uint8" "\<not> too_long lim l" "err = None"
  proof -
    have E: "resolve G E = TUint Uint8" using that(1) by (simp add: resolve_def)
    have l: "unat (of_nat (unat l) :: u32) < 2 ^ 31" using too_long_bound [OF that(2)] by simp
    have "slice_ok G E (map rbyte data, [])" for data
      using bytes_typed [of data G] unfolding slice_ok_def by (simp add: E)
    moreover have "slice_ok G E (ys, sp')" using ys by (simp add: slice_ok_def)
    ultimately show ?thesis
      using n that(3) by (intro dec_ok_then [OF DecodeFixedOpaque_ok [OF l]]) (auto split: option.split)
  qed
  have elems: "dec_ok tot (slice_ok G E) bs
      (bindG (decode_elems (dec True) (take (unat l) ys) (drop n bs)) (\<lambda>(zs, n2, err2, bs2).
         Inr ((zs @ drop (unat l) ys, sp'), n + n2, err2, bs2)))"
    if "err = None"
  proof -
    have "\<forall>x \<in> set (take (unat l) ys). has_type G (resolve G E) x"
      using ys(1) by (auto dest: in_set_takeD)
    then have "dec_ok tot (\<lambda>zs. length zs = length (take (unat l) ys) \<and> (\<forall>y \<in> set zs. has_type G (resolve G E) y))
        (drop n bs) (decode_elems (dec True) (take (unat l) ys) (drop n bs))"
      by (rule decode_elems_ok [OF assms(2) resolve_wf [OF assms(1,3)], rotated])
        (use assms(4) in auto)
    then show ?thesis
    proof (rule dec_ok_then)
      fix zs n2 and err2 :: "goerror option"
      assume zs: "length zs = length (take (unat l) ys) \<and> (\<forall>y \<in> set zs. has_type G (resolve G E) y)"
        and n2: "n + n2 \<le> length bs" "err2 = None \<Longrightarrow> 4 dvd n + n2"
      have "\<forall>x \<in> set (drop (unat l) ys). has_type G (resolve G E) x"
        using ys(1) by (auto dest: in_set_dropD)
      with zs ys(2) have "slice_ok G E (zs @ drop (unat l) ys, sp')"
        by (auto simp: slice_ok_def)
      with n2 show "dec_ok tot (slice_ok G E) bs (case (zs, n2, err2, drop (n + n2) bs) of
          (zs, n2, err2, bs2) \<Rightarrow> Inr ((zs @ drop (unat l) ys, sp'), n + n2, err2, bs2))"
        by simp
    qed (use n that in auto)
  qed
  show "dec_ok tot (slice_ok G E) bs
      (case err of
         None \<Rightarrow> if too_long lim l
           then Inr ((xs, sp), n, Some (unmarshalError ''decodeArray'' ErrOverflow (UintValue l) None), drop n bs)
           else let sliceLen = unat l; (ys, sp') = resize G E sliceLen xs sp
                in if \<not> io \<and> E = TUint Uint8
                   then bindG (DecodeFixedOpaque (word_of_nat sliceLen) (drop n bs)) (\<lambda>(data, n2, err2, bs2).
                      case err2 of None \<Rightarrow> Inr ((map rbyte data, []), n + n2, None, bs2)
                      | Some e \<Rightarrow> Inr ((ys, sp'), n + n2, Some e, bs2))
                   else bindG (decode_elems (dec True) (take sliceLen ys) (drop n bs)) (\<lambda>(zs, n2, err2, bs2).
                      Inr ((zs @ drop sliceLen ys, sp'), n + n2, err2, bs2))
       | Some e \<Rightarrow> Inr ((xs, sp), n, Some e, drop n bs))"
    using bytes elems assms(5) n by (auto simp: r Let_def split: option.split)
qed

lemma discriminant_typed: "has_type G T u \<Longrightarrow> discriminant G u \<noteq> Inl c"
  by (cases u) auto

text \<open>The results of \<open>decode_field\<close> carry the next discriminant as well.\<close>

definition fld_ok :: "bool \<Rightarrow> (rvalue \<Rightarrow> bool) \<Rightarrow> bytes \<Rightarrow> (rvalue \<times> nat \<times> goerror option \<times> bytes \<times> string) go \<Rightarrow> bool" where
  "fld_ok tot Q bs m \<longleftrightarrow> dec_ok tot Q bs (bindG m (\<lambda>(x, n, err, rest, disc). Inr (x, n, err, rest)))"

lemma fld_ok_Inr [simp]:
  "fld_ok tot Q bs (Inr (x, n, err, rest, disc)) \<longleftrightarrow>
     Q x \<and> n \<le> length bs \<and> rest = drop n bs \<and> (err = None \<longrightarrow> 4 dvd n)"
  by (simp add: fld_ok_def)

lemma fld_ok_Inl [simp]: "fld_ok tot Q bs (Inl c) \<longleftrightarrow> \<not> tot"
  by (simp add: fld_ok_def)

lemma fld_ok_bind:
  assumes "dec_ok tot Q bs m"
    and "\<And>x n err. Q x \<Longrightarrow> n \<le> length bs \<Longrightarrow> (err = None \<Longrightarrow> 4 dvd n) \<Longrightarrow>
           fld_ok tot R bs (f (x, n, err, drop n bs))"
  shows "fld_ok tot R bs (bindG m f)"
  using assms(1) by (cases rule: dec_okE) (auto intro!: assms(2))

lemma fld_ok_map:
  assumes "fld_ok tot Q bs m" and "\<And>x. Q x \<Longrightarrow> R (f x)"
  shows "fld_ok tot R bs (bindG m (\<lambda>(x, n, err, bs1, disc). Inr (f x, n, err, bs1, disc)))"
  using assms by (cases m) auto

lemma decode_member_ok:
  assumes "child_ok G tot d dec" and "wf_ty False U" and "tot \<Longrightarrow> plain U \<and> tdepth U \<le> d" and "has_type G U u"
  shows "fld_ok tot (has_type G U) bs (decode_member G dec cs tag disc u bs)"
proof (cases "skip_case tag disc")
  case False
  have "dec_ok tot (has_type G U) bs (dec cs u bs)"
    by (rule child_okD [OF assms(1,2,4,3)])
  then have "fld_ok tot (has_type G U) bs (bindG (dec cs u bs) f)"
    if "\<And>x n err. has_type G U x \<Longrightarrow> n \<le> length bs \<Longrightarrow> (err = None \<Longrightarrow> 4 dvd n) \<Longrightarrow>
           fld_ok tot (has_type G U) bs (f (x, n, err, drop n bs))" for f
    using that by (rule fld_ok_bind)
  then show ?thesis
    unfolding decode_member_def using False discriminant_typed
    by (auto simp: bindG_def [of "discriminant _ _"] split: option.split sum.split)
qed (use assms in \<open>simp add: decode_member_def\<close>)

lemma decode_field_ok:
  assumes "env_ok G" and "child_ok G tot d dec" and "wf_ty False T" and "tot \<Longrightarrow> plain T \<and> tdepth T \<le> d"
    and "has_type G T vf"
  shows "fld_ok tot (has_type G T) bs (decode_field G lim dec d cs tag disc vf bs)"
proof (cases "dindirect G d cs vf")
  case (Inl c)
  with dindirect_typed [OF assms(1,3,5), of d cs] assms(4) show ?thesis
    by (auto simp: decode_field_def)
next
  case (Inr r)
  obtain Ts cs' u err where r: "r = (Ts, cs', u, err)" by (cases r)
  with dindirect_typed [OF assms(1,3,5), of d cs] Inr obtain U where U: "wf_ty False U" "has_type G U u"
    "plain T \<longrightarrow> plain U \<and> tdepth U \<le> tdepth T" and wrap: "\<And>u'. has_type G U u' \<Longrightarrow> has_type G T (wrapP Ts u')"
    by auto
  have tot: "plain U \<and> tdepth U \<le> d" if tot using U(3) assms(4) [OF that] by auto
  have mem: "fld_ok tot (has_type G U) bs (decode_member G dec cs' tag disc u bs)"
    by (rule decode_member_ok [OF assms(2) U(1) tot U(2)])
  have sl: "fld_ok tot (has_type G U) bs (bindG (decodeArray G lim dec E xs sp True bs)
        (\<lambda>((ys, sp'), n, err, bs1). Inr (RSlice E ys sp', n, err, bs1, disc)))"
    if "u = RSlice E xs sp" for E xs sp
  proof -
    from U(2) that have T: "U = TSlice E" by simp
    show ?thesis
      using U tot unfolding T that
      by (intro fld_ok_bind [OF decodeArray_ok [OF assms(1,2)]]) (auto simp: slice_ok_def simp del: has_type.simps)
  qed
  have ar: "fld_ok tot (has_type G U) bs (bindG (decodeFixedArray dec cs' E xs True bs)
        (\<lambda>(ys, n, err, bs1). Inr (RArray E ys, n, err, bs1, disc)))"
    if "u = RArray E xs" for E xs
  proof -
    from U(2) that have T: "U = TArray (length xs) E" and el: "\<forall>x \<in> set xs. has_type G E x" by auto
    have "dec_ok tot (\<lambda>ys. length ys = length xs \<and> (\<forall>y \<in> set ys. has_type G E y)) bs
        (decodeFixedArray dec cs' E xs True bs)"
      using U(1) tot el unfolding T by (intro decodeFixedArray_ok [OF assms(2)]) auto
    then show ?thesis by (rule fld_ok_bind) (auto simp: T)
  qed
  define m where "m = (if tag_Get tag ''opaque'' = ''false'' then
        (case u of
           RSlice E xs sp \<Rightarrow> bindG (decodeArray G lim dec E xs sp True bs)
                (\<lambda>((ys, sp'), n, err, bs1). Inr (RSlice E ys sp', n, err, bs1, disc))
         | RArray E xs \<Rightarrow> bindG (decodeFixedArray dec cs' E xs True bs)
                (\<lambda>(ys, n, err, bs1). Inr (RArray E ys, n, err, bs1, disc))
         | _ \<Rightarrow> decode_member G dec cs' tag disc u bs)
      else decode_member G dec cs' tag disc u bs)"
  have eq: "decode_field G lim dec d cs tag disc vf bs =
      (case err of
          Some e \<Rightarrow> Inr (wrapP Ts u, 0, Some e, bs, disc)
        | None \<Rightarrow>
            if \<not> cs' then
              Inr (wrapP Ts u, 0, Some (unmarshalError ''decodeStruct'' ErrNotSettable NoValue None), bs, disc)
            else bindG m (\<lambda>(u', n, err, bs1, disc'). Inr (wrapP Ts u', n, err, bs1, disc')))"
    unfolding decode_field_def Inr r m_def by simp
  have "fld_ok tot (has_type G U) bs m"
    unfolding m_def using mem sl ar by (auto split: rvalue.split)
  from fld_ok_map [where f = "wrapP Ts" and R = "has_type G T", OF this wrap] show ?thesis
    unfolding eq using wrap [OF U(2)] by (cases err; cases cs') simp_all
qed

definition fields_ok :: "genv \<Rightarrow> (fieldinfo \<times> gotype) list \<Rightarrow> (fieldinfo \<times> rvalue) list \<Rightarrow> bool" where
  "fields_ok G fts fs \<longleftrightarrow> list_all2 (\<lambda>ft fv. fst ft = fst fv \<and> has_type G (snd ft) (snd fv)) fts fs"

lemma fields_ok_Cons:
  "fields_ok G fts ((fi, vf) # fs) \<longleftrightarrow>
     (\<exists>T fts'. fts = (fi, T) # fts' \<and> has_type G T vf \<and> fields_ok G fts' fs)"
  by (auto simp: fields_ok_def list_all2_Cons2)

lemma decode_fields_ok:
  assumes "env_ok G" and "child_ok G tot d dec"
  shows "(\<forall>ft \<in> set fts. wf_ty False (snd ft) \<and> (tot \<longrightarrow> plain (snd ft) \<and> tdepth (snd ft) \<le> d)) \<Longrightarrow>
     fields_ok G fts fs \<Longrightarrow> dec_ok tot (fields_ok G fts) bs (decode_fields G lim dec d cs disc fs bs)"
proof (induction fs arbitrary: fts disc bs)
  case Nil
  then show ?case by simp
next
  case (Cons fv fs)
  obtain fi vf where fv: "fv = (fi, vf)" by (cases fv)
  from Cons.prems(2) obtain T fts' where fts: "fts = (fi, T) # fts'" and vf: "has_type G T vf"
    and fs: "fields_ok G fts' fs"
    unfolding fv fields_ok_Cons by blast
  from Cons.prems(1) have "wf_ty False T" and "tot \<Longrightarrow> plain T \<and> tdepth T \<le> d"
    by (simp_all add: fts)
  note T = vf this
  have consI: "fields_ok G fts ((fi, x) # gs)" if "has_type G T x" "fields_ok G fts' gs" for x gs
    using that by (simp add: fts fields_ok_Cons)
  from Cons.prems(1) fts have sub: "\<forall>ft \<in> set fts'. wf_ty False (snd ft) \<and> (tot \<longrightarrow> plain (snd ft) \<and> tdepth (snd ft) \<le> d)"
    by simp
  note IH = Cons.IH [OF sub fs]
  define tag where "tag = parseTag (ftag fi)"
  define step where "step = (\<lambda>n0 bs. bindG (decode_field G lim dec d cs tag disc vf bs) (\<lambda>(vf', n, err, bs1, disc').
              (case err of
                 Some e \<Rightarrow> Inr ((fi, vf') # fs, n0 + n, Some e, bs1)
               | None \<Rightarrow> bindG (decode_fields G lim dec d cs disc' fs bs1)
                   (\<lambda>(fs', n2, err2, bs2). Inr ((fi, vf') # fs', n0 + n + n2, err2, bs2)))))"
  have step: "dec_ok tot (fields_ok G fts) bs (step n0 (drop n0 bs))" if n0: "n0 \<le> length bs" "4 dvd n0" for n0 bs
  proof -
    have f: "fld_ok tot (has_type G T) (drop n0 bs) (decode_field G lim dec d cs tag disc vf (drop n0 bs))"
      by (rule decode_field_ok [OF assms T(2,3,1)])
    show ?thesis
    proof (cases "decode_field G lim dec d cs tag disc vf (drop n0 bs)")
      case (Inr r)
      obtain vf' n err bs1 disc' where r: "r = (vf', n, err, bs1, disc')" by (cases r)
      with f Inr n0 have *: "has_type G T vf'" "n0 + n \<le> length bs" "bs1 = drop (n0 + n) bs" "err = None \<Longrightarrow> 4 dvd n0 + n"
        by (auto simp: add.commute)
      show ?thesis
      proof (cases err)
        case None
        have "dec_ok tot (fields_ok G fts) bs (bindG (decode_fields G lim dec d cs disc' fs (drop (n0 + n) bs))
             (\<lambda>(fs', n2, err2, bs2). Inr ((fi, vf') # fs', n0 + n + n2, err2, bs2)))"
          using * None by (intro dec_ok_then [OF IH]) (simp_all add: consI)
        with * None show ?thesis by (simp add: step_def Inr r)
      next
        case (Some e)
        with * fs show ?thesis by (simp add: step_def Inr r consI)
      qed
    qed (use f in \<open>simp add: step_def\<close>)
  qed
  have skip: "dec_ok tot (fields_ok G fts) bs (bindG (decode_fields G lim dec d cs disc fs (drop n0 bs))
       (\<lambda>(fs', n, err, bs1). Inr ((fi, vf) # fs', n0 + n, err, bs1)))" if "n0 \<le> length bs" "4 dvd n0" for n0
    using that T by (intro dec_ok_then [OF IH]) (simp_all add: consI)
  have opt: "dec_ok tot (fields_ok G fts) bs
     (case DecodeBool bs of (hasopt, n0, err, bs0) \<Rightarrow>
        (case err of
           Some e \<Rightarrow> Inr ((fi, vf) # fs, n0, Some e, bs0)
         | None \<Rightarrow>
             if \<not> hasopt then
               bindG (decode_fields G lim dec d cs disc fs bs0)
                 (\<lambda>(fs', n2, err2, bs2). Inr ((fi, vf) # fs', n0 + n2, err2, bs2))
             else step n0 bs0))"
  proof (rule dec_prim_split [OF DecodeBool_ok])
    fix hasopt n0 and err :: "goerror option"
    assume n0: "n0 \<le> length bs" "err = None \<Longrightarrow> 4 dvd n0"
    show "dec_ok tot (fields_ok G fts) bs
        (case err of
           Some e \<Rightarrow> Inr ((fi, vf) # fs, n0, Some e, drop n0 bs)
         | None \<Rightarrow>
             if \<not> hasopt then
               bindG (decode_fields G lim dec d cs disc fs (drop n0 bs))
                 (\<lambda>(fs', n2, err2, bs2). Inr ((fi, vf) # fs', n0 + n2, err2, bs2))
             else step n0 (drop n0 bs))"
    proof (cases err)
      case None
      with step [OF n0(1)] skip [OF n0(1)] n0(2) show ?thesis by (cases hasopt) simp_all
    next
      case (Some e)
      with n0 vf fs show ?thesis by (simp add: consI)
    qed
  qed
  have eq: "decode_fields G lim dec d cs disc (fv # fs) bs =
     (if \<not> exported fi then
        bindG (decode_fields G lim dec d cs disc fs bs) (\<lambda>(fs', n, err, bs1). Inr ((fi, vf) # fs', n, err, bs1))
      else if tag_Get tag ''optional'' = ''true'' then
          (case vf of
             RPtr T p \<Rightarrow>
               (case DecodeBool bs of (hasopt, n0, err, bs0) \<Rightarrow>
                  (case err of
                     Some e \<Rightarrow> Inr ((fi, vf) # fs, n0, Some e, bs0)
                   | None \<Rightarrow>
                       if \<not> hasopt then
                         bindG (decode_fields G lim dec d cs disc fs bs0)
                           (\<lambda>(fs', n2, err2, bs2). Inr ((fi, vf) # fs', n0 + n2, err2, bs2))
                       else step n0 bs0))
           | _ \<Rightarrow> Inr ((fi, vf) # fs, 0, Some (unmarshalError ''decodeStruct'' ErrBadOptional NoValue None), bs))
        else step 0 bs)"
    unfolding fv decode_fields.simps Let_def tag_def step_def by (rule refl)
  have bad: "dec_ok tot (fields_ok G fts) bs
      (Inr ((fi, vf) # fs, 0, Some (unmarshalError ''decodeStruct'' ErrBadOptional NoValue None), bs))"
    using T fs by (simp add: consI)
  have "dec_ok tot (fields_ok G fts) bs (step 0 bs)" using step [of 0 bs] by simp
  moreover have "dec_ok tot (fields_ok G fts) bs (bindG (decode_fields G lim dec d cs disc fs bs)
       (\<lambda>(fs', n, err, bs1). Inr ((fi, vf) # fs', n, err, bs1)))" using skip [of 0] by simp
  ultimately show ?case
    unfolding eq case_RPtr using opt bad by (simp del: dec_ok_Inr)
qed

lemma SetMapIndex_set: "set (SetMapIndex kvs k v) \<subseteq> insert (k, v) (set kvs)"
  by (induction kvs) auto

definition map_ok :: "genv \<Rightarrow> gotype \<Rightarrow> gotype \<Rightarrow> (rvalue \<times> rvalue) list \<Rightarrow> bool" where
  "map_ok G K V kvs \<longleftrightarrow>
     (\<forall>kv \<in> set kvs. has_type G (resolve G K) (fst kv) \<and> has_type G (resolve G V) (snd kv))"

lemma map_ok_set:
  "map_ok G K V kvs \<Longrightarrow> has_type G (resolve G K) k \<Longrightarrow> has_type G (resolve G V) v \<Longrightarrow>
     map_ok G K V (SetMapIndex kvs k v)"
  using SetMapIndex_set [of kvs k v] by (auto simp: map_ok_def)

lemma newval_ok:
  assumes "env_ok G" and "child_ok G tot d dec" and "wf_ty True E" and "tot \<Longrightarrow> plain E \<and> tdepth E \<le> d"
  shows "dec_ok tot (has_type G (resolve G E)) bs (dec cs (newval G E) bs)"
  using assms(4) by (intro child_okD [OF assms(2)] resolve_wf newval_typed assms(1,3)) auto

lemma decode_pairs_ok:
  assumes "env_ok G" and "child_ok G tot d dec"
    and "wf_ty True K" and "tot \<Longrightarrow> plain K \<and> tdepth K \<le> d"
    and "wf_ty True V" and "tot \<Longrightarrow> plain V \<and> tdepth V \<le> d"
  shows "map_ok G K V kvs \<Longrightarrow> dec_ok tot (map_ok G K V) bs (decode_pairs G dec K V i kvs bs)"
proof (induction i arbitrary: kvs bs)
  case (Suc i)
  note key = newval_ok [OF assms(1,2,3,4)] and val = newval_ok [OF assms(1,2,5,6)]
  have inner: "dec_ok tot (map_ok G K V) bs
     (bindG (dec True (newval G V) (drop n bs)) (\<lambda>(val, n2, err2, bs2).
        case err2 of Some e \<Rightarrow> Inr (kvs, n + n2, Some e, bs2)
        | None \<Rightarrow> bindG (decode_pairs G dec K V i (SetMapIndex kvs k val) bs2)
            (\<lambda>(kvs', n3, err3, bs3). Inr (kvs', n + n2 + n3, err3, bs3))))"
    if k: "has_type G (resolve G K) k" and n: "n \<le> length bs" "4 dvd n" for k n
  proof (rule dec_ok_then [OF val n])
    fix v n2 and err2 :: "goerror option"
    assume v: "has_type G (resolve G V) v" and n2: "n + n2 \<le> length bs" "err2 = None \<Longrightarrow> 4 dvd n + n2"
    show "dec_ok tot (map_ok G K V) bs (case (v, n2, err2, drop (n + n2) bs) of (val, n2, err2, bs2) \<Rightarrow>
        case err2 of Some e \<Rightarrow> Inr (kvs, n + n2, Some e, bs2)
        | None \<Rightarrow> bindG (decode_pairs G dec K V i (SetMapIndex kvs k val) bs2)
            (\<lambda>(kvs', n3, err3, bs3). Inr (kvs', n + n2 + n3, err3, bs3)))"
    proof (cases err2)
      case None
      from n2(2) [OF None] show ?thesis
        using None by simp (rule dec_ok_then [OF Suc.IH [OF map_ok_set [OF Suc.prems k v]] n2(1)], auto)
    qed (use Suc.prems n2 in simp)
  qed
  show ?case unfolding decode_pairs.simps
  proof (rule dec_ok_bind [OF key])
    fix k n and err :: "goerror option"
    assume *: "has_type G (resolve G K) k" "n \<le> length bs" "err = None \<Longrightarrow> 4 dvd n"
    show "dec_ok tot (map_ok G K V) bs (case (k, n, err, drop n bs) of (key, n, err, bs1) \<Rightarrow>
       case err of
          Some e \<Rightarrow> Inr (kvs, n, Some e, bs1)
        | None \<Rightarrow> bindG (dec True (newval G V) bs1) (\<lambda>(val, n2, err2, bs2).
            (case err2 of
               Some e \<Rightarrow> Inr (kvs, n + n2, Some e, bs2)
             | None \<Rightarrow> bindG (decode_pairs G dec K V i (SetMapIndex kvs key val) bs2)
                 (\<lambda>(kvs', n3, err3, bs3). Inr (kvs', n + n2 + n3, err3, bs3)))))"
      using * Suc.prems inner by (cases err) simp_all
  qed
qed simp

lemma decodeMap_ok:
  assumes "env_ok G" and "child_ok G tot d dec"
    and "wf_ty True K" and "tot \<Longrightarrow> plain K \<and> tdepth K \<le> d"
    and "wf_ty True V" and "tot \<Longrightarrow> plain V \<and> tdepth V \<le> d" and "map_ok G K V kvs"
  shows "dec_ok tot (map_ok G K V) bs (decodeMap G dec K V kvs bs)"
  unfolding decodeMap_def
proof (rule dec_prim_split [OF dec_prims_ok(2)])
  fix l :: u32 and n and err :: "goerror option"
  assume n: "n \<le> length bs" "err = None \<Longrightarrow> 4 dvd n"
  show "dec_ok tot (map_ok G K V) bs (case err of Some e \<Rightarrow> Inr (kvs, n, Some e, drop n bs)
    | None \<Rightarrow> bindG (decode_pairs G dec K V (unat l) kvs (drop n bs)) (\<lambda>(kvs', n2, err2, bs2). Inr (kvs', n + n2, err2, bs2)))"
  proof (cases err)
    case None
    from n(2) [OF None] show ?thesis
      using None by simp (rule dec_ok_then [OF decode_pairs_ok [OF assms] n(1)], auto)
  qed (use assms(7) n in simp)
qed

lemma decodeInterface_ok:
  assumes "env_ok G" and "child_ok G tot d dec" and "has_type G TIface (RIface p)"
    and tot: "\<And>v. tot \<Longrightarrow> p = Some v \<Longrightarrow> plain (type_of v) \<and> tdepth (type_of v) \<le> d"
  shows "dec_ok tot (\<lambda>p'. has_type G TIface (RIface p') \<and> (\<forall>v. p = Some v \<longrightarrow> (\<exists>v'. p' = Some v' \<and> has_type G (type_of v) v')))
    bs (decodeInterface G dec d p bs)"
proof (cases p)
  case (Some v)
  define T where "T = type_of v"
  from assms(3) Some have T: "wf_ty False T" "has_type G T v" by (simp_all add: T_def)
  have keep: "has_type G TIface (RIface (Some w))" if "has_type G T w" for w
    using that T(1) has_type_type_of [OF that] by simp
  show ?thesis
  proof (cases "dindirect G d False v")
    case (Inl c)
    with dindirect_typed [OF assms(1) T, of d False] have "\<not> (plain T \<and> tdepth T \<le> Suc d)" by simp
    with tot [OF _ Some] have "\<not> tot" by (auto simp: T_def)
    with Inl Some show ?thesis by (simp add: decodeInterface_def)
  next
    case (Inr r)
    obtain Ts cs u err where r: "r = (Ts, cs, u, err)" by (cases r)
    with dindirect_typed [OF assms(1) T, of d False] Inr obtain U where U: "wf_ty False U" "has_type G U u"
      and pl: "plain T \<longrightarrow> plain U \<and> tdepth U \<le> tdepth T"
      and wrap: "\<And>u'. has_type G U u' \<Longrightarrow> has_type G T (wrapP Ts u')" by auto
    have "tot \<Longrightarrow> plain U \<and> tdepth U \<le> d" using pl tot [OF _ Some] by (auto simp: T_def)
    then have dec: "dec_ok tot (has_type G U) bs (dec cs u bs)"
      by (rule child_okD [OF assms(2) U])
    define Q where "Q = (\<lambda>p'. has_type G TIface (RIface p') \<and> (\<exists>v'. p' = Some v' \<and> has_type G T v'))"
    have Q: "Q (Some (wrapP Ts u'))" if "has_type G U u'" for u'
      using keep [OF wrap [OF that]] wrap [OF that] by (simp add: Q_def)
    have "dec_ok tot Q bs (bindG (dec cs u bs) (\<lambda>(u', n, err, bs1). Inr (Some (wrapP Ts u'), n, err, bs1)))"
      using dec by (rule dec_ok_bind) (simp add: Q)
    then have "dec_ok tot Q bs (decodeInterface G dec d (Some v) bs)"
      using Q [OF U(2)] by (cases err; cases cs) (simp_all add: decodeInterface_def Inr r)
    then show ?thesis by (simp add: Some Q_def T_def)
  qed
qed (simp add: decodeInterface_def)

lemma setD_ok: "dec_ok tot Q bs m \<Longrightarrow> (\<And>x. Q x \<Longrightarrow> R (c x)) \<Longrightarrow> dec_ok tot R bs (setD c m)"
  unfolding setD_def by (erule dec_ok_bind) auto

lemma storeD_ok: "dec_ok tot Q bs (Inr r) \<Longrightarrow> R v \<Longrightarrow> (\<And>x. R (c x)) \<Longrightarrow> dec_ok tot R bs (storeD v c r)"
  by (cases r) (auto simp: storeD_def)

lemma Overflow_full: "\<not> OverflowInt Int64 x" "\<not> OverflowUint Uint64 x"
  using sint_ge [of x] sint_lt [of x] unsigned_less [of x]
  by (simp_all add: OverflowInt_def OverflowUint_def)

lemma decode_kind_ok:
  assumes "env_ok G" and "child_ok G tot d dec" and "wf_ty False U" and "tot \<Longrightarrow> plain U \<and> tdepth U \<le> Suc d"
    and "has_type G U u" and "\<not> is_ptr u"
  shows "dec_ok tot (has_type G U) bs (decode_kind G lim dec d cs u bs)"
proof (cases u)
  case (RInt k x)
  with assms(5) have U: "U = TInt k" "\<not> OverflowInt k x" by auto
  show ?thesis
  proof (cases "k = Int64")
    case True
    then show ?thesis
      by (auto simp: RInt U decode_kind_def Overflow_full intro!: storeD_ok dec_prims_ok)
  next
    case False
    then show ?thesis unfolding decode_kind_def RInt
      by simp (rule dec_prim_split [OF dec_prims_ok(1)], auto simp: U split: option.split)
  qed
next
  case (RUint k x)
  with assms(5) have U: "U = TUint k" "\<not> OverflowUint k x" by auto
  show ?thesis
  proof (cases "k = Uint64")
    case True
    then show ?thesis
      by (auto simp: RUint U decode_kind_def Overflow_full intro!: storeD_ok dec_prims_ok)
  next
    case False
    then show ?thesis unfolding decode_kind_def RUint
      by simp (rule dec_prim_split [OF dec_prims_ok(2)], auto simp: U split: option.split)
  qed
next
  case (RString s)
  with assms(5) show ?thesis
    by (auto simp: decode_kind_def storeD_def intro!: dec_ok_bind [OF DecodeString_ok] split: option.split)
next
  case (RTime t)
  with assms(5) show ?thesis
    by (auto simp: decode_kind_def intro!: dec_ok_bind [OF DecodeString_ok] split: option.split)
next
  case (RArray E xs)
  with assms(5) have U: "U = TArray (length xs) E" and el: "\<forall>x \<in> set xs. has_type G E x" by auto
  have "dec_ok tot (\<lambda>ys. length ys = length xs \<and> (\<forall>y \<in> set ys. has_type G E y)) bs
      (decodeFixedArray dec cs E xs False bs)"
    using assms(3,4) el unfolding U by (intro decodeFixedArray_ok [OF assms(2)]) auto
  from setD_ok [OF this] show ?thesis by (simp add: RArray decode_kind_def U)
next
  case (RSlice E xs sp)
  with assms(5) have U: "U = TSlice E" by auto
  have "dec_ok tot (slice_ok G E) bs (decodeArray G lim dec E xs sp False bs)"
    using assms(3-5) unfolding U RSlice
    by (intro decodeArray_ok [OF assms(1,2)]) (auto simp: slice_ok_def simp del: has_type.simps)
  then have "dec_ok tot (has_type G U) bs (setD (\<lambda>(ys, sp'). RSlice E ys sp') (decodeArray G lim dec E xs sp False bs))"
    by (rule setD_ok) (auto simp: slice_ok_def U simp del: has_type.simps)
  then show ?thesis by (simp add: RSlice decode_kind_def)
next
  case (RMap K V kvs)
  with assms(5) have U: "U = TMap K V" and kvs: "map_ok G K V kvs" by (auto simp: map_ok_def)
  have "dec_ok tot (map_ok G K V) bs (decodeMap G dec K V kvs bs)"
    using assms(3,4) unfolding U by (intro decodeMap_ok [OF assms(1,2) _ _ _ _ kvs]) auto
  from setD_ok [OF this] show ?thesis by (simp add: RMap decode_kind_def U map_ok_def)
next
  case (RStruct fs)
  with assms(5) obtain fts where U: "U = TStruct fts" and fs: "fields_ok G fts fs"
    by (auto simp: fields_ok_def split: gotype.splits)
  have "tot \<longrightarrow> plain (snd ft) \<and> tdepth (snd ft) \<le> d" if "ft \<in> set fts" for ft
    using assms(4) tdepth_field [OF that] that by (auto simp: U simp del: tdepth.simps)
  with assms(3) have "dec_ok tot (fields_ok G fts) bs (decodeStruct G lim dec d cs fs bs)"
    unfolding decodeStruct_def U by (intro decode_fields_ok [OF assms(1,2) _ fs]) auto
  from setD_ok [OF this] show ?thesis by (simp add: RStruct decode_kind_def U fields_ok_def)
next
  case (RIface p)
  with assms(5) have U: "U = TIface" by simp
  with assms(4) have "\<not> tot" by auto
  from assms(5) RIface U have "has_type G TIface (RIface p)" by simp
  from decodeInterface_ok [OF assms(1,2) this] \<open>\<not> tot\<close>
  have "dec_ok tot (\<lambda>p'. has_type G TIface (RIface p')) bs (decodeInterface G dec d p bs)"
    by (auto intro: dec_ok_weaken)
  then have "dec_ok tot (has_type G U) bs (setD RIface (decodeInterface G dec d p bs))"
    unfolding U by (rule setD_ok)
  then show ?thesis by (simp add: RIface decode_kind_def)
qed (use assms in \<open>auto simp: decode_kind_def intro!: storeD_ok dec_prims_ok DecodeBool_ok\<close>)

lemma decode_ok:
  assumes "env_ok G"
  shows "child_ok G tot d (decode G lim d)"
proof (induction d)
  case 0
  show ?case by (simp add: child_ok_def)
next
  case (Suc d)
  show ?case unfolding child_ok_def
  proof (intro allI impI)
    fix T v cs bs
    assume T: "wf_ty False T" "has_type G T v" and tot: "tot \<longrightarrow> plain T \<and> tdepth T \<le> Suc d"
    show "dec_ok tot (has_type G T) bs (decode G lim (Suc d) cs v bs)"
    proof (cases "dindirect G d cs v")
      case (Inl c)
      with dindirect_typed [OF assms T, of d cs] tot T show ?thesis by auto
    next
      case (Inr r)
      obtain Ts cs' u err where r: "r = (Ts, cs', u, err)" by (cases r)
      with dindirect_typed [OF assms T, of d cs] Inr obtain U where U: "wf_ty False U" "has_type G U u"
        "plain T \<longrightarrow> plain U \<and> tdepth U \<le> tdepth T" "err = None \<longrightarrow> \<not> is_ptr u"
        and wrap: "\<And>u'. has_type G U u' \<Longrightarrow> has_type G T (wrapP Ts u')" by auto
      have v: "v \<noteq> RInvalid" using T(2) by auto
      show ?thesis
      proof (cases err)
        case None
        have "dec_ok tot (has_type G U) bs (decode_kind G lim (decode G lim d) d cs' u bs)"
          using U None tot by (intro decode_kind_ok [OF assms Suc]) auto
        from setD_ok [OF this, of "has_type G T" "wrapP Ts"] show ?thesis using None v wrap by (simp add: Inr r)
      qed (use v wrap [OF U(2)] in \<open>simp add: Inr r\<close>)
    qed
  qed
qed

section \<open>Unmarshal\<close>

lemma Decode_ok:
  assumes "env_ok G" and "wf_ty True T" and "has_type G (TPtr T) v" and "tot \<Longrightarrow> plain T \<and> tdepth T < d"
  shows "dec_ok tot (\<lambda>p. \<exists>v'. p = Some v' \<and> has_type G (TPtr T) v') bs (Decode G lim d (Some v) bs)"
proof -
  from assms(3) obtain q where v: "v = RPtr T q" by (cases v) auto
  show ?thesis
  proof (cases q)
    case (Some u)
    have "dec_ok tot (has_type G (TPtr T)) bs (decode G lim d False v bs)"
      using assms(2,4) by (intro child_okD [OF decode_ok [OF assms(1)] _ assms(3)]) auto
    then show ?thesis unfolding Decode_def v Some by simp (erule dec_ok_bind, auto simp del: has_type.simps)
  qed (use assms v in \<open>simp add: Decode_def\<close>)
qed

text \<open>The arguments and results of the RPC methods are decoded through a pointer to an interface
  that holds a pointer.\<close>

lemma decode_iface_eq:
  "UnmarshalLimited G (Suc (Suc d)) bs (Some (RPtr TIface (Some (RIface p)))) lim =
   bindG (decodeInterface G (decode G lim (Suc d)) (Suc d) p bs)
     (\<lambda>(p', n, err, rest). Inr (Some (RPtr TIface (Some (RIface p'))), n, err, rest))"
  by (cases "decodeInterface G (decode G lim (Suc d)) (Suc d) p bs")
    (auto simp: UnmarshalLimited_def Decode_def dindirect.simps [of G "Suc d"] dindirect.simps [of G d]
      setD_def decode_kind_def)

lemma decode_iface_ok:
  assumes "env_ok G" and "wf_ty True T" and "has_type G (TPtr T) v" and "tot \<Longrightarrow> plain T \<and> tdepth T \<le> d"
  shows "dec_ok tot (\<lambda>p. \<exists>v'. p = Some (RPtr TIface (Some (RIface (Some v')))) \<and> has_type G (TPtr T) v') bs
    (UnmarshalLimited G (Suc (Suc d)) bs (Some (RPtr TIface (Some (RIface (Some v))))) lim)"
proof -
  have ty: "type_of v = TPtr T" by (rule has_type_type_of [OF assms(3)])
  have "dec_ok tot (\<lambda>p'. has_type G TIface (RIface p') \<and>
      (\<forall>w. Some v = Some w \<longrightarrow> (\<exists>v'. p' = Some v' \<and> has_type G (type_of w) v')))
    bs (decodeInterface G (decode G lim (Suc d)) (Suc d) (Some v) bs)"
    using assms(2-4) by (intro decodeInterface_ok [OF assms(1) decode_ok [OF assms(1)]]) (auto simp: ty)
  then show ?thesis unfolding decode_iface_eq by (rule dec_ok_bind) (auto simp: ty)
qed

text \<open>C24: Whatever the bytes are and whether decoding succeeds or stops half-way with an error,
  \<^verbatim>\<open>UnmarshalLimited\<close> leaves a value of the type it was given, and the count it returns is the
  number of bytes it took from the reader: the rest of the input is untouched, and after a success
  the count is a multiple of four.\<close>

theorem UnmarshalLimited_typed:
  assumes "env_ok G" and "wf_ty True T" and "has_type G (TPtr T) v"
    and "UnmarshalLimited G d bs (Some v) lim = Inr (p, n, err, rest)"
  shows "(\<exists>v'. p = Some v' \<and> has_type G (TPtr T) v') \<and>
    n \<le> length bs \<and> rest = drop n bs \<and> (err = None \<longrightarrow> 4 dvd n)"
  using Decode_ok [OF assms(1-3), of False d bs lim] assms(4) by (simp add: UnmarshalLimited_def)

text \<open>A variable-length array of pointers to structures, for the concrete runs below.\<close>

definition sample_type :: gotype where
  "sample_type = TSlice (TPtr (TStruct
     [(\<lparr>exported = True, ftag = []\<rparr>, TUint Uint32),
      (\<lparr>exported = True, ftag = [(''xdr'', ''optional'')]\<rparr>, TPtr TBool)]))"

definition sample_env :: genv where
  "sample_env = \<lparr>named = (\<lambda>n. None), time_Format = (\<lambda>t. ''''), time_Parse = (\<lambda>s. None),
     f32_via_f64 = (\<lambda>x. x), f32_int = (\<lambda>x. 0), f64_int = (\<lambda>x. 0)\<rparr>"

definition sample_target :: rvalue where
  "sample_target = RPtr sample_type (Some (RSlice (TPtr (TStruct
     [(\<lparr>exported = True, ftag = []\<rparr>, TUint Uint32),
      (\<lparr>exported = True, ftag = [(''xdr'', ''optional'')]\<rparr>, TPtr TBool)])) [] []))"

lemma sample_ok:
  "env_ok sample_env" "wf_ty True sample_type" "has_type sample_env (TPtr sample_type) sample_target"
  "plain sample_type" "tdepth sample_type = 5"
  by (simp_all add: env_ok_def sample_env_def sample_type_def sample_target_def resolve_def maxl_def)

lemma UnmarshalLimited_typed_witness:
  "\<exists>p n err rest. UnmarshalLimited sample_env 9 [0, 0, 0, 1, 0, 0] (Some sample_target) 100 = Inr (p, n, err, rest) \<and>
     n \<le> 6 \<and> rest = drop n [0, 0, 0, 1, 0, 0]"
proof -
  obtain p n err rest where
    r: "UnmarshalLimited sample_env 9 [0, 0, 0, 1, 0, 0] (Some sample_target) 100 = Inr (p, n, err, rest)"
    using Decode_ok [OF sample_ok(1-3), of True 9 "[0, 0, 0, 1, 0, 0]" 100] sample_ok(4,5)
    by (auto simp: UnmarshalLimited_def elim: dec_okE)
  from UnmarshalLimited_typed [OF sample_ok(1-3) r] r show ?thesis by simp
qed

text \<open>C15: \<^verbatim>\<open>UnmarshalLimited\<close> of a type without interfaces and recursive names returns on every
  input, with a success or an error value: hostile bytes cannot make the decoder panic or recurse
  without bound.\<close>

theorem UnmarshalLimited_returns:
  assumes "env_ok G" and "wf_ty True T" and "has_type G (TPtr T) v" and "plain T" and "tdepth T < d"
  shows "\<exists>v' n err rest. UnmarshalLimited G d bs (Some v) lim = Inr (Some v', n, err, rest)"
  using Decode_ok [OF assms(1-3), of True d bs lim] assms(4,5)
  by (auto simp: UnmarshalLimited_def elim: dec_okE)

lemma UnmarshalLimited_returns_witness:
  "\<exists>v' n err rest. UnmarshalLimited sample_env 9 [255, 255, 255, 255] (Some sample_target) 0 = Inr (Some v', n, err, rest)"
  by (rule UnmarshalLimited_returns [OF sample_ok(1-4)]) (simp add: sample_ok)

end
