(* ===== verification/Xdr_Roundtrip.thy ===== *)
theory Xdr_Roundtrip
  imports Xdr_Safety
begin

text \<open>
  Decoding what the encoder wrote gives the value back.  \<open>sendable\<close> says which values XDR can
  carry with this code (lengths, the 32-bit \<^verbatim>\<open>int\<close>, union arms), and \<open>canon\<close> is the value
  the decoder rebuilds: the arms of a union that were not sent and the unexported fields are zero,
  and slices have no spare capacity.
\<close>

definition rt :: "(bytes \<Rightarrow> bytes eres go) \<Rightarrow> (bytes \<Rightarrow> 'a dres go) \<Rightarrow> 'a \<Rightarrow> bool" where
  "rt f g x \<longleftrightarrow> (\<forall>w n w'. f w = Inr (n, None, w') \<longrightarrow>
     (\<exists>b. w' = w @ b \<and> length b = n \<and> (\<forall>rest. g (b @ rest) = Inr (x, n, None, rest))))"

lemma rtI:
  "(\<And>w n w'. f w = Inr (n, None, w') \<Longrightarrow>
     \<exists>b. w' = w @ b \<and> length b = n \<and> (\<forall>rest. g (b @ rest) = Inr (x, n, None, rest))) \<Longrightarrow> rt f g x"
  unfolding rt_def by blast

lemma rtE:
  assumes "rt f g x" and "f w = Inr (n, None, w')"
  obtains b where "w' = w @ b" "length b = n" "\<And>rest. g (b @ rest) = Inr (x, n, None, rest)"
  using assms unfolding rt_def by blast

lemma seqE_ok:
  "seqE m f = Inr (n, None, w') \<longleftrightarrow>
     (\<exists>n1 w1 n2. m = Inr (n1, None, w1) \<and> f w1 = Inr (n2, None, w') \<and> n = n1 + n2)"
  unfolding seqE_Inr by auto

section \<open>Primitives\<close>

lemma write_all_buffer: "write_all buffer_write fname b w = Inr (length b, None, w @ b)"
  by (simp add: write_all_def writeE_def buffer_write_def)

lemma signed_bytes:
  "[ucast (signed_drop_bit 24 v), ucast (signed_drop_bit 16 v), ucast (signed_drop_bit 8 v), ucast v] = be32 (v :: 32 word)"
  unfolding be32_def by (auto intro!: bit_word_eqI simp: bit_simps)

lemma signed_bytes64:
  "[ucast (signed_drop_bit 56 v), ucast (signed_drop_bit 48 v), ucast (signed_drop_bit 40 v),
      ucast (signed_drop_bit 32 v), ucast (signed_drop_bit 24 v), ucast (signed_drop_bit 16 v),
      ucast (signed_drop_bit 8 v), ucast v] = be64 (v :: 64 word)"
  unfolding be64_def by (auto intro!: bit_word_eqI simp: bit_simps)

lemma Encode_buffer:
  "EncodeInt buffer_write v w = Inr (4, None, w @ be32 v)"
  "EncodeUint buffer_write v w = Inr (4, None, w @ be32 v)"
  "EncodeHyper buffer_write v' w = Inr (8, None, w @ be64 v')"
  "EncodeUhyper buffer_write v' w = Inr (8, None, w @ be64 v')"
  "EncodeBool buffer_write b w = Inr (4, None, w @ be32 (if b then 1 else 0))"
  "EncodeFloat buffer_write v w = Inr (4, None, w @ be32 v)"
  "EncodeDouble buffer_write v' w = Inr (8, None, w @ be64 v')"
  unfolding EncodeInt_def EncodeHyper_def signed_bytes signed_bytes64 EncodeBool_def Let_def
    EncodeFloat_def EncodeDouble_def EncodeUint_def EncodeUhyper_def write_all_buffer
  by (simp_all add: be32_def be64_def)

lemma readD_append: "length b = k \<Longrightarrow> readD fname k dflt conv (b @ rest) = (conv b, k, None, rest)"
  by (simp add: readD_def)

lemma Decode_append:
  "DecodeInt (be32 v @ rest) = (v, 4, None, rest)"
  "DecodeUint (be32 v @ rest) = (v, 4, None, rest)"
  "DecodeHyper (be64 v' @ rest) = (v', 8, None, rest)"
  "DecodeUhyper (be64 v' @ rest) = (v', 8, None, rest)"
  "DecodeFloat (be32 v @ rest) = (v, 4, None, rest)"
  "DecodeDouble (be64 v' @ rest) = (v', 8, None, rest)"
  by (simp_all add: DecodeInt_def DecodeUint_def DecodeHyper_def DecodeUhyper_def DecodeFloat_def
      DecodeDouble_def readD_append)

lemma DecodeBool_append: "DecodeBool (be32 (if b then 1 else 0) @ rest) = (b, 4, None, rest)"
  by (simp add: DecodeBool_def Decode_append)

text \<open>The longest sequence \<^verbatim>\<open>DecodeFixedOpaque\<close> accepts: its padded size must not exceed
  \<^verbatim>\<open>MaxInt32\<close>.\<close>

definition len_ok :: "nat \<Rightarrow> nat \<Rightarrow> bool" where
  "len_ok lim k \<longleftrightarrow> k \<le> 2147483644 \<and> (lim = 0 \<or> k \<le> lim)"

lemma EncodeFixedOpaque_buffer:
  "EncodeFixedOpaque buffer_write v w =
     Inr (pad_len (length v), None, w @ v @ replicate (pad_len (length v) - length v) 0)"
  by (simp add: EncodeFixedOpaque_def Let_def seqE_def write_all_buffer writeE_def buffer_write_def
      doneE_def pad_len_def)

lemma pad_len_le: "k \<le> 2147483644 \<Longrightarrow> pad_len k \<le> 2147483644"
proof -
  assume "k \<le> 2147483644"
  moreover have "pad_len k < k + 4" "4 dvd pad_len k" by (rule pad_len_bounds)+
  ultimately show ?thesis by (auto simp: dvd_def)
qed

lemma DecodeFixedOpaque_append:
  assumes "length v \<le> 2147483644"
  shows "DecodeFixedOpaque (of_nat (length v)) (v @ replicate (pad_len (length v) - length v) 0 @ rest) =
    Inr (v, pad_len (length v), None, rest)"
proof -
  define k where "k = pad_len (length v)"
  have u: "unat (of_nat (length v) :: u32) = length v" using assms by (simp add: unat_of_nat)
  have k: "\<not> MaxInt32 < k" "length v \<le> k"
    using pad_len_le [OF assms] pad_len_bounds(1) [of "length v"] by (simp_all add: k_def MaxInt32_def)
  have len: "length (v @ replicate (k - length v) 0) = k" using k(2) by simp
  have "DecodeFixedOpaque (of_nat (length v)) ((v @ replicate (k - length v) 0) @ rest) = Inr (v, k, None, rest)"
    using k assms len
    by (subst DecodeFixedOpaque_nonneg) (simp_all add: u k_def [symmetric] Let_def ReadFull_append del: append_assoc,
        auto simp: k_def)
  then show ?thesis by (simp add: k_def)
qed

lemma rt_fixed_opaque:
  "length v \<le> 2147483644 \<Longrightarrow>
     rt (EncodeFixedOpaque buffer_write v) (DecodeFixedOpaque (of_nat (length v))) v"
  using pad_len_bounds(1) [of "length v"]
  by (intro rtI exI [of _ "v @ replicate (pad_len (length v) - length v) 0"])
    (auto simp: EncodeFixedOpaque_buffer DecodeFixedOpaque_append)

lemma len_ok_word: "len_ok lim k \<Longrightarrow> unat (of_nat k :: u32) = k \<and> \<not> too_long lim (of_nat k)"
  by (auto simp: len_ok_def too_long_def MaxInt32_def unat_of_nat)

text \<open>A length in front.\<close>

lemma rt_length:
  assumes "rt f g x" and "\<And>bs y n2 rest. g bs = Inr (y, n2, None, rest) \<Longrightarrow>
      h (be32 l @ bs) = Inr (c y, 4 + n2, None, rest)"
  shows "rt (\<lambda>w. seqE (EncodeUint buffer_write l w) f) h (c x)"
proof (rule rtI)
  fix w n w' assume "seqE (EncodeUint buffer_write l w) f = Inr (n, None, w')"
  then obtain n2 where f: "f (w @ be32 l) = Inr (n2, None, w')" and n: "n = 4 + n2"
    by (auto simp: seqE_ok Encode_buffer)
  from rtE [OF assms(1) f] obtain b where b: "w' = (w @ be32 l) @ b" "length b = n2"
    "\<And>rest. g (b @ rest) = Inr (x, n2, None, rest)" by blast
  then show "\<exists>b. w' = w @ b \<and> length b = n \<and> (\<forall>rest. h (b @ rest) = Inr (c x, n, None, rest))"
    by (intro exI [of _ "be32 l @ b"]) (simp add: n assms(2))
qed

lemma rt_string: "len_ok lim (length s) \<Longrightarrow> rt (EncodeString buffer_write s) (DecodeString lim) s"
proof -
  assume l: "len_ok lim (length s)"
  then have "rt (EncodeFixedOpaque buffer_write (string_bytes s)) (DecodeFixedOpaque (of_nat (length s))) (string_bytes s)"
    using rt_fixed_opaque [of "string_bytes s"] by (simp add: len_ok_def)
  then have "rt (EncodeString buffer_write s) (DecodeString lim) (bytes_string (string_bytes s))"
    unfolding EncodeString_def [abs_def]
    by (rule rt_length) (simp add: DecodeString_def Decode_append len_ok_word [OF l])
  then show ?thesis by simp
qed

section \<open>What can be sent and what comes back\<close>

text \<open>\<open>c\<close> stands for the recursive call on a field's value.\<close>

definition case_tagged :: "xdrtag \<Rightarrow> bool" where
  "case_tagged tag \<longleftrightarrow> tag_Get tag ''unionnotcase'' \<noteq> '''' \<or> tag_Get tag ''unioncase'' \<noteq> ''''"

text \<open>The field value the decoder rebuilds and the discriminant the next fields see; \<open>seq_field\<close> is
  a byte sequence the tag asks to send element by element.\<close>

definition seq_field :: "xdrtag \<Rightarrow> rvalue \<Rightarrow> bool" where
  "seq_field tag u \<longleftrightarrow> tag_Get tag ''opaque'' = ''false'' \<and>
     (case u of RSlice E xs sp \<Rightarrow> True | RArray E xs \<Rightarrow> True | _ \<Rightarrow> False)"

definition field_val :: "(rvalue \<Rightarrow> rvalue) \<Rightarrow> xdrtag \<Rightarrow> string \<Rightarrow> rvalue \<Rightarrow> rvalue" where
  "field_val c tag disc vf =
     (if \<not> seq_field tag (indirect vf) \<and> skip_case tag disc then zero (type_of vf) else c vf)"

definition field_disc :: "genv \<Rightarrow> xdrtag \<Rightarrow> string \<Rightarrow> rvalue \<Rightarrow> string" where
  "field_disc G tag disc u =
     (if \<not> seq_field tag u \<and> tag_Get tag ''union'' = ''true''
      then (case discriminant G u of Inr (Some s) \<Rightarrow> s | _ \<Rightarrow> disc) else disc)"

fun canon_fields :: "genv \<Rightarrow> (rvalue \<Rightarrow> rvalue) \<Rightarrow> string \<Rightarrow> (fieldinfo \<times> rvalue) list \<Rightarrow> (fieldinfo \<times> rvalue) list" where
  "canon_fields G c disc [] = []"
| "canon_fields G c disc ((fi, vf) # fs) =
     (let tag = parseTag (ftag fi); u = indirect vf in
      if \<not> exported fi then (fi, zero (type_of vf)) # canon_fields G c disc fs
      else if tag_Get tag ''optional'' = ''true'' \<and> u = RInvalid then (fi, vf) # canon_fields G c disc fs
      else (fi, field_val c tag disc vf) # canon_fields G c (field_disc G tag disc u) fs)"

lemma canon_fields_cong [fundef_cong]:
  "fs = fs' \<Longrightarrow> (\<And>fv. fv \<in> set fs' \<Longrightarrow> c (snd fv) = c' (snd fv)) \<Longrightarrow>
     canon_fields G c disc fs = canon_fields G c' disc fs'"
proof (induction fs arbitrary: fs' disc)
  case (Cons fv fs)
  obtain fi vf where fv: "fv = (fi, vf)" by (cases fv)
  have fs': "fs' = (fi, vf) # fs" using Cons.prems(1) by (simp add: fv)
  have "c vf = c' vf" using Cons.prems(2) [of fv] by (simp add: fv fs')
  moreover have "canon_fields G c disc fs = canon_fields G c' disc fs" for disc
    by (rule Cons.IH [OF refl]) (use Cons.prems(2) in \<open>simp add: fs'\<close>)
  ultimately show ?case by (simp add: fv fs' Let_def field_val_def)
qed simp

fun canon :: "genv \<Rightarrow> rvalue \<Rightarrow> rvalue" where
  "canon G (RArray E xs) = RArray E (map (canon G) xs)"
| "canon G (RSlice E xs sp) = RSlice E (map (canon G) xs) []"
| "canon G (RPtr T p) = RPtr T (map_option (canon G) p)"
| "canon G (RMap K V kvs) = RMap K V (map (\<lambda>kv. (canon G (fst kv), canon G (snd kv))) kvs)"
| "canon G (RStruct fs) = RStruct (canon_fields G (canon G) '''' fs)"
| "canon G v = v"

text \<open>
  An optional field is a pointer whose target is no nil pointer; a union arm is not a pointer and
  is no discriminant itself.
\<close>

definition field_ok :: "fieldinfo \<times> rvalue \<Rightarrow> bool" where
  "field_ok fv \<longleftrightarrow>
     (let tag = parseTag (ftag (fst fv)) in
      (case_tagged tag \<longrightarrow> \<not> is_ptr (snd fv) \<and> tag_Get tag ''union'' \<noteq> ''true'') \<and>
      (tag_Get tag ''optional'' = ''true'' \<longrightarrow> (case snd fv of RPtr T (Some u) \<Rightarrow> \<not> nil_below u | _ \<Rightarrow> True)))"

fun sendable :: "genv \<Rightarrow> nat \<Rightarrow> rvalue \<Rightarrow> bool" where
  "sendable G lim (RInt k x) = (k = IntP \<longrightarrow> - (2 ^ 31) \<le> sint x \<and> sint x < 2 ^ 31)"
| "sendable G lim (RUint k x) = (k = UintP \<longrightarrow> unat x < 2 ^ 32)"
| "sendable G lim (RFloat32 x) = (f32_via_f64 G (f32_via_f64 G x) = x)"
| "sendable G lim (RString s) = len_ok lim (length s)"
| "sendable G lim (RTime t) =
     (time_Parse G (time_Format G t) = Some t \<and> len_ok lim (length (time_Format G t)))"
| "sendable G lim (RArray E xs) = (length xs \<le> 2147483644 \<and> (\<forall>x \<in> set xs. sendable G lim x))"
| "sendable G lim (RSlice E xs sp) = (len_ok lim (length xs) \<and> (\<forall>x \<in> set xs. sendable G lim x))"
| "sendable G lim (RPtr T p) = (case p of None \<Rightarrow> True | Some u \<Rightarrow> sendable G lim u)"
| "sendable G lim (RMap K V kvs) =
     (length kvs < 2 ^ 32 \<and> distinct (map (\<lambda>kv. canon G (fst kv)) kvs) \<and>
      (\<forall>kv \<in> set kvs. sendable G lim (fst kv) \<and> sendable G lim (snd kv)))"
| "sendable G lim (RStruct fs) =
     (\<forall>fv \<in> set fs. exported (fst fv) \<longrightarrow> field_ok fv \<and> sendable G lim (snd fv))"
| "sendable G lim (RIface p) = (p = None)"
| "sendable G lim v = True"

section \<open>Elements\<close>

text \<open>\<open>rtc k enc dec\<close>: the round trip of all values of depth at most \<open>k\<close>.\<close>

definition rtc :: "genv \<Rightarrow> nat \<Rightarrow> nat \<Rightarrow> (rvalue \<Rightarrow> bytes \<Rightarrow> bytes eres go) \<Rightarrow> decoder \<Rightarrow> bool" where
  "rtc G lim k enc dec \<longleftrightarrow> (\<forall>T x. vdepth x \<le> k \<longrightarrow> wf_ty False T \<longrightarrow> has_type G T x \<longrightarrow> sendable G lim x \<longrightarrow>
     rt (enc x) (dec True (zero T)) (canon G x))"

lemma rtcD:
  "rtc G lim k enc dec \<Longrightarrow> vdepth x \<le> k \<Longrightarrow> wf_ty False T \<Longrightarrow> has_type G T x \<Longrightarrow> sendable G lim x \<Longrightarrow>
     rt (enc x) (dec True (zero T)) (canon G x)"
  by (simp add: rtc_def)

lemma rt_elems:
  assumes "rtc G lim k enc dec" and "wf_ty False T"
  shows "\<forall>x \<in> set xs. vdepth x \<le> k \<and> has_type G T x \<and> sendable G lim x \<Longrightarrow>
    rt (encode_elems enc xs) (decode_elems (dec True) (replicate (length xs) (zero T))) (map (canon G) xs)"
proof (induction xs)
  case Nil
  show ?case by (rule rtI) (simp add: doneE_def)
next
  case (Cons x xs)
  show ?case
  proof (rule rtI)
    fix w n w' assume "encode_elems enc (x # xs) w = Inr (n, None, w')"
    then obtain n1 w1 n2 where e: "enc x w = Inr (n1, None, w1)" "encode_elems enc xs w1 = Inr (n2, None, w')" "n = n1 + n2"
      by (auto simp: seqE_ok)
    have "rt (enc x) (dec True (zero T)) (canon G x)"
      using Cons.prems by (intro rtcD [OF assms(1) _ assms(2)]) auto
    from rtE [OF this e(1)] obtain b1 where b1: "w1 = w @ b1" "length b1 = n1"
      "\<And>rest. dec True (zero T) (b1 @ rest) = Inr (canon G x, n1, None, rest)" by blast
    from Cons have "rt (encode_elems enc xs) (decode_elems (dec True) (replicate (length xs) (zero T))) (map (canon G) xs)"
      by simp
    from rtE [OF this e(2)] obtain b2 where "w' = w1 @ b2" "length b2 = n2"
      "\<And>rest. decode_elems (dec True) (replicate (length xs) (zero T)) (b2 @ rest) = Inr (map (canon G) xs, n2, None, rest)"
      by blast
    with b1 e(3) show "\<exists>b. w' = w @ b \<and> length b = n \<and> (\<forall>rest.
        decode_elems (dec True) (replicate (length (x # xs)) (zero T)) (b @ rest) = Inr (map (canon G) (x # xs), n, None, rest))"
      by (intro exI [of _ "b1 @ b2"]) simp
  qed
qed

lemma byte_values: "\<forall>x \<in> set xs. has_type G (TUint Uint8) x \<Longrightarrow> map rbyte (map byte_of xs) = xs"
proof (induction xs)
  case (Cons x xs)
  then obtain y where x: "x = RUint Uint8 y" "unat y < 256"
    by (cases x) (auto simp: OverflowUint_def)
  have "unat (ucast (ucast y :: byte) :: u64) = unat y"
    using x(2) by (simp add: unsigned_ucast_eq unsigned_take_bit_eq take_bit_nat_eq_self)
  then have "ucast (ucast y :: byte) = y" by (rule unsigned_word_eqI)
  with Cons x(1) show ?case by (simp add: rbyte_def)
qed simp

lemma byte_canon: "\<forall>x \<in> set xs. has_type G (TUint Uint8) x \<Longrightarrow> map (canon G) xs = xs"
proof (induction xs)
  case (Cons x xs)
  then show ?case by (cases x) auto
qed simp

lemma rt_fixed_array:
  assumes "rtc G lim k enc dec" and "wf_ty False E" and "length xs \<le> 2147483644"
    and xs: "\<forall>x \<in> set xs. vdepth x \<le> k \<and> has_type G E x \<and> sendable G lim x"
  shows "rt (encodeFixedArray buffer_write enc E xs io)
    (decodeFixedArray dec True E (replicate (length xs) (zero E)) io) (map (canon G) xs)"
proof (cases "\<not> io \<and> E = TUint Uint8")
  case True
  with xs have ty: "\<forall>x \<in> set xs. has_type G (TUint Uint8) x" by auto
  have "rt (EncodeFixedOpaque buffer_write (map byte_of xs)) (DecodeFixedOpaque (of_nat (length xs))) (map byte_of xs)"
    using rt_fixed_opaque [of "map byte_of xs"] assms(3) by simp
  then have "rt (EncodeFixedOpaque buffer_write (map byte_of xs))
     (decodeFixedArray dec True E (replicate (length xs) (zero E)) io) xs"
    unfolding rt_def decodeFixedArray_def using True byte_values [OF ty] by fastforce
  moreover have "encodeFixedArray buffer_write enc E xs io = EncodeFixedOpaque buffer_write (map byte_of xs)"
    by (rule ext) (use True in \<open>simp add: encodeFixedArray_def\<close>)
  ultimately show ?thesis by (simp add: byte_canon [OF ty])
next
  case False
  have "encodeFixedArray buffer_write enc E xs io = encode_elems enc xs"
    "decodeFixedArray dec True E (replicate (length xs) (zero E)) io = decode_elems (dec True) (replicate (length xs) (zero E))"
    by (rule ext, use False in \<open>auto simp: encodeFixedArray_def decodeFixedArray_def\<close>)+
  with rt_elems [OF assms(1,2) xs] show ?thesis by simp
qed

lemma decodeArray_fresh:
  assumes "len_ok lim k"
  shows "decodeArray G lim dec E [] [] io (be32 (of_nat k) @ bs) =
    (if \<not> io \<and> E = TUint Uint8 then
       bindG (DecodeFixedOpaque (of_nat k) bs) (\<lambda>(data, n2, err2, bs2).
         (case err2 of
            Some e \<Rightarrow> Inr ((replicate k (newval G E), []), 4 + n2, Some e, bs2)
          | None \<Rightarrow> Inr ((map rbyte data, []), 4 + n2, None, bs2)))
     else
       bindG (decode_elems (dec True) (replicate k (newval G E)) bs) (\<lambda>(zs, n2, err2, bs2).
         Inr ((zs, []), 4 + n2, err2, bs2)))"
proof -
  have r: "resize G E k [] [] = (replicate k (newval G E), [])" by (simp add: resize_def)
  from len_ok_word [OF assms] show ?thesis
    unfolding decodeArray_def by (simp add: Decode_append r)
qed

lemma rt_array:
  assumes "env_ok G" and "rtc G lim k enc dec" and "wf_ty True E" and l: "len_ok lim (length xs)"
    and xs: "\<forall>x \<in> set xs. vdepth x \<le> k \<and> has_type G (resolve G E) x \<and> sendable G lim x"
  shows "rt (encodeArray buffer_write enc E xs io) (decodeArray G lim dec E [] [] io) (map (canon G) xs, [])"
proof -
  have len: "length xs \<le> 2147483644" using l by (simp add: len_ok_def)
  have "rt (encodeFixedArray buffer_write enc E xs io)
     (\<lambda>bs. if \<not> io \<and> E = TUint Uint8
           then bindG (DecodeFixedOpaque (of_nat (length xs)) bs) (\<lambda>(data, r). Inr (map rbyte data, r))
           else decode_elems (dec True) (replicate (length xs) (newval G E)) bs) (map (canon G) xs)"
  proof (cases "\<not> io \<and> E = TUint Uint8")
    case True
    with xs have ty: "\<forall>x \<in> set xs. has_type G (TUint Uint8) x" by (auto simp: resolve_def)
    have "rt (EncodeFixedOpaque buffer_write (map byte_of xs)) (DecodeFixedOpaque (of_nat (length xs))) (map byte_of xs)"
      using rt_fixed_opaque [of "map byte_of xs"] len by simp
    then have "rt (EncodeFixedOpaque buffer_write (map byte_of xs))
       (\<lambda>bs. bindG (DecodeFixedOpaque (of_nat (length xs)) bs) (\<lambda>(data, r). Inr (map rbyte data, r))) xs"
      unfolding rt_def using byte_values [OF ty] by fastforce
    with True show ?thesis by (simp add: encodeFixedArray_def [abs_def] byte_canon [OF ty])
  next
    case False
    have e: "encodeFixedArray buffer_write enc E xs io = encode_elems enc xs"
      by (rule ext) (use False in \<open>auto simp: encodeFixedArray_def\<close>)
    have "rt (encode_elems enc xs) (decode_elems (dec True) (replicate (length xs) (newval G E))) (map (canon G) xs)"
      unfolding newval_def by (rule rt_elems [OF assms(2) resolve_wf [OF assms(1,3)] xs])
    with False show ?thesis unfolding e by (simp only: if_False)
  qed
  then show ?thesis unfolding encodeArray_def [abs_def]
    by (rule rt_length [where c = "\<lambda>ys. (ys, [])"])
      (auto simp: decodeArray_fresh [OF l] bindG_eq_Inr split: if_splits)
qed

section \<open>Maps\<close>

lemma SetMapIndex_new: "k \<notin> fst ` set kvs \<Longrightarrow> SetMapIndex kvs k v = kvs @ [(k, v)]"
  by (induction kvs) auto

lemma rt_pairs:
  assumes "env_ok G" and "rtc G lim m enc dec" and "wf_ty True K" and "wf_ty True V"
  shows "\<forall>kv \<in> set kvs. vdepth (fst kv) \<le> m \<and> vdepth (snd kv) \<le> m \<and> has_type G (resolve G K) (fst kv) \<and>
       has_type G (resolve G V) (snd kv) \<and> sendable G lim (fst kv) \<and> sendable G lim (snd kv) \<Longrightarrow>
     distinct (map fst acc @ map (\<lambda>kv. canon G (fst kv)) kvs) \<Longrightarrow>
     rt (encode_pairs enc kvs) (decode_pairs G dec K V (length kvs) acc)
       (acc @ map (\<lambda>kv. (canon G (fst kv), canon G (snd kv))) kvs)"
proof (induction kvs arbitrary: acc)
  case Nil
  show ?case by (rule rtI) (simp add: doneE_def)
next
  case (Cons kv kvs)
  define k v where "k = canon G (fst kv)" and "v = canon G (snd kv)"
  have new: "SetMapIndex acc k v = acc @ [(k, v)]"
    using Cons.prems(2) by (intro SetMapIndex_new) (auto simp: k_def)
  have key: "rt (enc (fst kv)) (dec True (newval G K)) k"
    unfolding newval_def k_def using Cons.prems by (intro rtcD [OF assms(2) _ resolve_wf [OF assms(1,3)]]) auto
  have val: "rt (enc (snd kv)) (dec True (newval G V)) v"
    unfolding newval_def v_def using Cons.prems by (intro rtcD [OF assms(2) _ resolve_wf [OF assms(1,4)]]) auto
  have tl: "rt (encode_pairs enc kvs) (decode_pairs G dec K V (length kvs) (acc @ [(k, v)]))
     ((acc @ [(k, v)]) @ map (\<lambda>kv. (canon G (fst kv), canon G (snd kv))) kvs)"
    using Cons.prems by (intro Cons.IH) (auto simp: k_def)
  show ?case
  proof (rule rtI)
    fix w n w' assume "encode_pairs enc (kv # kvs) w = Inr (n, None, w')"
    then obtain n1 w1 n2 w2 n3 where e: "enc (fst kv) w = Inr (n1, None, w1)" "enc (snd kv) w1 = Inr (n2, None, w2)"
      "encode_pairs enc kvs w2 = Inr (n3, None, w')" "n = n1 + (n2 + n3)"
      by (auto simp: seqE_ok)
    from rtE [OF key e(1)] obtain b1 where b1: "w1 = w @ b1" "length b1 = n1"
      "\<And>rest. dec True (newval G K) (b1 @ rest) = Inr (k, n1, None, rest)" by blast
    from rtE [OF val e(2)] obtain b2 where b2: "w2 = w1 @ b2" "length b2 = n2"
      "\<And>rest. dec True (newval G V) (b2 @ rest) = Inr (v, n2, None, rest)" by blast
    from rtE [OF tl e(3)] obtain b3 where b3: "w' = w2 @ b3" "length b3 = n3"
      "\<And>rest. decode_pairs G dec K V (length kvs) (acc @ [(k, v)]) (b3 @ rest) =
         Inr ((acc @ [(k, v)]) @ map (\<lambda>kv. (canon G (fst kv), canon G (snd kv))) kvs, n3, None, rest)" by blast
    from b1 b2 b3 e(4) new show "\<exists>b. w' = w @ b \<and> length b = n \<and> (\<forall>rest.
        decode_pairs G dec K V (length (kv # kvs)) acc (b @ rest) =
        Inr (acc @ map (\<lambda>kv. (canon G (fst kv), canon G (snd kv))) (kv # kvs), n, None, rest))"
      by (intro exI [of _ "b1 @ b2 @ b3"]) (simp add: k_def [symmetric] v_def [symmetric])
  qed
qed

lemma rt_map:
  assumes "env_ok G" and "rtc G lim m enc dec" and "wf_ty True K" and "wf_ty True V"
    and "\<forall>kv \<in> set kvs. vdepth (fst kv) \<le> m \<and> vdepth (snd kv) \<le> m \<and> has_type G (resolve G K) (fst kv) \<and>
       has_type G (resolve G V) (snd kv) \<and> sendable G lim (fst kv) \<and> sendable G lim (snd kv)"
    and "distinct (map (\<lambda>kv. canon G (fst kv)) kvs)" and "length kvs < 2 ^ 32"
  shows "rt (encodeMap buffer_write enc kvs) (decodeMap G dec K V [])
       (map (\<lambda>kv. (canon G (fst kv), canon G (snd kv))) kvs)"
proof -
  have u: "unat (of_nat (length kvs) :: u32) = length kvs" using assms(7) by (simp add: unat_of_nat)
  have "rt (encode_pairs enc kvs) (decode_pairs G dec K V (length kvs) [])
       (map (\<lambda>kv. (canon G (fst kv), canon G (snd kv))) kvs)"
    using rt_pairs [OF assms(1-5), of "[]"] assms(6) by simp
  from rt_length [OF this, where c = "\<lambda>x. x" and h = "decodeMap G dec K V []" and l = "of_nat (length kvs)"]
  show ?thesis unfolding encodeMap_def [abs_def] by (simp add: decodeMap_def Decode_append u)
qed

section \<open>Structures\<close>

lemma indirect_not_ptr: "\<not> is_ptr (indirect v)"
  by (induction v rule: indirect.induct) simp_all

lemma indirect_id: "\<not> is_ptr v \<Longrightarrow> indirect v = v"
  by (cases v) simp_all

lemma sendable_indirect: "sendable G lim v \<Longrightarrow> sendable G lim (indirect v)"
  by (induction v rule: indirect.induct) simp_all

lemma indirect_invalid: "has_type G T v \<Longrightarrow> indirect v = RInvalid \<longleftrightarrow> nil_below v"
proof (induction v arbitrary: T rule: indirect.induct)
  case (1 E v)
  then show ?case by auto
qed auto

text \<open>The decoder rebuilds the chain of pointers the encoder followed.\<close>

lemma dindirect_scalar:
  "has_type G T v \<Longrightarrow> \<not> is_ptr v \<Longrightarrow> dindirect G d True (zero T) = Inr ([], True, zero T, None)"
  by (cases v) (auto simp: dindirect.simps [of G d] split: gotype.splits)

lemma dindirect_zero_scalar:
  "wf_ty False T \<Longrightarrow> has_type G T v \<Longrightarrow> \<not> is_ptr v \<Longrightarrow>
    \<exists>Ts U. dindirect G d True (zero T) = Inr (Ts, True, zero U, None) \<and> wf_ty False U \<and>
      has_type G U (indirect v) \<and> canon G v = wrapP Ts (canon G (indirect v)) \<and>
      (\<not> is_ptr v \<longrightarrow> Ts = [] \<and> U = T)"
  using dindirect_scalar [of G T v d] by (intro exI [of _ "[]"] exI [of _ T]) (simp add: indirect_id)

lemma dindirect_zero:
  assumes "env_ok G"
  shows "wf_ty False T \<Longrightarrow> has_type G T v \<Longrightarrow> indirect v \<noteq> RInvalid \<Longrightarrow> vdepth v \<le> Suc d \<Longrightarrow>
    \<exists>Ts U. dindirect G d True (zero T) = Inr (Ts, True, zero U, None) \<and> wf_ty False U \<and>
      has_type G U (indirect v) \<and> canon G v = wrapP Ts (canon G (indirect v)) \<and>
      (\<not> is_ptr v \<longrightarrow> Ts = [] \<and> U = T)"
proof (induction v arbitrary: T d rule: indirect.induct)
  case (1 E v)
  then obtain d' where d: "d = Suc d'" by (cases d) (use vdepth_pos [of v] in auto)
  from 1 have T: "T = TPtr E" and E: "wf_ty False (resolve G E)" and v: "has_type G (resolve G E) v"
    using assms by (auto simp: resolve_wf)
  from 1(1) [OF E v, of d'] 1(4,5) d obtain Ts U where U: "dindirect G d' True (zero (resolve G E)) = Inr (Ts, True, zero U, None)"
    "wf_ty False U" "has_type G U (indirect v)" "canon G v = wrapP Ts (canon G (indirect v))" by auto
  have "dindirect G d True (zero T) = Inr (E # Ts, True, zero U, None)"
    using U(1) by (simp add: T d dindirect.simps [of G "Suc d'"] newval_def)
  with U(2-4) show ?case by (intro exI [of _ "E # Ts"] exI [of _ U]) simp
next
  case (2 E)
  then show ?case by simp
qed (rule dindirect_zero_scalar, assumption, assumption, simp)+

lemma discriminant_scalar: "discriminant G u = Inr (Some s) \<Longrightarrow> canon G u = u"
  by (cases u) simp_all

lemma skip_case_tagged: "\<not> case_tagged tag \<Longrightarrow> \<not> skip_case tag disc"
  by (simp add: case_tagged_def skip_case_def)

lemma rt_field:
  assumes G: "env_ok G" and enc: "rtc G lim k enc dec" and kd: "k \<le> d" and T: "wf_ty False T" "has_type G T vf"
    and vf: "sendable G lim vf" "vdepth vf \<le> k"
    and tag: "case_tagged tag \<Longrightarrow> \<not> is_ptr vf \<and> tag_Get tag ''union'' \<noteq> ''true''"
    and bad: "\<And>w n w'. enc RInvalid w \<noteq> Inr (n, None, w')"
    and e: "encode_field G buffer_write enc tag disc (indirect vf) cont w = Inr (n, None, w')"
  shows "\<exists>b n2. cont (field_disc G tag disc (indirect vf)) (w @ b) = Inr (n2, None, w') \<and> n = length b + n2 \<and>
     (\<forall>rest. decode_field G lim dec d True tag disc (zero T) (b @ rest) =
        Inr (field_val (canon G) tag disc vf, length b, None, rest, field_disc G tag disc (indirect vf)))"
proof -
  define u where "u = indirect vf"
  have "u \<noteq> RInvalid"
  proof
    assume u: "u = RInvalid"
    then have "is_ptr vf" using T by (cases vf) (auto simp: u_def)
    then have "\<not> skip_case tag disc'" for disc' using tag skip_case_tagged by blast
    with e bad show False
      by (auto simp: u_def [symmetric] u encode_field_def encode_member_def seqE_ok bindG_eq_Inr split: if_splits)
  qed
  then obtain Ts U where dz: "dindirect G d True (zero T) = Inr (Ts, True, zero U, None)"
    and U: "wf_ty False U" "has_type G U u" and canon: "canon G vf = wrapP Ts (canon G u)"
    and np: "\<not> is_ptr vf \<Longrightarrow> Ts = [] \<and> U = T"
    using dindirect_zero [OF G T, of d] vf(2) kd unfolding u_def by auto
  have su: "sendable G lim u" unfolding u_def by (rule sendable_indirect [OF vf(1)])
  have du: "vdepth u \<le> k" unfolding u_def using vdepth_indirect [of vf] vf(2) by simp
  have d1: "decode_field G lim dec d True tag disc (zero T) bs =
      bindG (if tag_Get tag ''opaque'' = ''false'' then
              (case zero U of
                 RSlice E xs sp \<Rightarrow> bindG (decodeArray G lim dec E xs sp True bs)
                     (\<lambda>((ys, sp'), n, err, bs1). Inr (RSlice E ys sp', n, err, bs1, disc))
               | RArray E xs \<Rightarrow> bindG (decodeFixedArray dec True E xs True bs)
                     (\<lambda>(ys, n, err, bs1). Inr (RArray E ys, n, err, bs1, disc))
               | _ \<Rightarrow> decode_member G dec True tag disc (zero U) bs)
            else decode_member G dec True tag disc (zero U) bs)
         (\<lambda>(u', n, err, bs1, disc'). Inr (wrapP Ts u', n, err, bs1, disc'))" for bs
    by (simp add: decode_field_def dz)
  show ?thesis unfolding u_def [symmetric]
  proof (cases "seq_field tag u")
    case True
    then consider (slice) E xs sp where "u = RSlice E xs sp" | (arr) E xs where "u = RArray E xs"
      by (auto simp: seq_field_def split: rvalue.splits)
    then have "\<exists>b n2. cont disc (w @ b) = Inr (n2, None, w') \<and> n = length b + n2 \<and>
       (\<forall>rest. decode_field G lim dec d True tag disc (zero T) (b @ rest) = Inr (canon G vf, length b, None, rest, disc))"
    proof cases
      case slice
      from U slice have UE: "U = TSlice E" "wf_ty True E" and xs: "\<forall>x \<in> set xs. has_type G (resolve G E) x" by auto
      from e True slice obtain n1 w1 n2 where e1: "encodeArray buffer_write enc E xs True w = Inr (n1, None, w1)"
        "cont disc w1 = Inr (n2, None, w')" "n = n1 + n2"
        by (auto simp: encode_field_def u_def [symmetric] seq_field_def seqE_ok)
      have "\<forall>x \<in> set xs. vdepth x \<le> k \<and> has_type G (resolve G E) x \<and> sendable G lim x" "len_ok lim (length xs)"
        using xs su order.trans [OF less_imp_le [OF vdepth_children(2)] du [unfolded slice]]
        unfolding slice by (simp_all del: vdepth.simps)
      from rtE [OF rt_array [OF G enc UE(2) this(2,1), of True] e1(1)] obtain b where b: "w1 = w @ b" "length b = n1"
        "\<And>rest. decodeArray G lim dec E [] [] True (b @ rest) = Inr ((map (canon G) xs, []), n1, None, rest)"
        by blast
      with e1 True show ?thesis
        by (intro exI [of _ b] exI [of _ n2]) (simp add: d1 UE(1) canon slice seq_field_def)
    next
      case arr
      from U arr have UE: "U = TArray (length xs) E" "wf_ty False E" and xs: "\<forall>x \<in> set xs. has_type G E x" by auto
      from e True arr obtain n1 w1 n2 where e1: "encodeFixedArray buffer_write enc E xs True w = Inr (n1, None, w1)"
        "cont disc w1 = Inr (n2, None, w')" "n = n1 + n2"
        by (auto simp: encode_field_def u_def [symmetric] seq_field_def seqE_ok)
      have "\<forall>x \<in> set xs. vdepth x \<le> k \<and> has_type G E x \<and> sendable G lim x" "length xs \<le> 2147483644"
        using xs su order.trans [OF less_imp_le [OF vdepth_children(1)] du [unfolded arr]]
        unfolding arr by (simp_all del: vdepth.simps)
      from rtE [OF rt_fixed_array [OF enc UE(2) this(2,1), of True] e1(1)] obtain b where b: "w1 = w @ b" "length b = n1"
        "\<And>rest. decodeFixedArray dec True E (replicate (length xs) (zero E)) True (b @ rest) =
           Inr (map (canon G) xs, n1, None, rest)"
        by blast
      with e1 True show ?thesis
        by (intro exI [of _ b] exI [of _ n2]) (simp add: d1 UE(1) canon arr seq_field_def)
    qed
    with True show "\<exists>b n2. cont (field_disc G tag disc u) (w @ b) = Inr (n2, None, w') \<and> n = length b + n2 \<and>
     (\<forall>rest. decode_field G lim dec d True tag disc (zero T) (b @ rest) =
        Inr (field_val (canon G) tag disc vf, length b, None, rest, field_disc G tag disc u))"
      by (simp add: field_disc_def field_val_def u_def)
  next
    case False
    define D where "D = (if tag_Get tag ''union'' = ''true'' then discriminant G u else Inr (Some disc))"
    have z: "\<not> seq_field tag (zero U)"
      using False U(2) by (cases u) (auto simp: seq_field_def split: gotype.splits)
    have dm: "decode_field G lim dec d True tag disc (zero T) bs =
        bindG (decode_member G dec True tag disc (zero U) bs) (\<lambda>(u', n, err, bs1, disc'). Inr (wrapP Ts u', n, err, bs1, disc'))" for bs
      using z unfolding d1 seq_field_def by (cases "zero U") auto
    have em: "encode_field G buffer_write enc tag disc u cont w = encode_member G enc tag disc u cont w"
      using False unfolding encode_field_def seq_field_def by (cases u) auto
    with e obtain s where s: "D = Inr (Some s)" and
      e2: "(if skip_case tag s then cont s w else seqE (enc u w) (cont s)) = Inr (n, None, w')"
      unfolding u_def [symmetric] encode_member_def D_def [symmetric]
      by (auto simp: bindG_eq_Inr failE_def split: option.splits)
    have fd: "field_disc G tag disc u = s"
      using s False by (auto simp: field_disc_def D_def split: if_splits)
    show "\<exists>b n2. cont (field_disc G tag disc u) (w @ b) = Inr (n2, None, w') \<and> n = length b + n2 \<and>
     (\<forall>rest. decode_field G lim dec d True tag disc (zero T) (b @ rest) =
        Inr (field_val (canon G) tag disc vf, length b, None, rest, field_disc G tag disc u))"
    proof (cases "skip_case tag s")
      case True
      then have ct: "case_tagged tag" using skip_case_tagged by blast
      with tag s have sd: "s = disc" and nv: "\<not> is_ptr vf" by (auto simp: D_def)
      have "field_val (canon G) tag disc vf = zero T"
        using True False has_type_type_of [OF T(2)] by (simp add: field_val_def u_def sd)
      with True e2 np [OF nv] show ?thesis
        by (intro exI [of _ "[]"] exI [of _ n]) (simp add: fd dm decode_member_def sd)
    next
      case notskip: False
      with e2 obtain n1 w1 n2 where e3: "enc u w = Inr (n1, None, w1)" "cont s w1 = Inr (n2, None, w')" "n = n1 + n2"
        by (auto simp: seqE_ok)
      from rtE [OF rtcD [OF enc du U su] e3(1)] obtain b where b: "w1 = w @ b" "length b = n1"
        "\<And>rest. dec True (zero U) (b @ rest) = Inr (canon G u, n1, None, rest)" by blast
      have ns: "\<not> skip_case tag disc"
        using notskip tag s skip_case_tagged by (cases "case_tagged tag") (auto simp: D_def)
      have fv: "field_val (canon G) tag disc vf = wrapP Ts (canon G u)"
        using ns canon by (simp add: field_val_def)
      have "decode_member G dec True tag disc (zero U) (b @ rest) = Inr (canon G u, n1, None, rest, s)" for rest
      proof (cases "tag_Get tag ''union'' = ''true''")
        case True
        with s have "discriminant G u = Inr (Some s)" by (simp add: D_def)
        with discriminant_scalar [OF this] True show ?thesis by (simp add: decode_member_def ns b(3))
      qed (use s notskip in \<open>simp add: decode_member_def ns b(3) D_def\<close>)
      with e3 b show ?thesis by (intro exI [of _ b] exI [of _ n2]) (simp add: fd dm fv)
    qed
  qed
qed

lemma rt_fields:
  assumes G: "env_ok G" and enc: "rtc G lim k enc dec" and kd: "k \<le> d" and bad: "\<And>w n w'. enc RInvalid w \<noteq> Inr (n, None, w')"
  shows "\<forall>ft \<in> set fts. wf_ty False (snd ft) \<Longrightarrow> fields_ok G fts fs \<Longrightarrow>
     \<forall>fv \<in> set fs. vdepth (snd fv) \<le> k \<and> (exported (fst fv) \<longrightarrow> field_ok fv \<and> sendable G lim (snd fv)) \<Longrightarrow>
     rt (encode_fields G buffer_write enc disc fs)
        (decode_fields G lim dec d True disc (map (map_prod id zero) fts)) (canon_fields G (canon G) disc fs)"
proof (induction fs arbitrary: fts disc)
  case Nil
  then show ?case by (auto simp: fields_ok_def doneE_def intro!: rtI)
next
  case (Cons fv fs)
  obtain fi vf where fv: "fv = (fi, vf)" by (cases fv)
  from Cons.prems(2) obtain T fts' where fts: "fts = (fi, T) # fts'" and vf: "has_type G T vf"
    and fs: "fields_ok G fts' fs"
    unfolding fv fields_ok_Cons by blast
  define zs where "zs = map (map_prod id zero) fts'"
  define tag where "tag = parseTag (ftag fi)"
  define u where "u = indirect vf"
  have zt: "zero (type_of vf) = zero T" using has_type_type_of [OF vf] by simp
  have T: "wf_ty False T" using Cons.prems(1) by (simp add: fts)
  have IH: "rt (encode_fields G buffer_write enc disc fs) (decode_fields G lim dec d True disc zs) (canon_fields G (canon G) disc fs)" for disc
    unfolding zs_def using Cons.prems by (intro Cons.IH [OF _ fs]) (auto simp: fts)
  have zs: "map (map_prod id zero) fts = (fi, zero T) # zs" by (simp add: fts zs_def)
  have step: "\<exists>b. w' = w @ b \<and> length b = n \<and> (\<forall>rest.
      bindG (decode_field G lim dec d True tag disc (zero T) (b @ rest)) (\<lambda>(vf', n, err, bs1, disc').
              (case err of
                 Some e \<Rightarrow> Inr ((fi, vf') # zs, n0 + n, Some e, bs1)
               | None \<Rightarrow> bindG (decode_fields G lim dec d True disc' zs bs1)
                   (\<lambda>(fs', n2, err2, bs2). Inr ((fi, vf') # fs', n0 + n + n2, err2, bs2)))) =
      Inr ((fi, field_val (canon G) tag disc vf) # canon_fields G (canon G) (field_disc G tag disc u) fs, n0 + n, None, rest))"
    if ex: "exported fi" and e: "encode_field G buffer_write enc tag disc u (\<lambda>disc. encode_fields G buffer_write enc disc fs) w = Inr (n, None, w')"
    for w n w' n0
  proof -
    from Cons.prems(3) ex have ok: "field_ok fv" "sendable G lim vf" "vdepth vf \<le> k" by (auto simp: fv)
    have "\<exists>b n2. encode_fields G buffer_write enc (field_disc G tag disc (indirect vf)) fs (w @ b) = Inr (n2, None, w') \<and> n = length b + n2 \<and>
     (\<forall>rest. decode_field G lim dec d True tag disc (zero T) (b @ rest) =
        Inr (field_val (canon G) tag disc vf, length b, None, rest, field_disc G tag disc (indirect vf)))"
      using ok(1) e
      by (intro rt_field [OF G enc kd T vf ok(2,3) _ bad]) (auto simp: field_ok_def Let_def fv tag_def [symmetric] u_def)
    then obtain b1 n2 where b1: "encode_fields G buffer_write enc (field_disc G tag disc u) fs (w @ b1) = Inr (n2, None, w')"
      "n = length b1 + n2" "\<And>rest. decode_field G lim dec d True tag disc (zero T) (b1 @ rest) =
        Inr (field_val (canon G) tag disc vf, length b1, None, rest, field_disc G tag disc u)" unfolding u_def by blast
    from rtE [OF IH b1(1)] obtain b2 where "w' = (w @ b1) @ b2" "length b2 = n2"
      "\<And>rest. decode_fields G lim dec d True (field_disc G tag disc u) zs (b2 @ rest) =
         Inr (canon_fields G (canon G) (field_disc G tag disc u) fs, n2, None, rest)" by blast
    with b1 show ?thesis by (intro exI [of _ "b1 @ b2"]) simp
  qed
  show ?case
  proof (rule rtI)
    fix w n w' assume e: "encode_fields G buffer_write enc disc (fv # fs) w = Inr (n, None, w')"
    show "\<exists>b. w' = w @ b \<and> length b = n \<and> (\<forall>rest.
        decode_fields G lim dec d True disc (map (map_prod id zero) fts) (b @ rest) =
        Inr (canon_fields G (canon G) disc (fv # fs), n, None, rest))"
    proof (cases "exported fi")
      case False
      with e have "encode_fields G buffer_write enc disc fs w = Inr (n, None, w')" by (simp add: fv)
      from rtE [OF IH this] obtain b where "w' = w @ b" "length b = n"
        "\<And>rest. decode_fields G lim dec d True disc zs (b @ rest) = Inr (canon_fields G (canon G) disc fs, n, None, rest)"
        by blast
      with False show ?thesis by (intro exI [of _ b]) (simp add: fv zs zt Let_def)
    next
      case ex: True
      show ?thesis
      proof (cases "tag_Get tag ''optional'' = ''true''")
        case False
        with e ex have "encode_field G buffer_write enc tag disc u (\<lambda>disc. encode_fields G buffer_write enc disc fs) w = Inr (n, None, w')"
          by (simp add: fv tag_def u_def Let_def)
        from step [OF ex this, of 0] False ex show ?thesis
          by (simp add: fv zs tag_def [symmetric] u_def [symmetric] Let_def)
      next
        case opt: True
        with e ex obtain E p where p: "vf = RPtr E p"
          by (cases vf) (auto simp: fv tag_def failE_def Let_def)
        then have zT: "zero T = RPtr E None" using vf by simp
        have dB: "DecodeBool (be32 (if b then 1 else 0) @ rest) = (b, 4, None, rest)" for b rest
          by (rule DecodeBool_append)
        show ?thesis
        proof (cases p)
          case None
          from e ex opt obtain n2 where "encode_fields G buffer_write enc disc fs (w @ be32 0) = Inr (n2, None, w')" "n = 4 + n2"
            by (auto simp: fv p None tag_def [symmetric] Let_def seqE_ok Encode_buffer)
          moreover from rtE [OF IH this(1)] obtain b where "w' = (w @ be32 0) @ b" "length b = n2"
            "\<And>rest. decode_fields G lim dec d True disc zs (b @ rest) = Inr (canon_fields G (canon G) disc fs, n2, None, rest)"
            by blast
          ultimately show ?thesis
            using ex opt dB [of False]
            by (intro exI [of _ "be32 0 @ b"]) (simp add: fv zs zT p None tag_def [symmetric] Let_def)
        next
          case (Some v)
          from e ex opt obtain n2 where e2: "encode_field G buffer_write enc tag disc u (\<lambda>disc. encode_fields G buffer_write enc disc fs) (w @ be32 1) = Inr (n2, None, w')" "n = 4 + n2"
            by (auto simp: fv p Some u_def tag_def [symmetric] Let_def seqE_ok Encode_buffer)
          have "\<not> nil_below v" using Cons.prems(3) ex opt by (auto simp: fv p Some field_ok_def Let_def tag_def)
          then have nz: "u \<noteq> RInvalid" unfolding u_def p Some using vf by (auto simp: p Some indirect_invalid)
          from step [OF ex e2(1), of 4] obtain b where b: "w' = (w @ be32 1) @ b" "length b = n2"
            "\<And>rest. bindG (decode_field G lim dec d True tag disc (zero T) (b @ rest)) (\<lambda>(vf', n, err, bs1, disc').
              (case err of
                 Some e \<Rightarrow> Inr ((fi, vf') # zs, 4 + n, Some e, bs1)
               | None \<Rightarrow> bindG (decode_fields G lim dec d True disc' zs bs1)
                   (\<lambda>(fs', n2, err2, bs2). Inr ((fi, vf') # fs', 4 + n + n2, err2, bs2)))) =
      Inr ((fi, field_val (canon G) tag disc vf) # canon_fields G (canon G) (field_disc G tag disc u) fs, 4 + n2, None, rest)"
            by blast
          then show ?thesis
            using ex opt nz e2(2) dB [of True]
            by (intro exI [of _ "be32 1 @ b"])
              (simp add: fv zs zT tag_def [symmetric] u_def [symmetric] Let_def)
        qed
      qed
    qed
  qed
qed

section \<open>Every kind\<close>

lemma int_word:
  fixes x :: u64
  assumes "- (2 ^ 31) \<le> sint x" and "sint x < 2 ^ 31"
  shows "scast (ucast x :: u32) = x"
proof -
  have "uint (ucast x :: u32) = take_bit 32 (uint x)" by (simp add: unsigned_ucast_eq)
  also have "uint x = take_bit 64 (sint x)" using uint_sint [of x] by simp
  finally have "sint (ucast x :: u32) = signed_take_bit 31 (take_bit 32 (take_bit 64 (sint x)))"
    by (simp add: sint_uint [of "ucast x :: u32"])
  also have "\<dots> = sint x" using assms by (simp add: signed_take_bit_take_bit signed_take_bit_int_eq_self)
  finally have "sint (ucast x :: u32) = sint x" .
  then show ?thesis by (simp add: scast_eq)
qed

lemma uint_word:
  fixes x :: u64
  assumes "unat x < 2 ^ 32"
  shows "ucast (ucast x :: u32) = x"
proof -
  have "unat (ucast (ucast x :: u32) :: u64) = unat x"
    using assms by (simp add: unsigned_ucast_eq unsigned_take_bit_eq take_bit_nat_eq_self)
  then show ?thesis by (rule unsigned_word_eqI)
qed

lemma int_range: "\<not> OverflowInt k x \<Longrightarrow> k \<noteq> Int64 \<Longrightarrow> (k = IntP \<longrightarrow> - (2 ^ 31) \<le> sint x \<and> sint x < 2 ^ 31) \<Longrightarrow>
    - (2 ^ 31) \<le> sint x \<and> sint x < 2 ^ 31"
  by (cases k) (auto simp: OverflowInt_def)

lemma uint_range: "\<not> OverflowUint k x \<Longrightarrow> k \<noteq> Uint64 \<Longrightarrow> (k = UintP \<longrightarrow> unat x < 2 ^ 32) \<Longrightarrow> unat x < 2 ^ 32"
  by (cases k) (auto simp: OverflowUint_def)

lemma rt_scalar: "(\<And>w. f w = Inr (length b, None, w @ b)) \<Longrightarrow> (\<And>rest. g (b @ rest) = Inr (x, length b, None, rest)) \<Longrightarrow> rt f g x"
  by (rule rtI) auto

lemma rt_kind:
  assumes G: "env_ok G" and enc: "rtc G lim k enc dec" and kd: "k \<le> d" and bad: "\<And>w n w'. enc RInvalid w \<noteq> Inr (n, None, w')"
    and U: "wf_ty False U" "has_type G U u" and u: "sendable G lim u" "vdepth u \<le> Suc k" "\<not> is_ptr u"
  shows "rt (encode_kind G buffer_write enc u) (decode_kind G lim dec d True (zero U)) (canon G u)"
proof (cases u)
  case (RInt ik x)
  with U have UT: "U = TInt ik" "\<not> OverflowInt ik x" by auto
  show ?thesis
  proof (cases "ik = Int64")
    case True
    then show ?thesis
      by (intro rt_scalar [where b = "be64 x"]) (simp_all add: RInt UT encode_kind_def decode_kind_def Encode_buffer Decode_append storeD_def)
  next
    case False
    then have "scast (ucast x :: u32) = x" using UT u by (intro int_word) (auto dest: int_range simp: RInt)
    with False UT show ?thesis
      by (intro rt_scalar [where b = "be32 (ucast x)"]) (simp_all add: RInt encode_kind_def decode_kind_def Encode_buffer Decode_append)
  qed
next
  case (RUint ik x)
  with U have UT: "U = TUint ik" "\<not> OverflowUint ik x" by auto
  show ?thesis
  proof (cases "ik = Uint64")
    case True
    then show ?thesis
      by (intro rt_scalar [where b = "be64 x"]) (simp_all add: RUint UT encode_kind_def decode_kind_def Encode_buffer Decode_append storeD_def)
  next
    case False
    then have "ucast (ucast x :: u32) = x" using UT u by (intro uint_word) (auto dest: uint_range simp: RUint)
    with False UT show ?thesis
      by (intro rt_scalar [where b = "be32 (ucast x)"]) (simp_all add: RUint encode_kind_def decode_kind_def Encode_buffer Decode_append)
  qed
next
  case (RBool b)
  with U show ?thesis
    by (intro rt_scalar [where b = "be32 (if b then 1 else 0)"])
      (simp_all only: encode_kind_def decode_kind_def rvalue.case Encode_buffer DecodeBool_append storeD_def length_be
        has_type.simps zero.simps canon.simps prod.case if_True refl)
next
  case (RFloat32 x)
  with U u show ?thesis
    by (intro rt_scalar [where b = "be32 (f32_via_f64 G x)"])
      (simp_all add: encode_kind_def decode_kind_def Encode_buffer Decode_append storeD_def)
next
  case (RFloat64 x)
  with U u show ?thesis
    by (intro rt_scalar [where b = "be64 x"])
      (simp_all add: encode_kind_def decode_kind_def Encode_buffer Decode_append storeD_def)
next
  case (RString s)
  with U u have UT: "U = TString" and s: "rt (EncodeString buffer_write s) (DecodeString lim) s" by (auto simp: rt_string)
  then show ?thesis
    by (intro rtI) (auto simp: RString encode_kind_def decode_kind_def storeD_def elim!: rtE [OF s])
next
  case (RTime t)
  with U u have UT: "U = TTime" and s: "rt (EncodeString buffer_write (time_Format G t)) (DecodeString lim) (time_Format G t)"
    and t: "time_Parse G (time_Format G t) = Some t" by (auto simp: rt_string)
  then show ?thesis
    by (intro rtI) (auto simp: RTime encode_kind_def decode_kind_def storeD_def elim!: rtE [OF s])
next
  case (RArray E xs)
  from U RArray have UT: "U = TArray (length xs) E" "wf_ty False E" and xs: "\<forall>x \<in> set xs. has_type G E x" by auto
  have sub: "vdepth x \<le> k" if "x \<in> set xs" for x
    using vdepth_children(1) [OF that, of E] u(2) unfolding RArray by linarith
  have "\<forall>x \<in> set xs. vdepth x \<le> k \<and> has_type G E x \<and> sendable G lim x" "length xs \<le> 2147483644"
    using xs u(1) sub by (simp_all add: RArray)
  from rt_fixed_array [OF enc UT(2) this(2,1), of False] show ?thesis
    by (rule_tac rtI, elim rtE) (auto simp: RArray UT encode_kind_def decode_kind_def setD_def)
next
  case (RSlice E xs sp)
  from U RSlice have UT: "U = TSlice E" "wf_ty True E" and xs: "\<forall>x \<in> set xs. has_type G (resolve G E) x" by auto
  have sub: "vdepth x \<le> k" if "x \<in> set xs" for x
    using vdepth_children(2) [OF that, of E sp] u(2) unfolding RSlice by linarith
  have "\<forall>x \<in> set xs. vdepth x \<le> k \<and> has_type G (resolve G E) x \<and> sendable G lim x" "len_ok lim (length xs)"
    using xs u(1) sub by (simp_all add: RSlice)
  from rt_array [OF G enc UT(2) this(2,1), of False] show ?thesis
    by (rule_tac rtI, elim rtE) (auto simp: RSlice UT encode_kind_def decode_kind_def setD_def)
next
  case (RMap K V kvs)
  from U RMap have UT: "U = TMap K V" "wf_ty True K" "wf_ty True V"
    and kvs: "\<forall>kv \<in> set kvs. has_type G (resolve G K) (fst kv) \<and> has_type G (resolve G V) (snd kv)" by auto
  have sub: "vdepth (fst kv) \<le> k \<and> vdepth (snd kv) \<le> k" if "kv \<in> set kvs" for kv
    using vdepth_children(3) [OF that, of K V] u(2) unfolding RMap by linarith
  have "\<forall>kv \<in> set kvs. vdepth (fst kv) \<le> k \<and> vdepth (snd kv) \<le> k \<and> has_type G (resolve G K) (fst kv) \<and>
       has_type G (resolve G V) (snd kv) \<and> sendable G lim (fst kv) \<and> sendable G lim (snd kv)"
    "distinct (map (\<lambda>kv. canon G (fst kv)) kvs)" "length kvs < 2 ^ 32"
    using kvs u(1) sub by (simp_all add: RMap)
  from rt_map [OF G enc UT(2,3) this] show ?thesis
    by (rule_tac rtI, elim rtE) (auto simp: RMap UT encode_kind_def decode_kind_def setD_def)
next
  case (RStruct fs)
  with U obtain fts where UT: "U = TStruct fts" "\<forall>ft \<in> set fts. wf_ty False (snd ft)" and fs: "fields_ok G fts fs"
    by (auto simp: fields_ok_def split: gotype.splits)
  have sub: "vdepth (snd fv) \<le> k" if "fv \<in> set fs" for fv
    using vdepth_children(4) [OF that] u(2) unfolding RStruct by linarith
  have "\<forall>fv \<in> set fs. vdepth (snd fv) \<le> k \<and> (exported (fst fv) \<longrightarrow> field_ok fv \<and> sendable G lim (snd fv))"
    using u(1) sub by (simp add: RStruct)
  from rt_fields [OF G enc kd bad UT(2) fs this, of "''''"] show ?thesis
    by (rule_tac rtI, elim rtE) (auto simp: RStruct UT encode_kind_def decode_kind_def encodeStruct_def decodeStruct_def setD_def)
next
  case (RIface p)
  with u show ?thesis by (auto simp: encode_kind_def encodeInterface_def failE_def intro!: rtI)
qed (use U u in \<open>auto simp: encode_kind_def failE_def intro!: rtI\<close>)

lemma encode_invalid: "encode G wr d RInvalid w \<noteq> Inr (n, None, w')"
  by (cases d) (simp_all add: failE_def)

lemma rt_encode:
  assumes G: "env_ok G"
  shows "rtc G lim (min de dd) (encode G buffer_write de) (decode G lim dd)"
proof (induction de arbitrary: dd)
  case 0
  show ?case by (auto simp: rtc_def intro!: rtI)
next
  case (Suc de)
  show ?case unfolding rtc_def
  proof (intro allI impI)
    fix T v assume v: "vdepth v \<le> min (Suc de) dd" and T: "wf_ty False T" "has_type G T v" and s: "sendable G lim v"
    obtain d where dd: "dd = Suc d" using v vdepth_pos [of v] by (cases dd) auto
    define u where "u = indirect v"
    have vi: "v \<noteq> RInvalid" using T(2) by auto
    have IH: "rtc G lim (min de d) (encode G buffer_write de) (decode G lim d)" by (rule Suc.IH)
    show "rt (encode G buffer_write (Suc de) v) (decode G lim dd True (zero T)) (canon G v)"
    proof (cases "u = RInvalid")
      case True
      with vi show ?thesis by (auto simp: u_def encode_kind_def intro!: rtI)
    next
      case False
      obtain Ts U where dz: "dindirect G d True (zero T) = Inr (Ts, True, zero U, None)"
        and U: "wf_ty False U" "has_type G U u" and canon: "canon G v = wrapP Ts (canon G u)"
        using dindirect_zero [OF G T, of d] v False unfolding u_def dd by fastforce
      have zi: "zero T \<noteq> RInvalid" using zero_typed [OF T(1), of G] by auto
      have "rt (encode_kind G buffer_write (encode G buffer_write de) u)
          (decode_kind G lim (decode G lim d) d True (zero U)) (canon G u)"
        using v vdepth_indirect [of v] sendable_indirect [OF s] indirect_not_ptr [of v]
        by (intro rt_kind [OF G IH _ encode_invalid U]) (simp_all add: u_def dd)
      then show ?thesis
        by (intro rtI, elim rtE) (auto simp: dd dz zi vi u_def [symmetric] setD_def canon)
    qed
  qed
qed

section \<open>Marshal and Unmarshal\<close>

lemma indirect_idem: "indirect (indirect v) = indirect v"
  by (rule indirect_id) (rule indirect_not_ptr)

lemma Marshal_success:
  assumes "Marshal G buffer_write w (Some p) = Inr (n, None, w')" and p: "p = v \<or> p = RPtr T (Some v)"
  shows "\<exists>e. vdepth v \<le> Suc e \<and> indirect v \<noteq> RInvalid \<and>
    encode_kind G buffer_write (encode G buffer_write e) (indirect v) w = Inr (n, None, w')"
proof -
  have i: "indirect p = indirect v" and d: "vdepth v \<le> vdepth p" using p by auto
  obtain e where e: "vdepth p = Suc e" using vdepth_pos [of p] by (cases "vdepth p") auto
  from assms(1) have "encode G buffer_write (Suc e) (indirect v) w = Inr (n, None, w')"
    unfolding Marshal_def Encode_def e [symmetric] by (auto simp: failE_def i split: if_splits)
  then show ?thesis using d by (intro exI [of _ e]) (auto simp: indirect_idem e failE_def split: if_splits)
qed

lemma kind_rt:
  assumes G: "env_ok G" and T: "wf_ty True T" and v: "has_type G (resolve G T) v" "sendable G lim v"
    and e: "vdepth v \<le> Suc e" "indirect v \<noteq> RInvalid"
      "encode_kind G buffer_write (encode G buffer_write e) (indirect v) w = Inr (n, None, w')"
    and d: "vdepth v \<le> Suc d"
  shows "\<exists>b Ts U. w' = w @ b \<and> length b = n \<and>
    dindirect G d True (newval G T) = Inr (Ts, True, zero U, None) \<and> wf_ty False U \<and> has_type G U (indirect v) \<and>
    canon G v = wrapP Ts (canon G (indirect v)) \<and>
    (\<forall>d' rest. vdepth v \<le> Suc d' \<longrightarrow> decode_kind G lim (decode G lim d') d' True (zero U) (b @ rest) =
       Inr (canon G (indirect v), n, None, rest))"
proof -
  have wf: "wf_ty False (resolve G T)" by (rule resolve_wf [OF G T])
  obtain Ts U where dz: "dindirect G d True (newval G T) = Inr (Ts, True, zero U, None)"
    and U: "wf_ty False U" "has_type G U (indirect v)" and canon: "canon G v = wrapP Ts (canon G (indirect v))"
    using dindirect_zero [OF G wf v(1) e(2) d] unfolding newval_def by blast
  have "rt (encode_kind G buffer_write (encode G buffer_write e) (indirect v))
      (decode_kind G lim (decode G lim d') d' True (zero U)) (canon G (indirect v))" if "vdepth v \<le> Suc d'" for d'
    using vdepth_indirect [of v] e(1) that
    by (intro rt_kind [OF G rt_encode [OF G, where de = e and dd = d'] _ encode_invalid U
          sendable_indirect [OF v(2)] _ indirect_not_ptr]) auto
  then have *: "\<exists>b. w' = w @ b \<and> length b = n \<and>
    (\<forall>rest. decode_kind G lim (decode G lim d') d' True (zero U) (b @ rest) = Inr (canon G (indirect v), n, None, rest))"
    if "vdepth v \<le> Suc d'" for d' using that e(3) unfolding rt_def by blast
  from * [OF d] obtain b where "w' = w @ b" "length b = n" by blast
  with * have "decode_kind G lim (decode G lim d') d' True (zero U) (b @ rest) = Inr (canon G (indirect v), n, None, rest)"
    if "vdepth v \<le> Suc d'" for d' rest using that by blast
  with dz U canon \<open>w' = w @ b\<close> \<open>length b = n\<close> show ?thesis by blast
qed

lemma Marshal_rt:
  assumes G: "env_ok G" and T: "wf_ty True T" and v: "has_type G (resolve G T) v" "sendable G lim v"
    and m: "Marshal G buffer_write w (Some p) = Inr (n, None, w')" and p: "p = v \<or> p = RPtr T (Some v)"
    and d: "vdepth v < d"
  shows "\<exists>b. w' = w @ b \<and> length b = n \<and>
    UnmarshalLimited G d (b @ rest) (Some (RPtr T (Some (newval G T)))) lim =
      Inr (Some (RPtr T (Some (canon G v))), n, None, rest)"
proof -
  from Marshal_success [OF m p] obtain e where e: "vdepth v \<le> Suc e" "indirect v \<noteq> RInvalid"
    "encode_kind G buffer_write (encode G buffer_write e) (indirect v) w = Inr (n, None, w')" by blast
  obtain d' where d': "d = Suc (Suc d')" "vdepth v \<le> Suc d'" using d vdepth_pos [of v]
    by (cases d; cases "d - 1") auto
  from kind_rt [OF G T v e d'(2)] obtain b Ts U where b: "w' = w @ b" "length b = n"
    and dz: "dindirect G d' True (newval G T) = Inr (Ts, True, zero U, None)"
    and canon: "canon G v = wrapP Ts (canon G (indirect v))"
    and k: "\<forall>d' rest. vdepth v \<le> Suc d' \<longrightarrow> decode_kind G lim (decode G lim d') d' True (zero U) (b @ rest) =
       Inr (canon G (indirect v), n, None, rest)" by blast
  have "dindirect G (Suc d') False (RPtr T (Some (newval G T))) = Inr (T # Ts, True, zero U, None)"
    using dz by (simp add: dindirect.simps [of G "Suc d'"])
  moreover have "vdepth v \<le> Suc (Suc d')" using d'(2) by simp
  ultimately show ?thesis
    using b k by (intro exI [of _ b]) (simp add: UnmarshalLimited_def Decode_def d'(1) setD_def canon)
qed

lemma iface_rt:
  assumes G: "env_ok G" and T: "wf_ty True T" and v: "has_type G (resolve G T) v" "sendable G lim v"
    and e: "vdepth v \<le> Suc e" "indirect v \<noteq> RInvalid"
      "encode_kind G buffer_write (encode G buffer_write e) (indirect v) w = Inr (n, None, w')"
    and d: "vdepth v \<le> Suc d"
  shows "\<exists>b. w' = w @ b \<and> length b = n \<and> (\<forall>rest.
    UnmarshalLimited G (Suc (Suc (Suc d))) (b @ rest) (Some (RPtr TIface (Some (RIface (Some (RPtr T (Some (newval G T)))))))) lim =
      Inr (Some (RPtr TIface (Some (RIface (Some (RPtr T (Some (canon G v))))))), n, None, rest))"
proof -
  from d have d1: "vdepth v \<le> Suc (Suc d)" by simp
  from kind_rt [OF G T v e d1] obtain b Ts U where b: "w' = w @ b" "length b = n"
    "dindirect G (Suc d) True (newval G T) = Inr (Ts, True, zero U, None)"
    and U: "wf_ty False U" "has_type G U (indirect v)"
    and c: "canon G v = wrapP Ts (canon G (indirect v))"
      "\<forall>d' rest. vdepth v \<le> Suc d' \<longrightarrow> decode_kind G lim (decode G lim d') d' True (zero U) (b @ rest) =
       Inr (canon G (indirect v), n, None, rest)" by blast
  have di: "dindirect G (Suc (Suc d)) False (RPtr T (Some (newval G T))) = Inr (T # Ts, True, zero U, None)"
    using b(3) by (simp add: dindirect.simps [of G "Suc (Suc d)"])
  have sc: "dindirect G k True (zero U) = Inr ([], True, zero U, None)" for k
    by (rule dindirect_scalar [OF U(2) indirect_not_ptr])
  have "zero U \<noteq> RInvalid" using zero_typed [OF U(1), of G] by auto
  then have "decode G lim (Suc (Suc d)) True (zero U) (b @ rest) = Inr (canon G (indirect v), n, None, rest)" for rest
    using c(2) d1 by (simp add: sc setD_def)
  then have "decodeInterface G (decode G lim (Suc (Suc d))) (Suc (Suc d)) (Some (RPtr T (Some (newval G T)))) (b @ rest) =
    Inr (Some (RPtr T (Some (canon G v))), n, None, rest)" for rest
    by (simp add: decodeInterface_def di c(1) del: decode.simps)
  with b show ?thesis by (intro exI [of _ b]) (simp add: decode_iface_eq del: decode.simps)
qed

lemma Marshal_iface_success:
  assumes "Marshal G buffer_write w (Some (RPtr TIface (Some (RIface (Some p))))) = Inr (n, None, w')"
    and p: "p = v \<or> p = RPtr T (Some v)"
  shows "\<exists>e. vdepth v \<le> Suc e \<and> indirect v \<noteq> RInvalid \<and>
    encode_kind G buffer_write (encode G buffer_write e) (indirect v) w = Inr (n, None, w')"
proof -
  have i: "indirect p = indirect v" and d: "vdepth v \<le> vdepth p" using p by auto
  have "encode G buffer_write (Suc (vdepth p)) (indirect v) w = Inr (n, None, w')"
    using assms(1) i by (simp add: Marshal_def Encode_def encode_kind_def encodeInterface_def)
  then show ?thesis using d
    by (intro exI [of _ "vdepth p"]) (auto simp: indirect_idem failE_def split: if_splits)
qed

text \<open>C3: What \<^verbatim>\<open>Marshal\<close> writes into a buffer for a value or a pointer to it, \<^verbatim>\<open>Unmarshal\<close> reads
  back into a fresh target of the same type: the value itself (unsent union arms and unexported
  fields zeroed), having consumed exactly the bytes written and left what follows them.\<close>

theorem Marshal_Unmarshal:
  assumes G: "env_ok G" and T: "wf_ty True T" and v: "has_type G (resolve G T) v" "sendable G lim v"
    and m: "Marshal G buffer_write w (Some p) = Inr (n, None, w')" and p: "p = v \<or> p = RPtr T (Some v)"
    and d: "vdepth v < d"
  shows "\<exists>b. w' = w @ b \<and> length b = n \<and>
    UnmarshalLimited G d (b @ rest) (Some (RPtr T (Some (newval G T)))) lim =
      Inr (Some (RPtr T (Some (canon G v))), n, None, rest)"
  by (rule Marshal_rt [OF assms])

definition sample_value :: rvalue where
  "sample_value = RSlice (TPtr (TStruct
     [(\<lparr>exported = True, ftag = []\<rparr>, TUint Uint32),
      (\<lparr>exported = True, ftag = [(''xdr'', ''optional'')]\<rparr>, TPtr TBool)]))
    [RPtr (TStruct
     [(\<lparr>exported = True, ftag = []\<rparr>, TUint Uint32),
      (\<lparr>exported = True, ftag = [(''xdr'', ''optional'')]\<rparr>, TPtr TBool)])
       (Some (RStruct [(\<lparr>exported = True, ftag = []\<rparr>, RUint Uint32 258),
         (\<lparr>exported = True, ftag = [(''xdr'', ''optional'')]\<rparr>, RPtr TBool (Some (RBool True)))]))] []"

lemma sample_marshal:
  "Marshal sample_env buffer_write [] (Some sample_value) =
     Inr (16, None, [0, 0, 0, 1, 0, 0, 1, 2, 0, 0, 0, 1, 0, 0, 0, 1])"
  by (simp add: Marshal_def Encode_def sample_value_def encode_kind_def encodeArray_def encodeFixedArray_def
      encodeStruct_def encode_field_def encode_member_def Encode_buffer seqE_def doneE_def maxl_def parseTag_def
      StructTag_Get_def tag_Get_eq skip_case_def Let_def be32_def)

lemma sample_value_ok:
  "has_type sample_env (resolve sample_env sample_type) sample_value" "sendable sample_env 100 sample_value"
  "vdepth sample_value < 9"
  by (simp_all add: sample_value_def sample_type_def resolve_def OverflowUint_def len_ok_def field_ok_def
      parseTag_def StructTag_Get_def tag_Get_eq case_tagged_def Let_def maxl_def)

lemma Marshal_Unmarshal_witness:
  "\<exists>b. [0, 0, 0, 1, 0, 0, 1, 2, 0, 0, 0, 1, 0, 0, 0, 1] = [] @ b \<and> length b = 16 \<and>
    UnmarshalLimited sample_env 9 (b @ [7]) (Some (RPtr sample_type (Some (newval sample_env sample_type)))) 100 =
      Inr (Some (RPtr sample_type (Some (canon sample_env sample_value))), 16, None, [7])"
  by (rule Marshal_Unmarshal [OF sample_ok(1,2) sample_value_ok(1,2) sample_marshal _ sample_value_ok(3)]) simp

end
