(* ===== verification/Onc_Record.thy ===== *)
theory Onc_Record
  imports Xdr_Roundtrip
begin

text \<open>
  \<^verbatim>\<open>oncrpc/record.go\<close>: the record marking of RPC over TCP.  A record is a sequence of fragments,
  each behind a 32-bit header that holds the fragment's size and, in the top bit, whether it is
  the last one.  The connection is written through a \<open>writer\<close> and read as the bytes the peer sends
  before it closes.
\<close>

section \<open>Headers\<close>

definition maxRecordFragmentSize :: int where
  "maxRecordFragmentSize = 2 ^ 31 - 1"

definition maxRecordSize :: nat where
  "maxRecordSize = 1 * 1024 * 1024"

text \<open>The code's \<^verbatim>\<open>1 << 31\<close>.\<close>

definition last_bit :: u32 where
  "last_bit = push_bit 31 1"

definition isLastFragment :: "u32 \<Rightarrow> bool" where
  "isLastFragment fragmentHeader \<longleftrightarrow> drop_bit 31 fragmentHeader = 1"

definition getFragmentSize :: "u32 \<Rightarrow> u32" where
  "getFragmentSize fragmentHeader = fragmentHeader AND NOT last_bit"

definition createFragmentHeader :: "u32 \<Rightarrow> bool \<Rightarrow> u32" where
  "createFragmentHeader fragSize lastFragment =
     (let fragmentHeader = fragSize AND NOT last_bit in
      if lastFragment then fragmentHeader OR last_bit else fragmentHeader)"

definition minOf :: "int \<Rightarrow> int \<Rightarrow> int" where
  "minOf a b = (if a < b then a else b)"

lemma bit_31: "bit last_bit n \<longleftrightarrow> n = 31"
  unfolding last_bit_def bit_push_bit_iff bit_1_iff by auto

lemma isLastFragment_bit: "isLastFragment h \<longleftrightarrow> bit h 31"
proof
  assume "isLastFragment h"
  then have "bit (drop_bit 31 h) 0" by (simp add: isLastFragment_def)
  then show "bit h 31" by (simp add: bit_simps)
next
  assume b: "bit h 31"
  have "drop_bit 31 h = 1"
  proof (rule bit_word_eqI)
    fix n assume "n < LENGTH(32)"
    show "bit (drop_bit 31 h) n = bit (1 :: u32) n"
      using b by (cases n) (auto simp: bit_simps dest: bit_imp_le_length)
  qed
  then show "isLastFragment h" by (simp add: isLastFragment_def)
qed

lemma getFragmentSize_bits: "bit (getFragmentSize h) n \<longleftrightarrow> bit h n \<and> n \<noteq> 31"
  unfolding getFragmentSize_def bit_and_iff bit_not_iff bit_31 by (auto dest: bit_imp_le_length)

lemma getFragmentSize_bound: "unat (getFragmentSize h) < 2 ^ 31"
proof -
  have "take_bit 31 (getFragmentSize h) = getFragmentSize h"
    by (rule bit_word_eqI) (auto simp: bit_take_bit_iff getFragmentSize_bits less_Suc_eq)
  then have "unat (getFragmentSize h) = take_bit 31 (unat (getFragmentSize h))"
    by (metis unsigned_take_bit_eq)
  then show ?thesis by (metis take_bit_nat_less_exp)
qed

lemma header_fields:
  "isLastFragment (createFragmentHeader n b) = b"
  "getFragmentSize (createFragmentHeader n b) = take_bit 31 n"
proof -
  show "isLastFragment (createFragmentHeader n b) = b"
    unfolding isLastFragment_bit createFragmentHeader_def Let_def
    by (simp add: bit_or_iff bit_and_iff bit_not_iff bit_31)
  show "getFragmentSize (createFragmentHeader n b) = take_bit 31 n"
  proof (rule bit_word_eqI)
    fix k assume "k < LENGTH(32)"
    then show "bit (getFragmentSize (createFragmentHeader n b)) k = bit (take_bit 31 n) k"
      unfolding getFragmentSize_bits createFragmentHeader_def Let_def
      by (cases b) (auto simp: bit_or_iff bit_and_iff bit_not_iff bit_31 bit_take_bit_iff less_Suc_eq)
  qed
qed

text \<open>The header bits: the two readers get back what \<^verbatim>\<open>createFragmentHeader\<close> put in, the last
  flag always and the size modulo its top bit, so every size below \<^verbatim>\<open>1 << 31\<close>.\<close>

lemma createFragmentHeader_fields:
  "isLastFragment (createFragmentHeader n b) = b \<and>
   getFragmentSize (createFragmentHeader n b) = take_bit 31 n \<and>
   unat (getFragmentSize h) < 2 ^ 31"
  using header_fields [of n b] getFragmentSize_bound [of h] by simp

lemma header_size: "k < 2 ^ 31 \<Longrightarrow> unat (getFragmentSize (createFragmentHeader (of_nat k) b)) = k"
  by (simp add: header_fields unsigned_take_bit_eq unat_of_nat take_bit_nat_eq_self)

lemma header_uint: "k < 2 ^ 31 \<Longrightarrow> uint (getFragmentSize (createFragmentHeader (of_nat k) b)) = int k"
  by (simp only: uint_nat header_size)

section \<open>Writing\<close>

text \<open>
  The loop of \<^verbatim>\<open>WriteFullRecord\<close>.  The slice expression \<^verbatim>\<open>data[totalBytesWritten:fragmentSize]\<close> panics
  when its bounds are not in order or beyond the data (whose capacity is taken to be its length).
  A round adds what \<^verbatim>\<open>conn.Write\<close> returns, the four header bytes included.
\<close>

fun write_fragments :: "'w writer \<Rightarrow> bytes \<Rightarrow> nat \<Rightarrow> int \<Rightarrow> bool \<Rightarrow> 'w \<Rightarrow> (int \<times> ioerror option \<times> 'w) go" where
  "write_fragments conn data 0 totalBytesWritten lastFragment w = Inl Diverge"
| "write_fragments conn data (Suc fuel) totalBytesWritten lastFragment w =
     (let remainingBytes = int (length data) - totalBytesWritten;
          lastFragment = (if remainingBytes \<le> maxRecordFragmentSize then True else lastFragment);
          fragmentSize = (word_of_int (minOf maxRecordFragmentSize remainingBytes) :: u32);
          fragmentHeaderBytes = be32 (createFragmentHeader fragmentSize lastFragment);
          lo = nat totalBytesWritten; hi = unat fragmentSize in
      if totalBytesWritten < 0 \<or> lo > hi \<or> hi > length data then Inl Panic
      else
        (case conn (fragmentHeaderBytes @ take (hi - lo) (drop lo data)) w of (bytesWritten, err, w1) \<Rightarrow>
           (case err of
              Some e \<Rightarrow> Inr (totalBytesWritten, Some e, w1)
            | None \<Rightarrow>
                if lastFragment then Inr (totalBytesWritten + int bytesWritten, None, w1)
                else write_fragments conn data fuel (totalBytesWritten + int bytesWritten) lastFragment w1)))"

text \<open>Two rounds are enough for a writer that keeps the contract of \<^verbatim>\<open>io.Writer\<close>
  (\<open>WriteFullRecord_rounds\<close>).\<close>

definition WriteFullRecord :: "'w writer \<Rightarrow> bytes \<Rightarrow> 'w \<Rightarrow> (int \<times> ioerror option \<times> 'w) go" where
  "WriteFullRecord conn data w = write_fragments conn data (Suc (Suc 0)) 0 False w"

lemma one_fragment:
  assumes "length data < 2 ^ 31"
  shows "WriteFullRecord conn data w =
    (case conn (be32 (createFragmentHeader (of_nat (length data)) True) @ data) w of
       (n, None, w') \<Rightarrow> Inr (int n, None, w') | (n, Some e, w') \<Rightarrow> Inr (0, Some e, w'))"
proof -
  have m: "minOf maxRecordFragmentSize (int (length data)) = int (length data)"
    using assms by (simp add: minOf_def maxRecordFragmentSize_def)
  have u: "unat (of_nat (length data) :: u32) = length data" using assms by (simp add: unat_of_nat)
  have le: "int (length data) \<le> maxRecordFragmentSize" using assms by (simp add: maxRecordFragmentSize_def)
  show ?thesis
    by (simp add: WriteFullRecord_def Let_def m u le split: prod.split option.split)
qed

lemma second_round_panics:
  assumes "2 ^ 31 \<le> length data"
  shows "write_fragments conn data (Suc fuel) (2 ^ 31 + 3) False w = Inl Panic"
proof -
  define r where "r = int (length data) - (2 ^ 31 + 3)"
  define h where "h = unat (word_of_int (minOf maxRecordFragmentSize r) :: u32)"
  have "2 ^ 31 + 3 > h \<or> h > length data"
  proof (cases "0 \<le> r")
    case True
    then have "0 \<le> minOf maxRecordFragmentSize r" "minOf maxRecordFragmentSize r \<le> 2 ^ 31 - 1"
      by (auto simp: minOf_def maxRecordFragmentSize_def)
    then have "h \<le> 2 ^ 31 - 1"
      by (simp add: h_def unsigned_of_int take_bit_int_eq_self)
    then show ?thesis by simp
  next
    case False
    then have r: "r = -1 \<or> r = -2 \<or> r = -3" and l: "length data < 2 ^ 31 + 3"
      using assms unfolding r_def by simp_all arith
    have "minOf maxRecordFragmentSize r = r" using False by (simp add: minOf_def maxRecordFragmentSize_def)
    then have "int h = r mod 2 ^ 32" by (simp only: h_def uint_nat [symmetric]) (simp add: unsigned_of_int take_bit_eq_mod)
    with r have "h \<ge> 2 ^ 32 - 3" by (elim disjE) simp_all
    with l show ?thesis by simp
  qed
  moreover have "nat (2 ^ 31 + 3) = 2 ^ 31 + 3" by simp
  ultimately show ?thesis
    unfolding write_fragments.simps Let_def r_def [symmetric] h_def [symmetric] by (subst if_P) auto
qed

lemma WriteFullRecord_big:
  assumes "2 ^ 31 \<le> length data"
  shows "WriteFullRecord buffer_write data w = Inl Panic"
proof -
  have m: "minOf maxRecordFragmentSize (int (length data)) = 2 ^ 31 - 1" "\<not> int (length data) \<le> maxRecordFragmentSize"
    using assms by (simp_all add: minOf_def maxRecordFragmentSize_def)
  have "WriteFullRecord buffer_write data w =
      write_fragments buffer_write data (Suc 0) (2 ^ 31 + 3) False
        (w @ be32 (createFragmentHeader (2 ^ 31 - 1) False) @ take (2 ^ 31 - 1) data)"
    using assms m by (simp add: WriteFullRecord_def Let_def buffer_write_def)
  then show ?thesis using second_round_panics [OF assms] by simp
qed

text \<open>C37: Writing a record: below \<^verbatim>\<open>1 << 31\<close> bytes it is one write of the header and the data, and
  the count returned includes the four header bytes; from \<^verbatim>\<open>1 << 31\<close> bytes on, when the loop would
  need a second fragment, the call panics (or reports the error of the first write), on every writer
  that keeps its contract.\<close>

theorem WriteFullRecord_rounds:
  assumes "io_writer conn written"
  shows "WriteFullRecord conn data w =
    (if length data < 2 ^ 31
     then (case conn (be32 (createFragmentHeader (of_nat (length data)) True) @ data) w of
             (n, None, w') \<Rightarrow> Inr (int (length data) + 4, None, w')
           | (n, Some e, w') \<Rightarrow> Inr (0, Some e, w'))
     else (case conn (be32 (createFragmentHeader (2 ^ 31 - 1) False) @ take (2 ^ 31 - 1) data) w of
             (n, None, w') \<Rightarrow> Inl Panic
           | (n, Some e, w') \<Rightarrow> Inr (0, Some e, w')))"
proof (cases "length data < 2 ^ 31")
  case True
  then show ?thesis
    using io_writer.write_contract [OF assms, of "be32 (createFragmentHeader (of_nat (length data)) True) @ data" w]
    by (auto simp: one_fragment split: prod.split option.split)
next
  case False
  then have l: "2 ^ 31 \<le> length data" by simp
  have m: "minOf maxRecordFragmentSize (int (length data)) = 2 ^ 31 - 1" "\<not> int (length data) \<le> maxRecordFragmentSize"
    using l by (simp_all add: minOf_def maxRecordFragmentSize_def)
  define b where "b = be32 (createFragmentHeader (2 ^ 31 - 1) False) @ take (2 ^ 31 - 1) data"
  have len: "length b = 2 ^ 31 + 3" using l by (simp add: b_def)
  obtain n err w1 where c: "conn b w = (n, err, w1)" by (cases "conn b w")
  have n: "err = None \<Longrightarrow> n = 2 ^ 31 + 3" using io_writer.write_contract [OF assms c] len by simp
  have "WriteFullRecord conn data w =
     (case conn b w of (n, err, w1) \<Rightarrow> (case err of Some e \<Rightarrow> Inr (0, Some e, w1)
        | None \<Rightarrow> write_fragments conn data (Suc 0) (int n) False w1))"
    using l m by (simp add: WriteFullRecord_def Let_def b_def split: prod.split option.split)
  also have "\<dots> = (case conn b w of (n, None, w') \<Rightarrow> Inl Panic | (n, Some e, w') \<Rightarrow> Inr (0, Some e, w'))"
    using n second_round_panics [OF l, of conn 0] by (simp add: c split: option.split)
  finally show ?thesis using False by (simp add: b_def)
qed

lemma WriteFullRecord_rounds_witness:
  "WriteFullRecord buffer_write [1, 2, 3] [] = Inr (7, None, be32 (createFragmentHeader 3 True) @ [1, 2, 3])"
  using WriteFullRecord_rounds [OF buf.io_writer_axioms, of "[1, 2, 3]" "[]"] by (simp add: buffer_write_def)

section \<open>Reading\<close>

text \<open>
  \<^verbatim>\<open>record\<close> is a \<^verbatim>\<open>bytes.Buffer\<close>: its bytes and its capacity.  Filling it from a reader
  (\<^verbatim>\<open>ReadFrom\<close>, which \<^verbatim>\<open>io.CopyN\<close> calls) asks for room for 512 bytes before every read, also
  before the one that finds the limit reached, so that a buffer left with less is reallocated.
  To which capacity depends on the version of the library: \<open>grow cap len\<close>, of which the lemmas use that
  it leaves that room.
\<close>

definition buffer_cap :: "(nat \<Rightarrow> nat \<Rightarrow> nat) \<Rightarrow> nat \<Rightarrow> nat \<Rightarrow> nat" where
  "buffer_cap grow bcap len = (if bcap - len < 512 then grow bcap len else bcap)"

definition grow_ok :: "(nat \<Rightarrow> nat \<Rightarrow> nat) \<Rightarrow> bool" where
  "grow_ok grow \<longleftrightarrow> (\<forall>c l. l \<le> c \<longrightarrow> l + 512 \<le> grow c l)"

text \<open>The growth of the library at the time of the program: twice the capacity and the room asked for.\<close>

definition grow_double :: "nat \<Rightarrow> nat \<Rightarrow> nat" where
  "grow_double c l = 2 * c + 512"

text \<open>The error of \<^verbatim>\<open>ReadFullRecord\<close>: one of the connection, or its own.\<close>

datatype recerror = ReadErr ioerror | InvalidFragmentSize | RPCMessageSizeExceeded

text \<open>Every round takes four bytes off the input, so the recursion ends.\<close>

function read_fragments ::
  "(nat \<Rightarrow> nat \<Rightarrow> nat) \<Rightarrow> bytes \<Rightarrow> nat \<Rightarrow> bytes \<Rightarrow> (recerror + bytes) \<times> bytes" where
  "read_fragments grow record bcap conn =
     (case ReadFull 4 conn of (hdr, n, err, conn1) \<Rightarrow>
        (case err of
           Some e \<Rightarrow> (Inl (ReadErr e), conn1)
         | None \<Rightarrow>
             let fragmentHeader = of_be32 hdr; fragmentSize = getFragmentSize fragmentHeader in
             if int (unat fragmentSize) > maxRecordFragmentSize then (Inl InvalidFragmentSize, conn1)
             else if int (unat fragmentSize) > int bcap - int (length record)
             then (Inl RPCMessageSizeExceeded, conn1)
             else
               let got = take (unat fragmentSize) conn1; conn2 = drop (unat fragmentSize) conn1;
                   record' = record @ got; bcap' = buffer_cap grow bcap (length record') in
               if length got \<noteq> unat fragmentSize then (Inl (ReadErr EOF), conn2)
               else if isLastFragment fragmentHeader then (Inr record', conn2)
               else read_fragments grow record' bcap' conn2))"
  by pat_completeness auto
termination
  by (relation "measure (\<lambda>(grow, record, bcap, conn). length conn)")
    (auto simp: ReadFull_def Let_def split: if_splits)

declare read_fragments.simps [simp del]

definition ReadFullRecord :: "(nat \<Rightarrow> nat \<Rightarrow> nat) \<Rightarrow> bytes \<Rightarrow> (recerror + bytes) \<times> bytes" where
  "ReadFullRecord grow conn = read_fragments grow [] maxRecordSize conn"

text \<open>A fragment on the wire.\<close>

definition fragment :: "bool \<Rightarrow> bytes \<Rightarrow> bytes" where
  "fragment lst d = be32 (createFragmentHeader (of_nat (length d)) lst) @ d"

lemma read_fragment:
  assumes "length d < 2 ^ 31"
  shows "read_fragments grow record bcap (fragment lst d @ rest) =
    (if length record + length d > bcap then (Inl RPCMessageSizeExceeded, d @ rest)
     else if lst then (Inr (record @ d), rest)
     else read_fragments grow (record @ d) (buffer_cap grow bcap (length record + length d)) rest)"
proof -
  have "int (length d) \<le> maxRecordFragmentSize" using assms by (simp add: maxRecordFragmentSize_def)
  then show ?thesis
    by (subst read_fragments.simps)
      (simp add: fragment_def Let_def header_size [OF assms] header_uint [OF assms] header_fields(1))
qed

lemma fragment_size_check_dead: "\<not> int (unat (getFragmentSize h)) > maxRecordFragmentSize"
proof -
  have "int (unat (getFragmentSize h)) < 2 ^ 31"
    using getFragmentSize_bound [of h] by (simp only: of_nat_less_iff [symmetric, where 'a = int]) simp
  then show ?thesis by (simp add: maxRecordFragmentSize_def)
qed

lemma fragment_size_check_dead_uint: "\<not> uint (getFragmentSize h) > maxRecordFragmentSize"
  using fragment_size_check_dead [of h] unfolding uint_nat .

lemma never_InvalidFragmentSize: "fst (read_fragments grow buf bcap conn) \<noteq> Inl InvalidFragmentSize"
proof (induction conn arbitrary: buf bcap rule: measure_induct_rule [where f = length])
  case (less conn)
  have "length (drop k (drop 4 conn)) < length conn" if "length (take 4 conn) = 4" for k
    using that by simp
  then show ?case
    by (subst read_fragments.simps) (auto simp: Let_def fragment_size_check_dead_uint ReadFull_def less
        simp del: drop_drop take_drop length_drop length_take)
qed

text \<open>C21: What \<^verbatim>\<open>WriteFullRecord\<close> sends, \<^verbatim>\<open>ReadFullRecord\<close> returns: for data of up to one megabyte
  written to a connection that takes all bytes, the peer reads the same data and leaves what follows
  the record.\<close>

theorem record_roundtrip:
  assumes "length data \<le> maxRecordSize" and "WriteFullRecord buffer_write data w = Inr (n, None, w')"
  shows "\<exists>b. w' = w @ b \<and> n = int (length b) \<and> ReadFullRecord grow (b @ rest) = (Inr data, rest)"
proof -
  have l: "length data < 2 ^ 31" using assms(1) by (simp add: maxRecordSize_def)
  have "w' = w @ fragment True data \<and> n = int (length (fragment True data))"
    using assms(2) by (simp add: one_fragment [OF l] buffer_write_def fragment_def)
  moreover have "ReadFullRecord grow (fragment True data @ rest) = (Inr data, rest)"
    using assms(1) by (simp add: ReadFullRecord_def read_fragment [OF l])
  ultimately show ?thesis by blast
qed

lemma record_roundtrip_witness:
  "\<exists>b. [9] @ fragment True [1, 2, 3] = [9] @ b \<and> 7 = int (length b) \<and>
     ReadFullRecord grow_double (b @ [5, 5]) = (Inr [1, 2, 3], [5, 5])"
  by (rule record_roundtrip) (simp_all add: maxRecordSize_def one_fragment buffer_write_def fragment_def)

text \<open>A record in one fragment is accepted if and only if it has at most \<^verbatim>\<open>maxRecordSize\<close> bytes,
  and the check on the maximum fragment size never fires.\<close>

lemma single_fragment_limit:
  assumes "length d < 2 ^ 31"
  shows "ReadFullRecord grow (fragment True d @ rest) =
      (if length d \<le> maxRecordSize then (Inr d, rest) else (Inl RPCMessageSizeExceeded, d @ rest)) \<and>
    fst (ReadFullRecord grow conn) \<noteq> Inl InvalidFragmentSize"
proof
  show "ReadFullRecord grow (fragment True d @ rest) =
      (if length d \<le> maxRecordSize then (Inr d, rest) else (Inl RPCMessageSizeExceeded, d @ rest))"
    by (simp add: ReadFullRecord_def read_fragment [OF assms])
  show "fst (ReadFullRecord grow conn) \<noteq> Inl InvalidFragmentSize"
    by (simp add: ReadFullRecord_def never_InvalidFragmentSize)
qed

text \<open>C36: \<^verbatim>\<open>maxRecordSize\<close> is no bound for records of several fragments: a first fragment that
  leaves less than 512 bytes of the buffer free makes the buffer grow, and up to 512 bytes more than
  the limit are then accepted, however the library grows the buffer (by at least the 512 bytes that
  \<^verbatim>\<open>bytes.Buffer.ReadFrom\<close> documents as \<^verbatim>\<open>MinRead\<close>).\<close>
theorem fragments_exceed_limit:
  assumes "grow_ok grow" and "length d1 \<le> maxRecordSize" and "maxRecordSize - length d1 < 512" and "length d2 \<le> 512"
  shows "ReadFullRecord grow (fragment False d1 @ fragment True d2 @ rest) = (Inr (d1 @ d2), rest)"
proof -
  have l: "length d1 < 2 ^ 31" "length d2 < 2 ^ 31" using assms(2,4) by (simp_all add: maxRecordSize_def)
  have "length d1 + 512 \<le> grow maxRecordSize (length d1)" using assms(1,2) by (simp add: grow_ok_def)
  with assms(2-4) have c: "length d1 + length d2 \<le> buffer_cap grow maxRecordSize (length d1)"
    by (simp add: buffer_cap_def)
  show ?thesis
    unfolding ReadFullRecord_def read_fragment [OF l(1)] using assms(2) c by (simp add: read_fragment [OF l(2)])
qed

lemma fragments_exceed_limit_witness:
  "\<exists>record. length record = maxRecordSize + 512 \<and>
     ReadFullRecord grow_double
       (fragment False (replicate maxRecordSize 0) @ fragment True (replicate 512 1) @ []) = (Inr record, [])"
proof -
  have "grow_ok grow_double" by (simp add: grow_ok_def grow_double_def)
  then have "ReadFullRecord grow_double
       (fragment False (replicate maxRecordSize 0) @ fragment True (replicate 512 1) @ []) =
       (Inr (replicate maxRecordSize 0 @ replicate 512 1), [])"
    by (rule fragments_exceed_limit) simp_all
  then show ?thesis by (intro exI conjI) simp_all
qed

end
