(* ===== verification/Onc_Types.thy ===== *)
theory Onc_Types
  imports Onc_Record
begin

text \<open>
  \<^verbatim>\<open>oncrpc/rpctypes.go\<close>: the RPC message types as records, their constants, and what \<^verbatim>\<open>reflect\<close>
  shows of them to the XDR code: the type descriptors with the struct tags of the source
  (\<open>RPCMsg_type\<close> and its parts) and the conversions between the records and \<open>rvalue\<close>.
\<close>

section \<open>Fields and scalars\<close>

definition xtag :: "string \<Rightarrow> fieldinfo" where
  "xtag t = \<lparr>exported = True, ftag = (if t = '''' then [] else [(''xdr'', t)])\<rparr>"

lemma xtag_simps [simp]: "exported (xtag t)" "parseTag (ftag (xtag t)) = t"
  by (simp_all add: xtag_def parseTag_def StructTag_Get_def Let_def)

abbreviation TU32 :: gotype where "TU32 \<equiv> TUint Uint32"
abbreviation TU64 :: gotype where "TU64 \<equiv> TUint Uint64"
abbreviation TI32 :: gotype where "TI32 \<equiv> TInt Int32"
abbreviation TBytes :: gotype where "TBytes \<equiv> TSlice (TUint Uint8)"

definition rv_u32 :: "u32 \<Rightarrow> rvalue" where "rv_u32 x = RUint Uint32 (ucast x)"
definition rv_u64 :: "u64 \<Rightarrow> rvalue" where "rv_u64 x = RUint Uint64 x"
definition rv_i32 :: "32 word \<Rightarrow> rvalue" where "rv_i32 x = RInt Int32 (scast x)"
definition rv_bytes :: "bytes \<Rightarrow> rvalue" where "rv_bytes b = RSlice (TUint Uint8) (map rbyte b) []"

fun un_u32 :: "rvalue \<Rightarrow> u32" where "un_u32 (RUint k x) = ucast x" | "un_u32 _ = 0"
fun un_u64 :: "rvalue \<Rightarrow> u64" where "un_u64 (RUint k x) = x" | "un_u64 _ = 0"
fun un_i32 :: "rvalue \<Rightarrow> 32 word" where "un_i32 (RInt k x) = ucast x" | "un_i32 _ = 0"
fun un_bytes :: "rvalue \<Rightarrow> bytes" where "un_bytes (RSlice E xs sp) = map byte_of xs" | "un_bytes _ = []"
fun un_string :: "rvalue \<Rightarrow> string" where "un_string (RString s) = s" | "un_string _ = ''''"
fun un_bool :: "rvalue \<Rightarrow> bool" where "un_bool (RBool b) = b" | "un_bool _ = False"
fun un_ptr :: "rvalue \<Rightarrow> rvalue option" where "un_ptr (RPtr T p) = p" | "un_ptr _ = None"
fun un_field :: "nat \<Rightarrow> rvalue \<Rightarrow> rvalue" where
  "un_field i (RStruct fs) = (if i < length fs then snd (fs ! i) else RInvalid)"
| "un_field i _ = RInvalid"

lemma ucast_scast_32: "(ucast (scast (x :: 32 word) :: u64) :: 32 word) = x"
  by (rule bit_word_eqI) (simp add: bit_simps)

lemma ucast_ucast_32: "(ucast (ucast (x :: 32 word) :: u64) :: 32 word) = x"
  by (rule bit_word_eqI) (simp add: bit_simps)

lemma byte_of_rbyte [simp]: "byte_of (rbyte b) = b"
  by (simp add: rbyte_def) (rule bit_word_eqI, simp add: bit_simps)

lemma map_byte_of_rbyte [simp]: "map (byte_of \<circ> rbyte) b = b"
  by (induction b) simp_all

lemma un_rv [simp]:
  "un_u32 (rv_u32 x) = x" "un_u64 (rv_u64 y) = y" "un_i32 (rv_i32 z) = z" "un_bytes (rv_bytes b) = b"
  by (simp_all add: rv_u32_def rv_u64_def rv_i32_def rv_bytes_def ucast_scast_32 ucast_ucast_32)

lemma sint_scast_32: "sint (scast (x :: 32 word) :: u64) = sint x"
proof -
  have "- (2 ^ 31) \<le> sint x" "sint x < 2 ^ 31" using sint_ge [of x] sint_lt [of x] by simp_all
  then have "signed_take_bit 63 (sint x) = sint x" by (intro signed_take_bit_int_eq_self) simp_all
  then show ?thesis unfolding scast_eq by (simp only: signed_of_int) simp
qed

lemma unat_ucast_32: "unat (ucast (x :: 32 word) :: u64) = unat x" "unat x < 4294967296"
proof -
  show lt: "unat x < 4294967296" using unsigned_less [of x] by simp
  then have "take_bit 64 (unat x) = unat x" by (simp add: take_bit_nat_eq_self)
  then show "unat (ucast (x :: 32 word) :: u64) = unat x" by (simp add: unsigned_ucast_eq)
qed

lemma int32_range: "\<not> OverflowInt Int32 (scast (x :: 32 word))"
  using sint_ge [of x] sint_lt [of x] by (simp add: OverflowInt_def sint_scast_32)

lemma uint32_range: "\<not> OverflowUint Uint32 (ucast (x :: 32 word))"
  using unat_ucast_32 [of x] by (simp add: OverflowUint_def)

lemma rv_typed [simp]:
  "has_type G TU32 (rv_u32 x)" "has_type G TU64 (rv_u64 y)" "has_type G TI32 (rv_i32 z)" "has_type G TBytes (rv_bytes b)"
  using bytes_typed [of b G]
  by (simp_all add: rv_u32_def rv_u64_def rv_i32_def rv_bytes_def int32_range uint32_range
      Overflow_full resolve_def)

lemma rv_sendable [simp]:
  "sendable G lim (rv_u32 x)" "sendable G lim (rv_u64 y)" "sendable G lim (rv_i32 z)"
  "sendable G lim (rv_bytes b) = len_ok lim (length b)"
  by (auto simp: rv_u32_def rv_u64_def rv_i32_def rv_bytes_def rbyte_def)

lemma rv_canon [simp]:
  "canon G (rv_u32 x) = rv_u32 x" "canon G (rv_u64 y) = rv_u64 y" "canon G (rv_i32 z) = rv_i32 z"
  "canon G (rv_bytes b) = rv_bytes b"
  by (simp_all add: rv_u32_def rv_u64_def rv_i32_def rv_bytes_def rbyte_def)

lemma rv_vdepth [simp]:
  "vdepth (rv_u32 x) = 1" "vdepth (rv_u64 y) = 1" "vdepth (rv_i32 z) = 1" "vdepth (rv_bytes b) \<le> 2"
proof -
  have "maxl (map vdepth (map rbyte b)) \<le> 1" by (induction b) (simp_all add: maxl_def rbyte_def)
  then show "vdepth (rv_bytes b) \<le> 2" by (simp add: rv_bytes_def)
qed (simp_all add: rv_u32_def rv_u64_def rv_i32_def)

lemma rv_indirect [simp]:
  "indirect (rv_u32 x) = rv_u32 x" "indirect (rv_u64 y) = rv_u64 y" "indirect (rv_i32 z) = rv_i32 z"
  "indirect (rv_bytes b) = rv_bytes b"
  by (simp_all add: rv_u32_def rv_u64_def rv_i32_def rv_bytes_def)

lemma rv_discriminant [simp]:
  "discriminant G (rv_i32 z) = Inr (Some (Itoa (sint z)))"
  by (simp add: rv_i32_def sint_scast_32)

section \<open>Constants\<close>

definition RPCProtocolVersion :: u32 where "RPCProtocolVersion = 2"

text \<open>\<^verbatim>\<open>MsgType\<close>\<close>
definition Call :: "32 word" where "Call = 0"
definition Reply :: "32 word" where "Reply = 1"

text \<open>\<^verbatim>\<open>ReplyStat\<close>\<close>
definition MsgAccepted :: "32 word" where "MsgAccepted = 0"
definition MsgDenied :: "32 word" where "MsgDenied = 1"

text \<open>\<^verbatim>\<open>AcceptStat\<close>\<close>
definition Success :: "32 word" where "Success = 0"
definition ProgUnavail :: "32 word" where "ProgUnavail = 1"
definition ProgMismatch :: "32 word" where "ProgMismatch = 2"
definition ProcUnavail :: "32 word" where "ProcUnavail = 3"
definition GarbageArgs :: "32 word" where "GarbageArgs = 4"
definition SystemErr :: "32 word" where "SystemErr = 5"

text \<open>\<^verbatim>\<open>RejectStat\<close>\<close>
definition RPCMismatch :: "32 word" where "RPCMismatch = 0"
definition AuthError :: "32 word" where "AuthError = 1"

text \<open>\<^verbatim>\<open>AuthStat\<close> and \<^verbatim>\<open>AuthFlavor\<close>, as far as the code uses them\<close>
definition AuthBadcred :: "32 word" where "AuthBadcred = 1"
definition AuthNone :: "32 word" where "AuthNone = 0"
definition AuthSys :: "32 word" where "AuthSys = 1"

lemmas rpc_consts = RPCProtocolVersion_def Call_def Reply_def MsgAccepted_def MsgDenied_def Success_def
  ProgUnavail_def ProgMismatch_def ProcUnavail_def GarbageArgs_def SystemErr_def RPCMismatch_def
  AuthError_def AuthBadcred_def AuthNone_def AuthSys_def

section \<open>Messages\<close>

record OpaqueAuth =
  Flavor :: "32 word"
  Body :: bytes

record CallBody =
  RPCVersion :: u32
  Program :: u32
  Version :: u32
  Procedure :: u32
  Cred :: OpaqueAuth
  Verf :: OpaqueAuth

record MismatchReply =
  Low :: u32
  High :: u32

record AcceptedReply =
  AVerf :: OpaqueAuth
  AStat :: "32 word"
  MismatchInfoP :: MismatchReply
  MismatchInfoV :: MismatchReply

record RejectedReply =
  RStat :: "32 word"
  MismatchInfo :: MismatchReply
  RAuthStat :: "32 word"

record ReplyBody =
  Stat :: "32 word"
  Areply :: AcceptedReply
  Rreply :: RejectedReply

record RPCMsg =
  Xid :: u32
  Type :: "32 word"
  CBody :: CallBody
  RBody :: ReplyBody

record ProcEntry =
  PProgram :: u32
  PVersion :: u32
  ProcList :: "string list"

text \<open>The zero values a composite literal leaves where it names no field.\<close>

definition zero_auth :: OpaqueAuth where
  "zero_auth = \<lparr>Flavor = 0, Body = []\<rparr>"

definition zero_call :: CallBody where
  "zero_call = \<lparr>RPCVersion = 0, Program = 0, Version = 0, Procedure = 0, Cred = zero_auth, Verf = zero_auth\<rparr>"

definition zero_mismatch :: MismatchReply where
  "zero_mismatch = \<lparr>Low = 0, High = 0\<rparr>"

definition zero_accepted :: AcceptedReply where
  "zero_accepted = \<lparr>AVerf = zero_auth, AStat = 0, MismatchInfoP = zero_mismatch, MismatchInfoV = zero_mismatch\<rparr>"

definition zero_rejected :: RejectedReply where
  "zero_rejected = \<lparr>RStat = 0, MismatchInfo = zero_mismatch, RAuthStat = 0\<rparr>"

definition zero_reply :: ReplyBody where
  "zero_reply = \<lparr>Stat = 0, Areply = zero_accepted, Rreply = zero_rejected\<rparr>"

lemmas zero_msg = zero_auth_def zero_call_def zero_mismatch_def zero_accepted_def zero_rejected_def zero_reply_def

section \<open>What reflection shows of them\<close>

definition OpaqueAuth_type :: gotype where
  "OpaqueAuth_type = TStruct [(xtag '''', TI32), (xtag '''', TBytes)]"

definition CallBody_type :: gotype where
  "CallBody_type = TStruct [(xtag '''', TU32), (xtag '''', TU32), (xtag '''', TU32), (xtag '''', TU32),
     (xtag '''', OpaqueAuth_type), (xtag '''', OpaqueAuth_type)]"

definition MismatchReply_type :: gotype where
  "MismatchReply_type = TStruct [(xtag '''', TU32), (xtag '''', TU32)]"

definition AcceptedReply_type :: gotype where
  "AcceptedReply_type = TStruct [(xtag '''', OpaqueAuth_type), (xtag ''union'', TI32),
     (xtag ''unioncase=1'', MismatchReply_type), (xtag ''unioncase=2'', MismatchReply_type)]"

definition RejectedReply_type :: gotype where
  "RejectedReply_type = TStruct [(xtag ''union'', TI32), (xtag ''unioncase=0'', MismatchReply_type),
     (xtag ''unioncase=1'', TI32)]"

definition ReplyBody_type :: gotype where
  "ReplyBody_type = TStruct [(xtag ''union'', TI32), (xtag ''unioncase=0'', AcceptedReply_type),
     (xtag ''unioncase=1'', RejectedReply_type)]"

definition RPCMsg_type :: gotype where
  "RPCMsg_type = TStruct [(xtag '''', TU32), (xtag ''union'', TI32), (xtag ''unioncase=0'', CallBody_type),
     (xtag ''unioncase=1'', ReplyBody_type)]"

lemmas rpc_types = OpaqueAuth_type_def CallBody_type_def MismatchReply_type_def AcceptedReply_type_def
  RejectedReply_type_def ReplyBody_type_def RPCMsg_type_def

lemma RPCMsg_type_ok: "wf_ty g RPCMsg_type" "plain RPCMsg_type" "tdepth RPCMsg_type = 6"
  by (simp_all add: rpc_types maxl_def)

definition rv_auth :: "OpaqueAuth \<Rightarrow> rvalue" where
  "rv_auth a = RStruct [(xtag '''', rv_i32 (Flavor a)), (xtag '''', rv_bytes (Body a))]"

definition rv_call :: "CallBody \<Rightarrow> rvalue" where
  "rv_call c = RStruct [(xtag '''', rv_u32 (RPCVersion c)), (xtag '''', rv_u32 (Program c)),
     (xtag '''', rv_u32 (Version c)), (xtag '''', rv_u32 (Procedure c)),
     (xtag '''', rv_auth (Cred c)), (xtag '''', rv_auth (Verf c))]"

definition rv_mismatch :: "MismatchReply \<Rightarrow> rvalue" where
  "rv_mismatch m = RStruct [(xtag '''', rv_u32 (Low m)), (xtag '''', rv_u32 (High m))]"

definition rv_accepted :: "AcceptedReply \<Rightarrow> rvalue" where
  "rv_accepted a = RStruct [(xtag '''', rv_auth (AVerf a)), (xtag ''union'', rv_i32 (AStat a)),
     (xtag ''unioncase=1'', rv_mismatch (MismatchInfoP a)), (xtag ''unioncase=2'', rv_mismatch (MismatchInfoV a))]"

definition rv_rejected :: "RejectedReply \<Rightarrow> rvalue" where
  "rv_rejected r = RStruct [(xtag ''union'', rv_i32 (RStat r)), (xtag ''unioncase=0'', rv_mismatch (MismatchInfo r)),
     (xtag ''unioncase=1'', rv_i32 (RAuthStat r))]"

definition rv_reply :: "ReplyBody \<Rightarrow> rvalue" where
  "rv_reply r = RStruct [(xtag ''union'', rv_i32 (Stat r)), (xtag ''unioncase=0'', rv_accepted (Areply r)),
     (xtag ''unioncase=1'', rv_rejected (Rreply r))]"

definition rv_msg :: "RPCMsg \<Rightarrow> rvalue" where
  "rv_msg m = RStruct [(xtag '''', rv_u32 (Xid m)), (xtag ''union'', rv_i32 (Type m)),
     (xtag ''unioncase=0'', rv_call (CBody m)), (xtag ''unioncase=1'', rv_reply (RBody m))]"

lemmas rv_rpc = rv_auth_def rv_call_def rv_mismatch_def rv_accepted_def rv_rejected_def rv_reply_def rv_msg_def

definition un_auth :: "rvalue \<Rightarrow> OpaqueAuth" where
  "un_auth v = \<lparr>Flavor = un_i32 (un_field 0 v), Body = un_bytes (un_field 1 v)\<rparr>"

definition un_call :: "rvalue \<Rightarrow> CallBody" where
  "un_call v = \<lparr>RPCVersion = un_u32 (un_field 0 v), Program = un_u32 (un_field 1 v), Version = un_u32 (un_field 2 v),
     Procedure = un_u32 (un_field 3 v), Cred = un_auth (un_field 4 v), Verf = un_auth (un_field 5 v)\<rparr>"

definition un_mismatch :: "rvalue \<Rightarrow> MismatchReply" where
  "un_mismatch v = \<lparr>Low = un_u32 (un_field 0 v), High = un_u32 (un_field 1 v)\<rparr>"

definition un_accepted :: "rvalue \<Rightarrow> AcceptedReply" where
  "un_accepted v = \<lparr>AVerf = un_auth (un_field 0 v), AStat = un_i32 (un_field 1 v),
     MismatchInfoP = un_mismatch (un_field 2 v), MismatchInfoV = un_mismatch (un_field 3 v)\<rparr>"

definition un_rejected :: "rvalue \<Rightarrow> RejectedReply" where
  "un_rejected v = \<lparr>RStat = un_i32 (un_field 0 v), MismatchInfo = un_mismatch (un_field 1 v),
     RAuthStat = un_i32 (un_field 2 v)\<rparr>"

definition un_reply :: "rvalue \<Rightarrow> ReplyBody" where
  "un_reply v = \<lparr>Stat = un_i32 (un_field 0 v), Areply = un_accepted (un_field 1 v), Rreply = un_rejected (un_field 2 v)\<rparr>"

definition un_msg :: "rvalue \<Rightarrow> RPCMsg" where
  "un_msg v = \<lparr>Xid = un_u32 (un_field 0 v), Type = un_i32 (un_field 1 v), CBody = un_call (un_field 2 v),
     RBody = un_reply (un_field 3 v)\<rparr>"

lemmas un_rpc = un_auth_def un_call_def un_mismatch_def un_accepted_def un_rejected_def un_reply_def un_msg_def

lemma un_rv_msg [simp]: "un_msg (rv_msg m) = m"
  by (simp add: un_rpc rv_rpc)

lemma rv_msg_typed: "has_type G RPCMsg_type (rv_msg m)"
  by (simp add: rpc_types rv_rpc)

section \<open>The struct tags\<close>

lemma rpc_tags [simp]:
  "opt \<noteq> '''' \<Longrightarrow> tag_Get '''' opt = ''''"
  "tag_Get ''union'' ''union'' = ''true''" "tag_Get ''union'' ''optional'' = ''''" "tag_Get ''union'' ''opaque'' = ''''"
  "tag_Get ''unioncase=0'' ''union'' = ''''" "tag_Get ''unioncase=1'' ''union'' = ''''" "tag_Get ''unioncase=2'' ''union'' = ''''"
  "tag_Get ''unioncase=0'' ''optional'' = ''''" "tag_Get ''unioncase=1'' ''optional'' = ''''" "tag_Get ''unioncase=2'' ''optional'' = ''''"
  "tag_Get ''unioncase=0'' ''opaque'' = ''''" "tag_Get ''unioncase=1'' ''opaque'' = ''''" "tag_Get ''unioncase=2'' ''opaque'' = ''''"
  by (simp_all add: tag_Get_eq)

lemma rpc_skip [simp]:
  "\<not> skip_case '''' d" "\<not> skip_case ''union'' d"
  "skip_case ''unioncase=0'' d = (d \<noteq> '''' \<and> d \<noteq> ''0'')"
  "skip_case ''unioncase=1'' d = (d \<noteq> '''' \<and> d \<noteq> ''1'')"
  "skip_case ''unioncase=2'' d = (d \<noteq> '''' \<and> d \<noteq> ''2'')"
  by (auto simp: skip_case_def tag_Get_eq)

lemma rpc_case_tagged [simp]:
  "\<not> case_tagged ''''" "\<not> case_tagged ''union''" "case_tagged ''unioncase=0''" "case_tagged ''unioncase=1''" "case_tagged ''unioncase=2''"
  by (simp_all add: case_tagged_def tag_Get_eq)

lemma Itoa_digits [simp]:
  "Itoa 0 = ''0''" "Itoa 1 = ''1''" "Itoa 2 = ''2''" "Itoa 3 = ''3''" "Itoa 4 = ''4''" "Itoa 5 = ''5''"
  by code_simp+

lemma Itoa_eq_digits: "Itoa i = ''0'' \<longleftrightarrow> i = 0" "Itoa i = ''1'' \<longleftrightarrow> i = 1" "Itoa i = ''2'' \<longleftrightarrow> i = 2"
  using Itoa_inj [of i 0] Itoa_inj [of i 1] Itoa_inj [of i 2] by simp_all

end
