(* ===== verification/Onc_Server.thy ===== *)
theory Onc_Server
  imports Onc_Types
begin

text \<open>
  \<^verbatim>\<open>oncrpc/servercodec.go\<close>: the server side of the codec, a state of type \<open>'w serverCodec\<close> that its
  methods update: the bytes still to come from the peer, the state of the connection's writer,
  whether the connection was closed, the reader over the current record, the procedure table and the
  index of the program of the current call.  What the methods log is left out.
\<close>

section \<open>The net/rpc messages\<close>

record rpcRequest =
  ServiceMethod :: string
  Seq :: u64

record rpcResponse =
  RServiceMethod :: string
  RSeq :: u64
  Error :: string

datatype rpcerr = RecordErr recerror | WriteErr ioerror | XdrErr goerror | Message string

record 'w serverCodec =
  conn_in :: bytes
  conn_out :: 'w
  closed :: bool
  recordReader :: bytes
  procTable :: "ProcEntry list"
  currentProgIndex :: int

definition NewServerCodec :: "bytes \<Rightarrow> 'w \<Rightarrow> ProcEntry list \<Rightarrow> 'w serverCodec" where
  "NewServerCodec inp out table =
     \<lparr>conn_in = inp, conn_out = out, closed = False, recordReader = [], procTable = table, currentProgIndex = -1\<rparr>"

definition Close :: "'w serverCodec \<Rightarrow> 'w serverCodec" where
  "Close c = c\<lparr>closed := True\<rparr>"

section \<open>Reading a request\<close>

text \<open>The loop over the table: the first entry of the program.\<close>

fun find_prog :: "u32 \<Rightarrow> ProcEntry list \<Rightarrow> nat option" where
  "find_prog p [] = None"
| "find_prog p (e # es) = (if p = PProgram e then Some 0 else map_option Suc (find_prog p es))"

text \<open>The decisions of \<^verbatim>\<open>ReadRequestHeader\<close> on a decoded call: the service method, and the index of
  the program when it was found.\<close>

definition dispatch :: "ProcEntry list \<Rightarrow> CallBody \<Rightarrow> string \<times> nat option" where
  "dispatch table call =
     (if RPCVersion call \<noteq> RPCProtocolVersion then (''NfsProc.RPCMismatch'', None)
      else if Flavor (Cred call) \<noteq> AuthNone \<and> Flavor (Cred call) \<noteq> AuthSys then (''NfsProc.AuthError'', None)
      else
        (case find_prog (Program call) table of
           None \<Rightarrow> (''NfsProc.ProgUnavail'', None)
         | Some i \<Rightarrow>
             if Version call \<noteq> PVersion (table ! i) then (''NfsProc.ProgMismatch'', Some i)
             else if unat (Procedure call) \<ge> unat (of_nat (length (ProcList (table ! i))) :: u32)
             then (''NfsProc.ProcUnavail'', Some i)
             else (ProcList (table ! i) ! unat (Procedure call), Some i)))"

text \<open>The recursion depth for decoding the header is its type's (\<open>header_depth\<close> below).\<close>

definition rpc_depth :: nat where
  "rpc_depth = 8"

definition decode_header :: "genv \<Rightarrow> bytes \<Rightarrow> (RPCMsg \<times> goerror option \<times> bytes) go" where
  "decode_header G bs =
     bindG (Unmarshal G rpc_depth bs (Some (RPtr RPCMsg_type (Some (zero RPCMsg_type)))))
       (\<lambda>(p, n, err, rest). Inr (un_msg (case p of Some v \<Rightarrow> (case un_ptr v of Some u \<Rightarrow> u | None \<Rightarrow> RInvalid) | None \<Rightarrow> RInvalid), err, rest))"

definition ReadRequestHeader ::
  "genv \<Rightarrow> (nat \<Rightarrow> nat \<Rightarrow> nat) \<Rightarrow> rpcRequest \<Rightarrow> 'w serverCodec \<Rightarrow> (rpcRequest \<times> rpcerr option \<times> 'w serverCodec) go" where
  "ReadRequestHeader G grow req c =
     (case ReadFullRecord grow (conn_in c) of
        (Inl e, rest) \<Rightarrow> Inr (req, Some (RecordErr e), c\<lparr>conn_in := rest\<rparr>)
      | (Inr rcd, rest) \<Rightarrow>
          bindG (decode_header G rcd) (\<lambda>(call, err, rcd').
            (let c1 = c\<lparr>conn_in := rest, recordReader := rcd'\<rparr> in
             case err of
               Some e \<Rightarrow> Inr (req, Some (XdrErr e), c1)
             | None \<Rightarrow>
                 if Type call \<noteq> Call
                 then Inr (req, Some (Message (''InvalidRPCMessageType: '' @ Itoa (sint (Type call)))), c1)
                 else
                   (case dispatch (procTable c) (CBody call) of (meth, ix) \<Rightarrow>
                      Inr (req\<lparr>Seq := ucast (Xid call), ServiceMethod := meth\<rparr>, None,
                        (case ix of None \<Rightarrow> c1 | Some i \<Rightarrow> c1\<lparr>currentProgIndex := int i\<rparr>))))))"

text \<open>
  \<^verbatim>\<open>ReadRequestBody(funcArgs)\<close>: \<open>funcArgs\<close> is the interface value the RPC package passes (a pointer
  to the argument), or nil when the arguments are to be skipped.  An error closes the connection, but
  nil is returned: the method is called with what was decoded.
\<close>

definition ReadRequestBody ::
  "genv \<Rightarrow> nat \<Rightarrow> rvalue option \<Rightarrow> 'w serverCodec \<Rightarrow> (rvalue option \<times> rpcerr option \<times> 'w serverCodec) go" where
  "ReadRequestBody G d funcArgs c =
     (case funcArgs of
        None \<Rightarrow> Inr (None, None, c)
      | Some v \<Rightarrow>
          bindG (Unmarshal G d (recordReader c) (Some (RPtr TIface (Some (RIface (Some v))))))
            (\<lambda>(p, n, err, rest).
               (let c1 = c\<lparr>recordReader := rest\<rparr>;
                    arg = (case p of Some (RPtr T (Some (RIface (Some u)))) \<Rightarrow> Some u | _ \<Rightarrow> None) in
                Inr (arg, None, if err = None then c1 else Close c1))))"

section \<open>Writing a response\<close>

text \<open>The reply header for a service method; the procedure table is indexed by the first, the last and
  the current program (an index out of range panics).\<close>

definition base_reply :: "u32 \<Rightarrow> RPCMsg" where
  "base_reply xid = \<lparr>Xid = xid, Type = Reply, CBody = zero_call,
     RBody = zero_reply\<lparr>Stat := MsgAccepted, Areply := zero_accepted\<lparr>AStat := Success\<rparr>\<rparr>\<rparr>"

definition set_accepted :: "RPCMsg \<Rightarrow> (AcceptedReply \<Rightarrow> AcceptedReply) \<Rightarrow> RPCMsg" where
  "set_accepted m f = m\<lparr>RBody := (RBody m)\<lparr>Areply := f (Areply (RBody m))\<rparr>\<rparr>"

definition set_rejected :: "RPCMsg \<Rightarrow> (RejectedReply \<Rightarrow> RejectedReply) \<Rightarrow> RPCMsg" where
  "set_rejected m f = m\<lparr>RBody := (RBody m)\<lparr>Rreply := f (Rreply (RBody m))\<rparr>\<rparr>"

definition response_header :: "string \<Rightarrow> u64 \<Rightarrow> 'w serverCodec \<Rightarrow> RPCMsg go" where
  "response_header meth s c =
     (let m = base_reply (ucast s); table = procTable c in
      if meth = ''NfsProc.ProgUnavail'' then
        (if table = [] then Inl Panic
         else Inr (set_accepted m (\<lambda>a. a\<lparr>MismatchInfoP := \<lparr>Low = PProgram (table ! 0), High = PProgram (last table)\<rparr>,
                                       AStat := ProgUnavail\<rparr>)))
      else if meth = ''NfsProc.ProgMismatch'' then
        (if currentProgIndex c < 0 \<or> int (length table) \<le> currentProgIndex c then Inl Panic
         else let v = PVersion (table ! nat (currentProgIndex c)) in
           Inr (set_accepted m (\<lambda>a. a\<lparr>MismatchInfoV := \<lparr>Low = v, High = v\<rparr>, AStat := ProgMismatch\<rparr>)))
      else if meth = ''NfsProc.ProcUnavail'' then Inr (set_accepted m (\<lambda>a. a\<lparr>AStat := ProcUnavail\<rparr>))
      else if meth = ''NfsProc.GarbageArgs'' then Inr (set_accepted m (\<lambda>a. a\<lparr>AStat := GarbageArgs\<rparr>))
      else if meth = ''NfsProc.SystemErr'' then Inr (set_accepted m (\<lambda>a. a\<lparr>AStat := SystemErr\<rparr>))
      else if meth = ''NfsProc.RPCMismatch'' then
        Inr (set_rejected m (\<lambda>r. r\<lparr>MismatchInfo := \<lparr>Low = 2, High = 2\<rparr>, RStat := RPCMismatch\<rparr>))
      else if meth = ''NfsProc.AuthError'' then
        Inr (set_rejected m (\<lambda>r. r\<lparr>RAuthStat := AuthBadcred, RStat := AuthError\<rparr>))
      else Inr m)"

definition WriteResponse ::
  "genv \<Rightarrow> 'w writer \<Rightarrow> rpcResponse \<Rightarrow> rvalue option \<Rightarrow> 'w serverCodec \<Rightarrow> (rpcerr option \<times> 'w serverCodec) go" where
  "WriteResponse G conn resp result c =
     bindG (response_header (RServiceMethod resp) (RSeq resp) c) (\<lambda>reply.
     bindG (Marshal G buffer_write [] (Some (rv_msg reply))) (\<lambda>(n, err, buf).
       (case err of
          Some e \<Rightarrow> Inr (Some (XdrErr e), Close c)
        | None \<Rightarrow>
            bindG (Marshal G buffer_write buf result) (\<lambda>(n2, err2, buf2).
              (case err2 of
                 Some e \<Rightarrow> Inr (Some (XdrErr e), Close c)
               | None \<Rightarrow>
                   bindG (WriteFullRecord conn buf2 (conn_out c)) (\<lambda>(n3, err3, out).
                     (case err3 of
                        Some e \<Rightarrow> Inr (Some (WriteErr e), Close (c\<lparr>conn_out := out\<rparr>))
                      | None \<Rightarrow> Inr (None, c\<lparr>conn_out := out\<rparr>))))))))"

end
