(* ===== verification/Onc_Wire.thy ===== *)
theory Onc_Wire
  imports Onc_Server
begin

text \<open>
  The bytes of RPC messages: \<open>msg_bytes\<close> is the layout RFC 5531 gives, \<open>Marshal_msg\<close> proves that the
  encoder, driven by the struct tags of \<^verbatim>\<open>rpctypes.go\<close>, writes it, and \<open>decode_header_msg\<close> that
  the server's header decoding reads it.
\<close>

definition opaque_bytes :: "bytes \<Rightarrow> bytes" where
  "opaque_bytes b = be32 (of_nat (length b)) @ b @ replicate (pad_len (length b) - length b) 0"

definition auth_bytes :: "OpaqueAuth \<Rightarrow> bytes" where
  "auth_bytes a = be32 (Flavor a) @ opaque_bytes (Body a)"

definition call_bytes :: "CallBody \<Rightarrow> bytes" where
  "call_bytes c = be32 (RPCVersion c) @ be32 (Program c) @ be32 (Version c) @ be32 (Procedure c) @
     auth_bytes (Cred c) @ auth_bytes (Verf c)"

definition mismatch_bytes :: "MismatchReply \<Rightarrow> bytes" where
  "mismatch_bytes m = be32 (Low m) @ be32 (High m)"

definition accepted_bytes :: "AcceptedReply \<Rightarrow> bytes" where
  "accepted_bytes a = auth_bytes (AVerf a) @ be32 (AStat a) @
     (if AStat a = ProgUnavail then mismatch_bytes (MismatchInfoP a)
      else if AStat a = ProgMismatch then mismatch_bytes (MismatchInfoV a) else [])"

definition rejected_bytes :: "RejectedReply \<Rightarrow> bytes" where
  "rejected_bytes r = be32 (RStat r) @
     (if RStat r = RPCMismatch then mismatch_bytes (MismatchInfo r)
      else if RStat r = AuthError then be32 (RAuthStat r) else [])"

definition reply_bytes :: "ReplyBody \<Rightarrow> bytes" where
  "reply_bytes r = be32 (Stat r) @
     (if Stat r = MsgAccepted then accepted_bytes (Areply r)
      else if Stat r = MsgDenied then rejected_bytes (Rreply r) else [])"

definition msg_bytes :: "RPCMsg \<Rightarrow> bytes" where
  "msg_bytes m = be32 (Xid m) @ be32 (Type m) @
     (if Type m = Call then call_bytes (CBody m)
      else if Type m = Reply then reply_bytes (RBody m) else [])"

section \<open>The encoder writes this layout\<close>

text \<open>\<open>enc_to d v b\<close>: with depth at least \<open>d\<close> the encoder writes \<open>b\<close> for \<open>v\<close>.\<close>

definition enc_to :: "genv \<Rightarrow> nat \<Rightarrow> rvalue \<Rightarrow> bytes \<Rightarrow> bool" where
  "enc_to G d v b \<longleftrightarrow> (\<forall>e w. d \<le> e \<longrightarrow> encode G buffer_write e v w = Inr (length b, None, w @ b))"

lemma enc_to_mono: "enc_to G d v b \<Longrightarrow> d \<le> d' \<Longrightarrow> enc_to G d' v b"
  by (simp add: enc_to_def)

lemma enc_to_scalar:
  "enc_to G 1 (rv_u32 x) (be32 x)" "enc_to G 1 (rv_u64 y) (be64 y)" "enc_to G 1 (rv_i32 z) (be32 z)"
proof -
  have "encode G buffer_write e (rv_u32 x) w = Inr (4, None, w @ be32 x) \<and>
    encode G buffer_write e (rv_u64 y) w = Inr (8, None, w @ be64 y) \<and>
    encode G buffer_write e (rv_i32 z) w = Inr (4, None, w @ be32 z)" if "1 \<le> e" for e w
    using that by (cases e) (simp_all add: rv_u32_def rv_u64_def rv_i32_def encode_kind_def Encode_buffer
        ucast_scast_32 ucast_ucast_32)
  then show "enc_to G 1 (rv_u32 x) (be32 x)" "enc_to G 1 (rv_u64 y) (be64 y)" "enc_to G 1 (rv_i32 z) (be32 z)"
    by (simp_all add: enc_to_def)
qed

lemma enc_to_bytes: "enc_to G 1 (rv_bytes b) (opaque_bytes b)"
proof -
  have "encode G buffer_write e (rv_bytes b) w = Inr (length (opaque_bytes b), None, w @ opaque_bytes b)" if "1 \<le> e" for e w
    using that pad_len_bounds(1) [of "length b"]
    by (cases e) (simp_all add: rv_bytes_def encode_kind_def encodeArray_def encodeFixedArray_def Encode_buffer
        EncodeFixedOpaque_buffer seqE_def opaque_bytes_def)
  then show ?thesis by (simp add: enc_to_def)
qed

text \<open>A structure whose fields have the tags of the RPC types: \<open>fields_to disc fs b\<close> is the rest of
  its bytes.\<close>

definition fields_to :: "genv \<Rightarrow> nat \<Rightarrow> string \<Rightarrow> (fieldinfo \<times> rvalue) list \<Rightarrow> bytes \<Rightarrow> bool" where
  "fields_to G d disc fs b \<longleftrightarrow>
     (\<forall>e w. d \<le> e \<longrightarrow> encode_fields G buffer_write (encode G buffer_write e) disc fs w = Inr (length b, None, w @ b))"

lemma enc_to_struct: "fields_to G d '''' fs b \<Longrightarrow> enc_to G (Suc d) (RStruct fs) b"
  unfolding enc_to_def
proof (intro allI impI)
  fix e w assume f: "fields_to G d '''' fs b" and "Suc d \<le> e"
  then obtain e' where "e = Suc e'" "d \<le> e'" by (cases e) auto
  with f show "encode G buffer_write e (RStruct fs) w = Inr (length b, None, w @ b)"
    by (simp add: encode_kind_def encodeStruct_def fields_to_def)
qed

lemma fields_to_Nil: "fields_to G d disc [] []"
  by (simp add: fields_to_def doneE_def)

lemma fields_to_plain:
  assumes "enc_to G d v b" and "fields_to G d disc fs bs" and "\<not> is_ptr v"
  shows "fields_to G d disc ((xtag '''', v) # fs) (b @ bs)"
  using assms
  by (simp add: fields_to_def enc_to_def indirect_id Let_def encode_field_def encode_member_def seqE_def)

lemma fields_to_union:
  assumes "enc_to G d v b" and "discriminant G v = Inr (Some d')" and "fields_to G d d' fs bs" and "\<not> is_ptr v"
  shows "fields_to G d disc ((xtag ''union'', v) # fs) (b @ bs)"
  using assms
  by (simp add: fields_to_def enc_to_def indirect_id Let_def encode_field_def encode_member_def seqE_def)

lemma fields_to_case:
  assumes tag: "tag_Get t ''union'' = ''''" "tag_Get t ''optional'' = ''''" "tag_Get t ''opaque'' = ''''"
    and "skip_case t disc = (\<not> sel)"
    and "sel \<Longrightarrow> enc_to G d v b" and "fields_to G d disc fs bs" and "\<not> is_ptr v"
  shows "fields_to G d disc ((xtag t, v) # fs) ((if sel then b else []) @ bs)"
  using assms
  by (cases sel) (simp_all add: fields_to_def enc_to_def indirect_id Let_def encode_field_def encode_member_def seqE_def)

lemma rv_not_ptr [simp]:
  "\<not> is_ptr (rv_u32 x)" "\<not> is_ptr (rv_i32 z)" "\<not> is_ptr (rv_u64 y)" "\<not> is_ptr (rv_bytes b)" "\<not> is_ptr (rv_auth a)"
  "\<not> is_ptr (rv_call c)" "\<not> is_ptr (rv_mismatch m)" "\<not> is_ptr (rv_accepted ac)" "\<not> is_ptr (rv_rejected r)"
  "\<not> is_ptr (rv_reply rb)" "\<not> is_ptr (rv_msg msg)"
  by (simp_all add: rv_rpc rv_u32_def rv_u64_def rv_i32_def rv_bytes_def)

lemma enc_to_auth: "enc_to G 2 (rv_auth a) (auth_bytes a)"
proof -
  have "fields_to G 1 '''' [(xtag '''', rv_i32 (Flavor a)), (xtag '''', rv_bytes (Body a))]
      (be32 (Flavor a) @ opaque_bytes (Body a) @ [])"
    by (intro fields_to_plain fields_to_Nil enc_to_scalar enc_to_bytes rv_not_ptr)
  from enc_to_struct [OF this] show ?thesis by (simp add: rv_auth_def auth_bytes_def numeral_2_eq_2)
qed

lemma enc_to_scalar': "1 \<le> d \<Longrightarrow> enc_to G d (rv_u32 x) (be32 x)" "1 \<le> d \<Longrightarrow> enc_to G d (rv_i32 z) (be32 z)"
  by (rule enc_to_mono [OF enc_to_scalar(1)], assumption) (rule enc_to_mono [OF enc_to_scalar(3)], assumption)

lemma enc_to_call: "enc_to G 3 (rv_call c) (call_bytes c)"
proof -
  have "fields_to G 2 '''' [(xtag '''', rv_u32 (RPCVersion c)), (xtag '''', rv_u32 (Program c)),
     (xtag '''', rv_u32 (Version c)), (xtag '''', rv_u32 (Procedure c)),
     (xtag '''', rv_auth (Cred c)), (xtag '''', rv_auth (Verf c))]
     (be32 (RPCVersion c) @ be32 (Program c) @ be32 (Version c) @ be32 (Procedure c) @
       auth_bytes (Cred c) @ auth_bytes (Verf c) @ [])"
    by (intro fields_to_plain fields_to_Nil enc_to_scalar' enc_to_auth rv_not_ptr) simp_all
  from enc_to_struct [OF this] show ?thesis by (simp add: rv_call_def call_bytes_def numeral_3_eq_3 numeral_2_eq_2)
qed

lemma enc_to_mismatch: "enc_to G 2 (rv_mismatch m) (mismatch_bytes m)"
proof -
  have "fields_to G 1 '''' [(xtag '''', rv_u32 (Low m)), (xtag '''', rv_u32 (High m))] (be32 (Low m) @ be32 (High m) @ [])"
    by (intro fields_to_plain fields_to_Nil enc_to_scalar' rv_not_ptr) simp_all
  from enc_to_struct [OF this] show ?thesis by (simp add: rv_mismatch_def mismatch_bytes_def numeral_2_eq_2)
qed

lemma Itoa_nonempty [simp]: "Itoa i \<noteq> ''''"
  by (simp add: Itoa_def nat_digits_nonempty)

lemma sint_eq_small: "sint (x :: 32 word) = 0 \<longleftrightarrow> x = 0" "sint x = 1 \<longleftrightarrow> x = 1" "sint x = 2 \<longleftrightarrow> x = 2"
proof -
  have "sint x = sint (y :: 32 word) \<longleftrightarrow> x = y" for y by (metis signed_word_eqI)
  from this [of 0] this [of 1] this [of 2] show "sint x = 0 \<longleftrightarrow> x = 0" "sint x = 1 \<longleftrightarrow> x = 1" "sint x = 2 \<longleftrightarrow> x = 2"
    by simp_all
qed

lemma disc_case [simp]:
  "Itoa (sint (x :: 32 word)) = ''0'' \<longleftrightarrow> x = 0" "Itoa (sint x) = ''1'' \<longleftrightarrow> x = 1" "Itoa (sint x) = ''2'' \<longleftrightarrow> x = 2"
  by (simp_all add: Itoa_eq_digits sint_eq_small)

lemma enc_to_accepted: "enc_to G 3 (rv_accepted a) (accepted_bytes a)"
proof -
  have "fields_to G 2 '''' [(xtag '''', rv_auth (AVerf a)), (xtag ''union'', rv_i32 (AStat a)),
     (xtag ''unioncase=1'', rv_mismatch (MismatchInfoP a)), (xtag ''unioncase=2'', rv_mismatch (MismatchInfoV a))]
     (auth_bytes (AVerf a) @ be32 (AStat a) @ (if AStat a = 1 then mismatch_bytes (MismatchInfoP a) else []) @
       (if AStat a = 2 then mismatch_bytes (MismatchInfoV a) else []) @ [])"
    by (intro fields_to_plain fields_to_union [OF _ rv_discriminant] fields_to_case fields_to_Nil enc_to_scalar'
        enc_to_auth enc_to_mismatch rv_not_ptr) simp_all
  from enc_to_struct [OF this] show ?thesis
    by (cases "AStat a = 1"; cases "AStat a = 2"; simp add: rv_accepted_def accepted_bytes_def ProgUnavail_def ProgMismatch_def numeral_3_eq_3 numeral_2_eq_2)
qed

lemma enc_to_rejected: "enc_to G 3 (rv_rejected r) (rejected_bytes r)"
proof -
  have "fields_to G 2 '''' [(xtag ''union'', rv_i32 (RStat r)), (xtag ''unioncase=0'', rv_mismatch (MismatchInfo r)),
     (xtag ''unioncase=1'', rv_i32 (RAuthStat r))]
     (be32 (RStat r) @ (if RStat r = 0 then mismatch_bytes (MismatchInfo r) else []) @
       (if RStat r = 1 then be32 (RAuthStat r) else []) @ [])"
    by (intro fields_to_union [OF _ rv_discriminant] fields_to_case fields_to_Nil enc_to_scalar'
        enc_to_mismatch rv_not_ptr) simp_all
  from enc_to_struct [OF this] show ?thesis
    by (cases "RStat r = 0"; cases "RStat r = 1"; simp add: rv_rejected_def rejected_bytes_def RPCMismatch_def AuthError_def numeral_3_eq_3 numeral_2_eq_2)
qed

lemma enc_to_reply: "enc_to G 4 (rv_reply r) (reply_bytes r)"
proof -
  have "fields_to G 3 '''' [(xtag ''union'', rv_i32 (Stat r)), (xtag ''unioncase=0'', rv_accepted (Areply r)),
     (xtag ''unioncase=1'', rv_rejected (Rreply r))]
     (be32 (Stat r) @ (if Stat r = 0 then accepted_bytes (Areply r) else []) @
       (if Stat r = 1 then rejected_bytes (Rreply r) else []) @ [])"
    by (intro fields_to_union [OF _ rv_discriminant] fields_to_case fields_to_Nil enc_to_scalar'
        enc_to_accepted enc_to_rejected rv_not_ptr) simp_all
  from enc_to_struct [OF this] show ?thesis
    by (cases "Stat r = 0"; cases "Stat r = 1"; simp add: rv_reply_def reply_bytes_def MsgAccepted_def MsgDenied_def)
qed

lemma enc_to_msg: "enc_to G 5 (rv_msg m) (msg_bytes m)"
proof -
  have "fields_to G 4 '''' [(xtag '''', rv_u32 (Xid m)), (xtag ''union'', rv_i32 (Type m)),
     (xtag ''unioncase=0'', rv_call (CBody m)), (xtag ''unioncase=1'', rv_reply (RBody m))]
     (be32 (Xid m) @ be32 (Type m) @ (if Type m = 0 then call_bytes (CBody m) else []) @
       (if Type m = 1 then reply_bytes (RBody m) else []) @ [])"
    by (intro fields_to_plain fields_to_union [OF _ rv_discriminant] fields_to_case fields_to_Nil enc_to_scalar'
        enc_to_mono [OF enc_to_call] enc_to_reply rv_not_ptr) simp_all
  from enc_to_struct [OF this] show ?thesis
    by (cases "Type m = 0"; cases "Type m = 1"; simp add: rv_msg_def msg_bytes_def Call_def Reply_def)
qed

lemma vdepth_bytes: "1 \<le> vdepth (rv_bytes b)" "vdepth (rv_bytes b) \<le> 2"
  using vdepth_pos [of "rv_bytes b"] by simp_all

lemma vdepth_msg: "5 \<le> vdepth (rv_msg m)" "vdepth (rv_msg m) \<le> 6"
proof -
  have le: "vdepth (rv_bytes b) \<le> 3" for b by (rule order.trans [OF vdepth_bytes(2)]) simp
  have ge: "Suc 0 \<le> vdepth (rv_bytes b)" for b using vdepth_bytes(1) [of b] by simp
  show "5 \<le> vdepth (rv_msg m)" using ge [of "Body (AVerf (Areply (RBody m)))"]
    by (simp add: rv_rpc maxl_def le_max_iff_disj)
  show "vdepth (rv_msg m) \<le> 6"
    using le vdepth_bytes(2) by (simp add: rv_rpc maxl_def)
qed

lemma Marshal_enc_to:
  "enc_to G d v b \<Longrightarrow> d \<le> vdepth v \<Longrightarrow> \<not> is_ptr v \<Longrightarrow>
     Marshal G buffer_write w (Some v) = Inr (length b, None, w @ b)"
  by (cases v) (simp_all add: Marshal_def Encode_def enc_to_def del: vdepth.simps)

lemma Marshal_msg_to: "Marshal G buffer_write w (Some (rv_msg m)) = Inr (length (msg_bytes m), None, w @ msg_bytes m)"
  by (rule Marshal_enc_to [OF enc_to_msg vdepth_msg(1)]) simp

section \<open>The server reads it\<close>

text \<open>What arrives: the arm of each union that was sent, zero elsewhere.\<close>

definition sent_accepted :: "AcceptedReply \<Rightarrow> AcceptedReply" where
  "sent_accepted a = a\<lparr>MismatchInfoP := (if AStat a = ProgUnavail then MismatchInfoP a else zero_mismatch),
     MismatchInfoV := (if AStat a = ProgMismatch then MismatchInfoV a else zero_mismatch)\<rparr>"

definition sent_rejected :: "RejectedReply \<Rightarrow> RejectedReply" where
  "sent_rejected r = r\<lparr>MismatchInfo := (if RStat r = RPCMismatch then MismatchInfo r else zero_mismatch),
     RAuthStat := (if RStat r = AuthError then RAuthStat r else 0)\<rparr>"

definition sent_reply :: "ReplyBody \<Rightarrow> ReplyBody" where
  "sent_reply r = r\<lparr>Areply := (if Stat r = MsgAccepted then sent_accepted (Areply r) else zero_accepted),
     Rreply := (if Stat r = MsgDenied then sent_rejected (Rreply r) else zero_rejected)\<rparr>"

definition sent_msg :: "RPCMsg \<Rightarrow> RPCMsg" where
  "sent_msg m = m\<lparr>CBody := (if Type m = Call then CBody m else zero_call),
     RBody := (if Type m = Reply then sent_reply (RBody m) else zero_reply)\<rparr>"

lemma zero_rv: "zero (type_of (rv_mismatch m)) = rv_mismatch zero_mismatch"
  "zero (type_of (rv_auth a)) = rv_auth zero_auth" "zero (type_of (rv_i32 z)) = rv_i32 0"
  by (simp_all add: rv_rpc zero_msg rv_u32_def rv_i32_def rv_bytes_def)

lemma zero_rv2: "zero (type_of (rv_call c)) = rv_call zero_call"
  "zero (type_of (rv_accepted ac)) = rv_accepted zero_accepted"
  "zero (type_of (rv_rejected r)) = rv_rejected zero_rejected" 
  by (simp_all add: rv_rpc zero_msg rv_u32_def rv_i32_def rv_bytes_def)

lemma zero_rv3: "zero (type_of (rv_reply rb)) = rv_reply zero_reply"
  by (simp add: rv_rpc zero_msg rv_u32_def rv_i32_def rv_bytes_def)

lemma seq_field_none: "tag_Get t ''opaque'' = '''' \<Longrightarrow> \<not> seq_field t u"
  by (simp add: seq_field_def)

lemmas canon_step = field_val_def field_disc_def seq_field_none indirect_id Let_def

lemma canon_rpc:
  "canon G (rv_auth a) = rv_auth a" "canon G (rv_call c) = rv_call c" "canon G (rv_mismatch m) = rv_mismatch m"
  by (simp_all add: rv_auth_def rv_call_def rv_mismatch_def canon_step)

lemma canon_accepted: "canon G (rv_accepted ac) = rv_accepted (sent_accepted ac)"
  by (simp add: rv_accepted_def sent_accepted_def canon_step canon_rpc zero_rv ProgUnavail_def ProgMismatch_def)

lemma canon_rejected: "canon G (rv_rejected r) = rv_rejected (sent_rejected r)"
  by (simp add: rv_rejected_def sent_rejected_def canon_step canon_rpc zero_rv RPCMismatch_def AuthError_def)

lemma canon_reply: "canon G (rv_reply rb) = rv_reply (sent_reply rb)"
  by (simp add: rv_reply_def sent_reply_def canon_step canon_accepted canon_rejected zero_rv2 MsgAccepted_def MsgDenied_def)

lemma canon_msg: "canon G (rv_msg m) = rv_msg (sent_msg m)"
  by (simp add: rv_msg_def sent_msg_def canon_step canon_rpc canon_reply zero_rv2 zero_rv3 Call_def Reply_def)

definition auths_ok :: "RPCMsg \<Rightarrow> bool" where
  "auths_ok m \<longleftrightarrow> length (Body (Cred (CBody m))) \<le> 2147483644 \<and> length (Body (Verf (CBody m))) \<le> 2147483644 \<and>
     length (Body (AVerf (Areply (RBody m)))) \<le> 2147483644"

lemma sendable_msg: "auths_ok m \<Longrightarrow> sendable G 0 (rv_msg m)"
  by (simp add: rv_rpc auths_ok_def len_ok_def field_ok_def split: option.split)

lemma resolve_RPCMsg: "resolve G RPCMsg_type = RPCMsg_type"
  by (simp add: RPCMsg_type_def resolve_def)

lemma Unmarshal_msg:
  assumes "env_ok G" and "auths_ok m"
  shows "Unmarshal G rpc_depth (msg_bytes m @ rest) (Some (RPtr RPCMsg_type (Some (zero RPCMsg_type)))) =
    Inr (Some (RPtr RPCMsg_type (Some (rv_msg (sent_msg m)))), length (msg_bytes m), None, rest)"
proof -
  have "vdepth (rv_msg m) < rpc_depth" using vdepth_msg(2) [of m] by (simp add: rpc_depth_def)
  from Marshal_rt [OF assms(1) RPCMsg_type_ok(1) _ sendable_msg [OF assms(2)] Marshal_msg_to [of G "[]"] _ this]
  have "\<exists>b. [] @ msg_bytes m = [] @ b \<and> length b = length (msg_bytes m) \<and>
    UnmarshalLimited G rpc_depth (b @ rest) (Some (RPtr RPCMsg_type (Some (newval G RPCMsg_type)))) 0 =
      Inr (Some (RPtr RPCMsg_type (Some (canon G (rv_msg m)))), length (msg_bytes m), None, rest)"
    by (simp add: resolve_RPCMsg rv_msg_typed)
  then show ?thesis
    by (simp add: Unmarshal_def UnmarshalLimited_def newval_def resolve_RPCMsg canon_msg)
qed

lemma decode_header_msg:
  "env_ok G \<Longrightarrow> auths_ok m \<Longrightarrow> decode_header G (msg_bytes m @ rest) = Inr (sent_msg m, None, rest)"
  by (simp add: decode_header_def Unmarshal_msg)

end
