(* ===== verification/Onc_Client.thy ===== *)
theory Onc_Client
  imports Onc_Wire
begin

text \<open>
  \<^verbatim>\<open>oncrpc/clientcodec.go\<close>: the client side of the codec, which the program uses to talk to the port
  mapper.
\<close>

record 'w clientCodec =
  cl_in :: bytes
  cl_out :: 'w
  cl_closed :: bool
  cl_reader :: bytes
  cl_table :: "ProcEntry list"

definition NewClientCodec :: "bytes \<Rightarrow> 'w \<Rightarrow> ProcEntry list \<Rightarrow> 'w clientCodec" where
  "NewClientCodec inp out table =
     \<lparr>cl_in = inp, cl_out = out, cl_closed = False, cl_reader = [], cl_table = table\<rparr>"

section \<open>Requests\<close>

text \<open>The two loops over the table: \<^verbatim>\<open>break\<close> leaves the inner one only, so a later entry that lists
  the method wins over an earlier one.\<close>

fun index_of :: "string \<Rightarrow> string list \<Rightarrow> nat option" where
  "index_of x [] = None"
| "index_of x (y # ys) = (if x = y then Some 0 else map_option Suc (index_of x ys))"

fun find_method :: "string \<Rightarrow> ProcEntry list \<Rightarrow> nat \<Rightarrow> (nat \<times> nat) option \<Rightarrow> (nat \<times> nat) option" where
  "find_method meth [] i found = found"
| "find_method meth (e # es) i found =
     find_method meth es (Suc i) (case index_of meth (ProcList e) of None \<Rightarrow> found | Some j \<Rightarrow> Some (i, j))"

definition call_msg :: "u64 \<Rightarrow> ProcEntry \<Rightarrow> nat \<Rightarrow> RPCMsg" where
  "call_msg s e j = \<lparr>Xid = ucast s, Type = Call,
     CBody = zero_call\<lparr>RPCVersion := RPCProtocolVersion, Program := PProgram e, Version := PVersion e,
                       Procedure := of_nat j\<rparr>,
     RBody = zero_reply\<rparr>"

text \<open>\<open>param\<close> is the interface value \<^verbatim>\<open>param\<close>; what is marshalled is a pointer to it.\<close>

definition WriteRequest ::
  "genv \<Rightarrow> 'w writer \<Rightarrow> rpcRequest \<Rightarrow> rvalue option \<Rightarrow> 'w clientCodec \<Rightarrow> (rpcerr option \<times> 'w clientCodec) go" where
  "WriteRequest G conn req param c =
     (case find_method (ServiceMethod req) (cl_table c) 0 None of
        None \<Rightarrow> Inr (Some (Message (''Procedure Unavailable: '' @ ServiceMethod req)), c)
      | Some (i, j) \<Rightarrow>
          bindG (Marshal G buffer_write [] (Some (RPtr RPCMsg_type (Some (rv_msg (call_msg (Seq req) (cl_table c ! i) j))))))
            (\<lambda>(n, err, payload).
              (case err of
                 Some e \<Rightarrow> Inr (Some (XdrErr e), c)
               | None \<Rightarrow>
                   bindG (case param of
                            None \<Rightarrow> Inr (0, None, payload)
                          | Some p \<Rightarrow> Marshal G buffer_write payload (Some (RPtr TIface (Some (RIface (Some p))))))
                     (\<lambda>(n2, err2, payload2).
                       (case err2 of
                          Some e \<Rightarrow> Inr (Some (XdrErr e), c)
                        | None \<Rightarrow>
                            bindG (WriteFullRecord conn payload2 (cl_out c)) (\<lambda>(n3, err3, out).
                              Inr (map_option WriteErr err3, c\<lparr>cl_out := out\<rparr>)))))))"

section \<open>Responses\<close>

text \<open>\<^verbatim>\<open>%u\<close> is no verb of \<^verbatim>\<open>fmt\<close>: the number is printed as a bad verb.\<close>

definition bad_u :: "u32 \<Rightarrow> string" where
  "bad_u x = ''%!u(uint32='' @ Itoa (uint x) @ '')''"

definition low_high :: "string \<Rightarrow> MismatchReply \<Rightarrow> string" where
  "low_high s m = s @ '': low '' @ bad_u (Low m) @ '' high '' @ bad_u (High m)"

definition checkReplyForErr :: "RPCMsg \<Rightarrow> string option" where
  "checkReplyForErr reply =
     (if Type reply \<noteq> Reply then Some (''InvalidRPCMessageType: '' @ Itoa (sint (Type reply)))
      else if Stat (RBody reply) = MsgAccepted then
        (let a = Areply (RBody reply) in
         if AStat a = Success then None
         else if AStat a = ProgMismatch then Some (low_high ''ProgMismatch'' (MismatchInfoV a))
         else if AStat a = ProgUnavail then Some (low_high ''ProgUnavail'' (MismatchInfoP a))
         else if AStat a = ProcUnavail then Some ''ProcUnavail''
         else if AStat a = GarbageArgs then Some ''GarbageArgs''
         else if AStat a = SystemErr then Some ''SystemErr''
         else Some ''InvalidMsgAccepted'')
      else if Stat (RBody reply) = MsgDenied then
        (let r = Rreply (RBody reply) in
         if RStat r = RPCMismatch then Some (low_high ''RPCMismatch'' (MismatchInfo r))
         else if RStat r = AuthError then Some ''AuthError''
         else Some ''InvalidMsgDeniedType'')
      else Some ''InvalidRPCRepyType'')"

definition ReadResponseHeader ::
  "genv \<Rightarrow> (nat \<Rightarrow> nat \<Rightarrow> nat) \<Rightarrow> rpcResponse \<Rightarrow> 'w clientCodec \<Rightarrow> (rpcResponse \<times> rpcerr option \<times> 'w clientCodec) go" where
  "ReadResponseHeader G grow resp c =
     (case ReadFullRecord grow (cl_in c) of
        (Inl e, rest) \<Rightarrow> Inr (resp, Some (RecordErr e), c\<lparr>cl_in := rest\<rparr>)
      | (Inr rcd, rest) \<Rightarrow>
          bindG (decode_header G rcd) (\<lambda>(reply, err, rcd').
            (let c1 = c\<lparr>cl_in := rest, cl_reader := rcd'\<rparr> in
             case err of
               Some e \<Rightarrow> Inr (resp, Some (XdrErr e), c1)
             | None \<Rightarrow> Inr (resp\<lparr>RSeq := ucast (Xid reply)\<rparr>, map_option Message (checkReplyForErr reply), c1))))"

definition ReadResponseBody ::
  "genv \<Rightarrow> nat \<Rightarrow> rvalue option \<Rightarrow> 'w clientCodec \<Rightarrow> (rvalue option \<times> rpcerr option \<times> 'w clientCodec) go" where
  "ReadResponseBody G d result c =
     (case result of
        None \<Rightarrow> Inr (None, None, c)
      | Some v \<Rightarrow>
          bindG (Unmarshal G d (cl_reader c) (Some (RPtr TIface (Some (RIface (Some v))))))
            (\<lambda>(p, n, err, rest).
               (let res = (case p of Some (RPtr T (Some (RIface (Some u)))) \<Rightarrow> Some u | _ \<Rightarrow> None) in
                Inr (res, map_option XdrErr err, c\<lparr>cl_reader := rest\<rparr>))))"

definition cl_Close :: "'w clientCodec \<Rightarrow> 'w clientCodec" where
  "cl_Close c = c\<lparr>cl_closed := True\<rparr>"

end
