(* ===== verification/Onc_Rpc.thy ===== *)
theory Onc_Rpc
  imports Onc_Client
begin

text \<open>
  What the two codecs of \<^verbatim>\<open>oncrpc\<close> guarantee: the server's reading never crashes, a request a client
  writes is dispatched to the method it names with the arguments it was given, a response reaches the
  client, and what the client makes of every kind of error reply.
\<close>

section \<open>Reading never crashes\<close>

lemma decode_header_returns:
  assumes "env_ok G"
  shows "\<exists>m err rest. decode_header G bs = Inr (m, err, rest)"
proof -
  have "has_type G (TPtr RPCMsg_type) (RPtr RPCMsg_type (Some (zero RPCMsg_type)))"
    using zero_typed [OF RPCMsg_type_ok(1), of G] by (simp add: resolve_RPCMsg)
  from Decode_ok [OF assms RPCMsg_type_ok(1) this, of True rpc_depth bs 0]
  have "dec_ok True (\<lambda>p. \<exists>v'. p = Some v' \<and> has_type G (TPtr RPCMsg_type) v') bs
      (Unmarshal G rpc_depth bs (Some (RPtr RPCMsg_type (Some (zero RPCMsg_type)))))"
    by (simp add: Unmarshal_def RPCMsg_type_ok rpc_depth_def)
  then show ?thesis by (elim dec_okE) (auto simp: decode_header_def)
qed

text \<open>Reading a request header never takes the server down, whatever the peer sends.\<close>

lemma ReadRequestHeader_returns:
  assumes "env_ok G"
  shows "\<exists>req' err c'. ReadRequestHeader G grow req c = Inr (req', err, c')"
proof (cases "ReadFullRecord grow (conn_in c)")
  case (Pair r rest)
  show ?thesis
  proof (cases r)
    case (Inr rcd)
    obtain m err rest' where "decode_header G rcd = Inr (m, err, rest')"
      using decode_header_returns [OF assms] by blast
    with Pair Inr show ?thesis
      by (auto simp: ReadRequestHeader_def Let_def split: option.split prod.split)
  qed (use Pair in \<open>simp add: ReadRequestHeader_def\<close>)
qed

lemma body_returns:
  assumes "env_ok G" and "wf_ty True T" and "has_type G (TPtr T) v" and "plain T" and "tdepth T \<le> d"
  shows "\<exists>v' n err rest c'.
    Unmarshal G (Suc (Suc d)) (recordReader c) (Some (RPtr TIface (Some (RIface (Some v))))) =
      Inr (Some (RPtr TIface (Some (RIface (Some v')))), n, err, rest) \<and>
    ReadRequestBody G (Suc (Suc d)) (Some v) c = Inr (Some v', None, c') \<and> has_type G (TPtr T) v' \<and>
    closed c' = (closed c \<or> err \<noteq> None)"
proof -
  have "dec_ok True (\<lambda>p. \<exists>v'. p = Some (RPtr TIface (Some (RIface (Some v')))) \<and> has_type G (TPtr T) v') (recordReader c)
    (Unmarshal G (Suc (Suc d)) (recordReader c) (Some (RPtr TIface (Some (RIface (Some v))))))"
    using decode_iface_ok [OF assms(1-3), of True d "recordReader c" 0] assms(4,5)
    by (simp add: Unmarshal_def UnmarshalLimited_def)
  then show ?thesis
    by (elim dec_okE) (auto simp: ReadRequestBody_def Let_def Close_def)
qed

text \<open>C34: Reading the arguments of a method whose type has no interfaces and recursive names returns a nil
  error on every input, a value of the argument's type and, when the bytes were no such value, a closed
  connection: the method is called on what was decoded even then.\<close>

theorem ReadRequestBody_nil_error:
  assumes "env_ok G" and "wf_ty True T" and "has_type G (TPtr T) v" and "plain T" and "tdepth T \<le> d"
  shows "\<exists>v' n err rest c'.
    Unmarshal G (Suc (Suc d)) (recordReader c) (Some (RPtr TIface (Some (RIface (Some v))))) =
      Inr (Some (RPtr TIface (Some (RIface (Some v')))), n, err, rest) \<and>
    ReadRequestBody G (Suc (Suc d)) (Some v) c = Inr (Some v', None, c') \<and> has_type G (TPtr T) v' \<and>
    closed c' = (closed c \<or> err \<noteq> None)"
  by (rule body_returns [OF assms])

lemma ReadRequestBody_nil_error_witness:
  "\<exists>v' c'. ReadRequestBody sample_env 7 (Some sample_target) (NewServerCodec [] [] []) = Inr (Some v', None, c' :: bytes serverCodec)"
  using ReadRequestBody_nil_error [OF sample_ok(1-4), of 5 "NewServerCodec [] [] [] :: bytes serverCodec"] sample_ok(5)
  by (auto simp: numeral_eq_Suc)

section \<open>Decisions on the header\<close>

lemma find_prog_Some: "find_prog p es = Some i \<Longrightarrow> i < length es \<and> PProgram (es ! i) = p"
  by (induction es arbitrary: i) (auto split: if_splits)

lemma unat_of_nat_le: "unat (of_nat n :: u32) \<le> n"
  by (simp add: unsigned_of_nat take_bit_nat_less_eq_self)

definition header_error_method :: "string \<Rightarrow> bool" where
  "header_error_method meth \<longleftrightarrow>
     meth \<in> {''NfsProc.RPCMismatch'', ''NfsProc.AuthError'', ''NfsProc.ProgUnavail'', ''NfsProc.ProgMismatch'',
             ''NfsProc.ProcUnavail''}"

lemma dispatch_cases:
  assumes "dispatch table call = (meth, ix)"
  shows "(ix = None \<and> meth \<in> {''NfsProc.RPCMismatch'', ''NfsProc.AuthError'', ''NfsProc.ProgUnavail''}) \<or>
    (\<exists>i. ix = Some i \<and> i < length table \<and> PProgram (table ! i) = Program call \<and>
      (meth = ''NfsProc.ProgMismatch'' \<or> meth = ''NfsProc.ProcUnavail'' \<or>
       RPCVersion call = RPCProtocolVersion \<and> Version call = PVersion (table ! i) \<and>
       unat (Procedure call) < length (ProcList (table ! i)) \<and> meth = ProcList (table ! i) ! unat (Procedure call)))"
proof (cases "find_prog (Program call) table")
  case None
  with assms show ?thesis by (auto simp: dispatch_def split: if_splits)
next
  case (Some i)
  have l: "unat (Procedure call) < unat (of_nat (length (ProcList (table ! i))) :: u32) \<Longrightarrow>
      unat (Procedure call) < length (ProcList (table ! i))"
    using unat_of_nat_le [of "length (ProcList (table ! i))"] by linarith
  define bad_version where "bad_version \<longleftrightarrow> RPCVersion call \<noteq> RPCProtocolVersion"
  define bad_auth where "bad_auth \<longleftrightarrow> Flavor (Cred call) \<noteq> AuthNone \<and> Flavor (Cred call) \<noteq> AuthSys"
  define bad_prog where "bad_prog \<longleftrightarrow> Version call \<noteq> PVersion (table ! i)"
  define bad_proc where "bad_proc \<longleftrightarrow> unat (Procedure call) \<ge> unat (of_nat (length (ProcList (table ! i))) :: u32)"
  have d: "(meth, ix) = (if bad_version then (''NfsProc.RPCMismatch'', None)
      else if bad_auth then (''NfsProc.AuthError'', None)
      else if bad_prog then (''NfsProc.ProgMismatch'', Some i)
      else if bad_proc then (''NfsProc.ProcUnavail'', Some i)
      else (ProcList (table ! i) ! unat (Procedure call), Some i))"
    unfolding assms [symmetric] dispatch_def bad_version_def bad_auth_def bad_prog_def bad_proc_def Some option.case
    by (rule refl)
  from find_prog_Some [OF Some] have i: "i < length table" "PProgram (table ! i) = Program call" by simp_all
  consider "bad_version" | "\<not> bad_version" "bad_auth" | "\<not> bad_version" "\<not> bad_auth" "bad_prog"
    | "\<not> bad_version" "\<not> bad_auth" "\<not> bad_prog" "bad_proc"
    | "\<not> bad_version" "\<not> bad_auth" "\<not> bad_prog" "\<not> bad_proc" by blast
  then show ?thesis
  proof cases
    case 5
    then have "unat (Procedure call) < length (ProcList (table ! i))" using l by (simp add: bad_proc_def)
    with 5 d i show ?thesis by (simp add: bad_version_def bad_prog_def)
  qed (use d i in simp_all)
qed

lemma header_success:
  assumes "ReadRequestHeader G grow req c = Inr (req', None, c')"
  shows "\<exists>call ix. dispatch (procTable c) call = (ServiceMethod req', ix) \<and> procTable c' = procTable c \<and>
    currentProgIndex c' = (case ix of None \<Rightarrow> currentProgIndex c | Some i \<Rightarrow> int i) \<and> closed c' = closed c"
proof -
  obtain r rest where r: "ReadFullRecord grow (conn_in c) = (r, rest)" by fastforce
  with assms obtain rcd where rcd: "r = Inr rcd" by (cases r) (simp_all add: ReadRequestHeader_def)
  with assms r obtain call err rcd' where h: "decode_header G rcd = Inr (call, err, rcd')"
    by (auto simp: ReadRequestHeader_def bindG_eq_Inr)
  obtain meth ix where d: "dispatch (procTable c) (CBody call) = (meth, ix)" by fastforce
  from assms r rcd h have "err = None" "Type call = Call"
    by (auto simp: ReadRequestHeader_def Let_def split: option.splits if_splits)
  with assms r rcd h d have "ServiceMethod req' = meth" "c' = (case ix of
      None \<Rightarrow> c\<lparr>conn_in := rest, recordReader := rcd'\<rparr>
    | Some i \<Rightarrow> c\<lparr>conn_in := rest, recordReader := rcd', currentProgIndex := int i\<rparr>)"
    by (auto simp: ReadRequestHeader_def Let_def)
  with d show ?thesis by (intro exI [of _ "CBody call"] exI [of _ ix]) (cases ix; simp)
qed

lemma response_header_ok:
  assumes "procTable c \<noteq> []"
    and "meth = ''NfsProc.ProgMismatch'' \<Longrightarrow> 0 \<le> currentProgIndex c \<and> currentProgIndex c < int (length (procTable c))"
  shows "\<exists>m. response_header meth s c = Inr m"
proof (cases "meth = ''NfsProc.ProgMismatch''")
  case True
  with assms(2) show ?thesis by (simp add: response_header_def Let_def)
next
  case False
  with assms(1) show ?thesis unfolding response_header_def Let_def by (simp only: if_False) simp
qed

text \<open>Whatever bytes arrive, when reading the header succeeds the method to call is one of the five
  pseudo-methods for RPC errors or a procedure of the entry of the table for the program called, and
  the codec is left so that the reply header for that method can be built: its table look-ups do not
  run out of range.\<close>

lemma header_dispatch_safe:
  assumes "ReadRequestHeader G grow req c = Inr (req', None, c')" and "procTable c \<noteq> []"
  shows "(header_error_method (ServiceMethod req') \<or> (\<exists>e \<in> set (procTable c). ServiceMethod req' \<in> set (ProcList e))) \<and>
    (\<exists>m. response_header (ServiceMethod req') s c' = Inr m)"
proof -
  from header_success [OF assms(1)] obtain call ix where d: "dispatch (procTable c) call = (ServiceMethod req', ix)"
    and c': "procTable c' = procTable c" "currentProgIndex c' = (case ix of None \<Rightarrow> currentProgIndex c | Some i \<Rightarrow> int i)"
    by blast
  from dispatch_cases [OF d] consider
      "ix = None" "ServiceMethod req' \<in> {''NfsProc.RPCMismatch'', ''NfsProc.AuthError'', ''NfsProc.ProgUnavail''}"
    | i where "ix = Some i" "i < length (procTable c)"
        "ServiceMethod req' = ''NfsProc.ProgMismatch'' \<or> ServiceMethod req' = ''NfsProc.ProcUnavail'' \<or>
         (\<exists>k < length (ProcList (procTable c ! i)). ServiceMethod req' = ProcList (procTable c ! i) ! k)"
    by blast
  then show ?thesis
  proof cases
    case 1
    then have "\<exists>m. response_header (ServiceMethod req') s c' = Inr m"
      using assms(2) c'(1) by (intro response_header_ok) auto
    moreover have "header_error_method (ServiceMethod req')" using 1(2) unfolding header_error_method_def by blast
    ultimately show ?thesis by simp
  next
    case (2 i)
    then have "\<exists>m. response_header (ServiceMethod req') s c' = Inr m"
      using assms(2) c' by (intro response_header_ok) simp_all
    moreover have "procTable c ! i \<in> set (procTable c)" using 2(2) by simp
    then have "header_error_method (ServiceMethod req') \<or> (\<exists>e \<in> set (procTable c). ServiceMethod req' \<in> set (ProcList e))"
      using 2(3)
    proof (elim disjE)
      assume "\<exists>k < length (ProcList (procTable c ! i)). ServiceMethod req' = ProcList (procTable c ! i) ! k"
      then have "ServiceMethod req' \<in> set (ProcList (procTable c ! i))" by auto
      with \<open>procTable c ! i \<in> set (procTable c)\<close> show ?thesis by blast
    qed (simp_all add: header_error_method_def)
    ultimately show ?thesis by simp
  qed
qed

section \<open>From client to server\<close>


lemma index_of_nth: "index_of x ys = Some j \<Longrightarrow> j < length ys \<and> ys ! j = x"
  by (induction ys arbitrary: j) (auto split: if_splits)

lemma find_method_sound:
  "find_method meth es k found = Some (i, j) \<Longrightarrow>
     found = Some (i, j) \<or> k \<le> i \<and> i - k < length es \<and> index_of meth (ProcList (es ! (i - k))) = Some j"
proof (induction es arbitrary: k found)
  case (Cons e es)
  from Cons.IH [of "Suc k"] Cons.prems
  consider "(case index_of meth (ProcList e) of None \<Rightarrow> found | Some j \<Rightarrow> Some (k, j)) = Some (i, j)"
    | "Suc k \<le> i" "i - Suc k < length es" "index_of meth (ProcList (es ! (i - Suc k))) = Some j"
    by auto
  then show ?case
  proof cases
    case 1
    then show ?thesis by (auto split: option.splits)
  next
    case 2
    then have "i - k = Suc (i - Suc k)" by simp
    with 2 show ?thesis by simp
  qed
qed simp

lemma find_prog_nth:
  "distinct (map PProgram es) \<Longrightarrow> i < length es \<Longrightarrow> find_prog (PProgram (es ! i)) es = Some i"
proof (induction es arbitrary: i)
  case (Cons e es)
  then show ?case
  proof (cases i)
    case (Suc k)
    with Cons.prems have "PProgram (es ! k) \<noteq> PProgram e" by (auto simp: image_iff) (metis nth_mem)
    with Cons Suc show ?thesis by simp
  qed simp
qed simp

lemma dispatch_call:
  assumes "distinct (map PProgram table)" and "\<forall>e \<in> set table. length (ProcList e) < 2 ^ 32"
    and "find_method meth table 0 None = Some (i, j)"
  shows "dispatch table (CBody (call_msg s (table ! i) j)) = (meth, Some i)"
proof -
  from find_method_sound [OF assms(3)] have i: "i < length table" and ix: "index_of meth (ProcList (table ! i)) = Some j"
    by auto
  from index_of_nth [OF ix] have j: "j < length (ProcList (table ! i))" "ProcList (table ! i) ! j = meth" by auto
  have l: "length (ProcList (table ! i)) < 2 ^ 32" using assms(2) i by simp
  with j have u: "unat (of_nat j :: u32) = j" "unat (of_nat (length (ProcList (table ! i))) :: u32) = length (ProcList (table ! i))"
    by (simp_all add: unat_of_nat)
  show ?thesis
    using find_prog_nth [OF assms(1) i] j u
    by (simp add: dispatch_def call_msg_def zero_call_def zero_auth_def AuthNone_def)
qed

lemma auths_ok_call: "auths_ok (call_msg s e j)"
  by (simp add: auths_ok_def call_msg_def zero_msg)

lemma sent_call: "sent_msg (call_msg s e j) = call_msg s e j"
  by (simp add: sent_msg_def call_msg_def Call_def Reply_def)

lemma not_nil_below: "\<not> is_ptr v \<Longrightarrow> \<not> nil_below v"
  by (cases v) simp_all

lemma Marshal_ptr_enc_to:
  "enc_to G d v b \<Longrightarrow> d \<le> Suc (vdepth v) \<Longrightarrow> \<not> is_ptr v \<Longrightarrow>
     Marshal G buffer_write w (Some (RPtr T (Some v))) = Inr (length b, None, w @ b)"
  by (simp add: Marshal_def Encode_def not_nil_below enc_to_def indirect_id del: encode.simps)

lemma Marshal_msg_ptr:
  "Marshal G buffer_write w (Some (RPtr RPCMsg_type (Some (rv_msg m)))) = Inr (length (msg_bytes m), None, w @ msg_bytes m)"
  using vdepth_msg(1) [of m] by (intro Marshal_ptr_enc_to [OF enc_to_msg]) simp_all

lemma request_read:
  assumes G: "env_ok G" and T: "wf_ty True T" "has_type G (resolve G T) v" "sendable G 0 v" "vdepth v \<le> Suc d"
    and table: "distinct (map PProgram (cl_table cl))" "\<forall>e \<in> set (cl_table cl). length (ProcList e) < 2 ^ 32"
      "procTable srv = cl_table cl"
    and wr: "WriteRequest G buffer_write req (Some (RPtr T (Some v))) cl = Inr (None, cl')"
    and inp: "conn_in srv = drop (length (cl_out cl)) (cl_out cl') @ rest" "length (cl_out cl') - length (cl_out cl) \<le> maxRecordSize"
  shows "\<exists>srv1 srv2.
    ReadRequestHeader G grow r0 srv =
      Inr (r0\<lparr>Seq := ucast (ucast (Seq req) :: u32), ServiceMethod := ServiceMethod req\<rparr>, None, srv1) \<and>
    ReadRequestBody G (Suc (Suc (Suc d))) (Some (RPtr T (Some (newval G T)))) srv1 =
      Inr (Some (RPtr T (Some (canon G v))), None, srv2) \<and>
    conn_in srv2 = rest \<and> closed srv2 = closed srv"
proof -
  from wr obtain i j where f: "find_method (ServiceMethod req) (cl_table cl) 0 None = Some (i, j)"
    by (auto simp: WriteRequest_def split: option.splits)
  define m where "m = call_msg (Seq req) (cl_table cl ! i) j"
  from wr f obtain n payload k w where pm: "Marshal G buffer_write (msg_bytes m)
      (Some (RPtr TIface (Some (RIface (Some (RPtr T (Some v))))))) = Inr (n, None, payload)"
    and ww: "WriteFullRecord buffer_write payload (cl_out cl) = Inr (k, None, w)" and cl': "cl_out cl' = w"
    by (auto simp: WriteRequest_def m_def [symmetric] Marshal_msg_ptr bindG_eq_Inr split: option.splits)
  from Marshal_iface_success [OF pm] obtain e where e: "vdepth v \<le> Suc e" "indirect v \<noteq> RInvalid"
    "encode_kind G buffer_write (encode G buffer_write e) (indirect v) (msg_bytes m) = Inr (n, None, payload)" by blast
  from iface_rt [OF G T(1-3) e T(4)] obtain b where b: "payload = msg_bytes m @ b"
    "\<And>rest. UnmarshalLimited G (Suc (Suc (Suc d))) (b @ rest)
       (Some (RPtr TIface (Some (RIface (Some (RPtr T (Some (newval G T)))))))) 0 =
      Inr (Some (RPtr TIface (Some (RIface (Some (RPtr T (Some (canon G v))))))), n, None, rest)" by blast
  have len: "length payload < 2 ^ 31"
  proof (rule ccontr)
    assume "\<not> length payload < 2 ^ 31"
    with ww second_round_panics [of payload buffer_write 0] show False
      using WriteFullRecord_big [of payload "cl_out cl"] by simp
  qed
  from ww have w: "w = cl_out cl @ fragment True payload"
    by (simp add: one_fragment [OF len] buffer_write_def fragment_def)
  have read: "ReadFullRecord grow (conn_in srv) = (Inr payload, rest)"
    using inp by (simp add: cl' w ReadFullRecord_def read_fragment [OF len]) (simp add: fragment_def)
  have head: "decode_header G payload = Inr (m, None, b)"
    using decode_header_msg [OF G auths_ok_call, of "Seq req" "cl_table cl ! i" j b]
    by (simp add: b(1) m_def sent_call)
  have disp: "dispatch (procTable srv) (CBody m) = (ServiceMethod req, Some i)"
    unfolding table(3) m_def by (rule dispatch_call [OF table(1,2) f])
  have "Type m = Call" "Xid m = ucast (Seq req)" by (simp_all add: m_def call_msg_def)
  with read head disp have "ReadRequestHeader G grow r0 srv =
     Inr (r0\<lparr>Seq := ucast (ucast (Seq req) :: u32), ServiceMethod := ServiceMethod req\<rparr>, None,
       srv\<lparr>conn_in := rest, recordReader := b, currentProgIndex := int i\<rparr>)"
    by (simp add: ReadRequestHeader_def)
  moreover have "ReadRequestBody G (Suc (Suc (Suc d))) (Some (RPtr T (Some (newval G T))))
      (srv\<lparr>conn_in := rest, recordReader := b, currentProgIndex := int i\<rparr>) =
     Inr (Some (RPtr T (Some (canon G v))), None, srv\<lparr>conn_in := rest, recordReader := [], currentProgIndex := int i\<rparr>)"
    using b(2) [of "[]"] by (simp add: ReadRequestBody_def Unmarshal_def UnmarshalLimited_def)
  ultimately show ?thesis by - (intro exI conjI, assumption, assumption, simp_all)
qed

text \<open>C10: The request a client writes for a method of the table is read by a server with the same table
  as a call of that method with the same arguments: header, procedure number, record marking and
  argument encoding agree on both sides, and the server is ready for the next record.\<close>

theorem request_reaches_method:
  assumes G: "env_ok G" and T: "wf_ty True T" "has_type G (resolve G T) v" "sendable G 0 v" "vdepth v \<le> Suc d"
    and table: "distinct (map PProgram (cl_table cl))" "\<forall>e \<in> set (cl_table cl). length (ProcList e) < 2 ^ 32"
      "procTable srv = cl_table cl"
    and wr: "WriteRequest G buffer_write req (Some (RPtr T (Some v))) cl = Inr (None, cl')"
    and inp: "conn_in srv = drop (length (cl_out cl)) (cl_out cl') @ rest" "length (cl_out cl') - length (cl_out cl) \<le> maxRecordSize"
  shows "\<exists>srv1 srv2.
    ReadRequestHeader G grow r0 srv =
      Inr (r0\<lparr>Seq := ucast (ucast (Seq req) :: u32), ServiceMethod := ServiceMethod req\<rparr>, None, srv1) \<and>
    ReadRequestBody G (Suc (Suc (Suc d))) (Some (RPtr T (Some (newval G T)))) srv1 =
      Inr (Some (RPtr T (Some (canon G v))), None, srv2) \<and>
    conn_in srv2 = rest \<and> closed srv2 = closed srv"
  by (rule request_read [OF assms])

lemma Marshal_iface:
  "Marshal G wr w (Some (RPtr TIface (Some (RIface (Some p))))) = encode G wr (Suc (vdepth p)) (indirect p) w"
  by (simp add: Marshal_def Encode_def encode_kind_def encodeInterface_def del: encode.simps(2))
    (simp add: encode_kind_def encodeInterface_def)

lemma Marshal_iface_enc_to:
  assumes "enc_to G d v b" and "d \<le> Suc (vdepth v)" and "\<not> is_ptr v"
  shows "Marshal G buffer_write w (Some (RPtr TIface (Some (RIface (Some (RPtr T (Some v))))))) = Inr (length b, None, w @ b)"
  unfolding Marshal_iface using assms by (simp add: indirect_id enc_to_def del: encode.simps)

text \<open>A client, a server and a call for the concrete runs.\<close>

definition sample_table :: "ProcEntry list" where
  "sample_table = [\<lparr>PProgram = 100000, PVersion = 2, ProcList = [''P.null'', ''P.set'']\<rparr>,
     \<lparr>PProgram = 100003, PVersion = 3, ProcList = [''Q.null'']\<rparr>]"

definition sample_arg :: MismatchReply where
  "sample_arg = \<lparr>Low = 1, High = 2\<rparr>"

definition sample_req :: rpcRequest where
  "sample_req = \<lparr>ServiceMethod = ''P.set'', Seq = 7\<rparr>"

definition sample_out :: bytes where
  "sample_out = fragment True (msg_bytes (call_msg 7 (sample_table ! 0) 1) @ mismatch_bytes sample_arg)"

lemma auth_bytes_zero: "auth_bytes zero_auth = be32 0 @ be32 0"
  by (simp add: auth_bytes_def opaque_bytes_def zero_auth_def)

lemma length_call: "length (msg_bytes (call_msg s e j)) = 40"
  by (simp add: msg_bytes_def call_msg_def call_bytes_def zero_call_def auth_bytes_zero)

lemma sample_write:
  "WriteRequest G buffer_write sample_req (Some (RPtr MismatchReply_type (Some (rv_mismatch sample_arg))))
     (NewClientCodec [] [] sample_table) =
   Inr (None, (NewClientCodec [] [] sample_table)\<lparr>cl_out := sample_out\<rparr>)"
proof -
  have v: "2 \<le> Suc (vdepth (rv_mismatch sample_arg))" using vdepth_pos [of "rv_mismatch sample_arg"] by simp
  have len: "length (msg_bytes (call_msg 7 (sample_table ! 0) 1) @ mismatch_bytes sample_arg) < 2 ^ 31"
    by (simp add: length_call mismatch_bytes_def)
  show ?thesis
    using len Marshal_iface_enc_to [OF enc_to_mismatch v, of G "msg_bytes (call_msg 7 (sample_table ! 0) 1)" MismatchReply_type]
    by (simp add: WriteRequest_def sample_req_def NewClientCodec_def Marshal_msg_ptr sample_table_def
        one_fragment buffer_write_def sample_out_def fragment_def)
qed

lemma request_reaches_method_witness:
  "\<exists>srv1 srv2. ReadRequestHeader sample_env grow_double \<lparr>ServiceMethod = '''', Seq = 0\<rparr> (NewServerCodec sample_out ([] :: bytes) sample_table) =
      Inr (\<lparr>ServiceMethod = ''P.set'', Seq = 7\<rparr>, None, srv1) \<and>
    ReadRequestBody sample_env 4 (Some (RPtr MismatchReply_type (Some (newval sample_env MismatchReply_type)))) srv1 =
      Inr (Some (RPtr MismatchReply_type (Some (rv_mismatch sample_arg))), None, srv2) \<and>
    conn_in srv2 = [] \<and> \<not> closed srv2"
proof -
  let ?srv = "NewServerCodec sample_out ([] :: bytes) sample_table"
  have "length sample_out = 52" by (simp add: sample_out_def fragment_def length_call mismatch_bytes_def)
  then have l: "length (cl_out ((NewClientCodec [] [] sample_table)\<lparr>cl_out := sample_out\<rparr>)) -
      length (cl_out (NewClientCodec [] [] sample_table)) \<le> maxRecordSize"
    by (simp add: NewClientCodec_def maxRecordSize_def)
  have "has_type sample_env (resolve sample_env MismatchReply_type) (rv_mismatch sample_arg)"
    "sendable sample_env 0 (rv_mismatch sample_arg)" "vdepth (rv_mismatch sample_arg) \<le> Suc 1"
    by (simp_all add: MismatchReply_type_def rv_mismatch_def resolve_def field_ok_def maxl_def)
  from request_reaches_method [OF sample_ok(1) _ this _ _ _ sample_write, of ?srv "[]" grow_double "\<lparr>ServiceMethod = '''', Seq = 0\<rparr>"] l
  have "\<exists>srv1 srv2.
    ReadRequestHeader sample_env grow_double \<lparr>ServiceMethod = '''', Seq = 0\<rparr> ?srv =
      Inr (\<lparr>ServiceMethod = '''', Seq = 0\<rparr>\<lparr>Seq := ucast (ucast (Seq sample_req) :: u32), ServiceMethod := ServiceMethod sample_req\<rparr>, None, srv1) \<and>
    ReadRequestBody sample_env (Suc (Suc (Suc 1))) (Some (RPtr MismatchReply_type (Some (newval sample_env MismatchReply_type)))) srv1 =
      Inr (Some (RPtr MismatchReply_type (Some (canon sample_env (rv_mismatch sample_arg)))), None, srv2) \<and>
    conn_in srv2 = [] \<and> closed srv2 = closed ?srv"
    by (simp add: MismatchReply_type_def sample_table_def NewServerCodec_def NewClientCodec_def)
  moreover have "Suc (Suc (Suc 1)) = 4" "closed ?srv = False" by (simp_all add: NewServerCodec_def)
  ultimately show ?thesis by (simp only: canon_rpc) (simp add: sample_req_def)
qed

lemma header_dispatch_safe_witness:
  "header_error_method ''NfsProc.RPCMismatch'' \<and>
   (\<exists>c' m. ReadRequestHeader sample_env grow_double \<lparr>ServiceMethod = '''', Seq = 0\<rparr>
      (NewServerCodec (fragment True (msg_bytes ((call_msg 7 (sample_table ! 0) 1)\<lparr>CBody := zero_call\<rparr>)) @ []) ([] :: bytes) sample_table) =
        Inr (\<lparr>ServiceMethod = ''NfsProc.RPCMismatch'', Seq = 7\<rparr>, None, c') \<and>
      response_header ''NfsProc.RPCMismatch'' 7 c' = Inr m)"
proof -
  define m where "m = (call_msg 7 (sample_table ! 0) 1)\<lparr>CBody := zero_call\<rparr>"
  have a: "auths_ok m" "sent_msg m = m" "Type m = Call" "Xid m = 7" "CBody m = zero_call"
    by (simp_all add: m_def auths_ok_def sent_msg_def call_msg_def zero_msg Call_def Reply_def)
  have l: "length (msg_bytes m) = 40"
    by (simp add: m_def msg_bytes_def call_msg_def call_bytes_def zero_call_def auth_bytes_zero)
  let ?c = "NewServerCodec (fragment True (msg_bytes m) @ []) ([] :: bytes) sample_table"
  have h: "decode_header sample_env (msg_bytes m) = Inr (m, None, [])"
    using decode_header_msg [OF sample_ok(1) a(1), of "[]"] a(2) by simp
  have r: "ReadFullRecord grow_double (fragment True (msg_bytes m) @ []) = (Inr (msg_bytes m), [])"
    unfolding ReadFullRecord_def by (subst read_fragment) (simp_all add: l maxRecordSize_def)
  have "ReadRequestHeader sample_env grow_double \<lparr>ServiceMethod = '''', Seq = 0\<rparr> ?c =
    Inr (\<lparr>ServiceMethod = ''NfsProc.RPCMismatch'', Seq = 7\<rparr>, None, ?c\<lparr>conn_in := [], recordReader := []\<rparr>)"
    using h r a by (simp add: ReadRequestHeader_def NewServerCodec_def dispatch_def zero_call_def RPCProtocolVersion_def)
  from header_dispatch_safe [OF this, of 7] this show ?thesis
    unfolding m_def [symmetric] by (simp add: NewServerCodec_def sample_table_def header_error_method_def)
qed

text \<open>The headers a client or server marshals have the layout of RFC 5531: transaction id, message
  type, then the call body, or the reply body with the arm its status selects.\<close>

lemma Marshal_msg:
  "Marshal G buffer_write w (Some (rv_msg m)) = Inr (length (msg_bytes m), None, w @ msg_bytes m)"
  by (rule Marshal_msg_to)

section \<open>From server to client\<close>

definition rpc_error_method :: "string \<Rightarrow> bool" where
  "rpc_error_method meth \<longleftrightarrow>
     meth \<in> {''NfsProc.ProgUnavail'', ''NfsProc.ProgMismatch'', ''NfsProc.ProcUnavail'', ''NfsProc.GarbageArgs'',
             ''NfsProc.SystemErr'', ''NfsProc.RPCMismatch'', ''NfsProc.AuthError''}"

lemma header_normal: "\<not> rpc_error_method meth \<Longrightarrow> response_header meth s c = Inr (base_reply (ucast s))"
  by (simp add: response_header_def rpc_error_method_def Let_def)

lemma sent_base: "sent_msg (base_reply x) = base_reply x" "checkReplyForErr (base_reply x) = None"
  "auths_ok (base_reply x)"
  by (simp_all add: sent_msg_def base_reply_def sent_reply_def sent_accepted_def checkReplyForErr_def auths_ok_def
      zero_msg rpc_consts)

text \<open>A record with the header of a success and an encoded result, as a client reads it.\<close>

lemma response_read:
  assumes G: "env_ok G" and T: "wf_ty True T" "has_type G (resolve G T) v" "sendable G 0 v" "vdepth v \<le> Suc d"
    and pm: "Marshal G buffer_write (msg_bytes (base_reply x)) (Some (RPtr T (Some v))) = Inr (n, None, payload)"
    and inp: "cl_in cl = fragment True payload @ rest" "length (fragment True payload) \<le> maxRecordSize"
  shows "\<exists>cl1 cl2.
    ReadResponseHeader G grow r0 cl = Inr (r0\<lparr>RSeq := ucast x\<rparr>, None, cl1) \<and>
    ReadResponseBody G (Suc (Suc (Suc d))) (Some (RPtr T (Some (newval G T)))) cl1 =
      Inr (Some (RPtr T (Some (canon G v))), None, cl2) \<and>
    cl_in cl2 = rest"
proof -
  let ?m = "base_reply x"
  from Marshal_success [OF pm] obtain e where e: "vdepth v \<le> Suc e" "indirect v \<noteq> RInvalid"
    "encode_kind G buffer_write (encode G buffer_write e) (indirect v) (msg_bytes ?m) = Inr (n, None, payload)" by blast
  from iface_rt [OF G T(1-3) e T(4)] obtain b where b: "payload = msg_bytes ?m @ b"
    "\<And>rest. UnmarshalLimited G (Suc (Suc (Suc d))) (b @ rest)
       (Some (RPtr TIface (Some (RIface (Some (RPtr T (Some (newval G T)))))))) 0 =
      Inr (Some (RPtr TIface (Some (RIface (Some (RPtr T (Some (canon G v))))))), n, None, rest)" by blast
  have len: "length payload < 2 ^ 31" using inp(2) by (simp add: fragment_def maxRecordSize_def)
  have read: "ReadFullRecord grow (cl_in cl) = (Inr payload, rest)"
    using inp by (simp add: ReadFullRecord_def read_fragment [OF len]) (simp add: fragment_def)
  have head: "decode_header G payload = Inr (?m, None, b)"
    using decode_header_msg [OF G sent_base(3), of x b] by (simp add: b(1) sent_base(1))
  have "ReadResponseHeader G grow r0 cl = Inr (r0\<lparr>RSeq := ucast x\<rparr>, None, cl\<lparr>cl_in := rest, cl_reader := b\<rparr>)"
    using read head sent_base(2) [of x] by (simp add: ReadResponseHeader_def) (simp add: base_reply_def)
  moreover have "ReadResponseBody G (Suc (Suc (Suc d))) (Some (RPtr T (Some (newval G T)))) (cl\<lparr>cl_in := rest, cl_reader := b\<rparr>) =
     Inr (Some (RPtr T (Some (canon G v))), None, cl\<lparr>cl_in := rest, cl_reader := []\<rparr>)"
    using b(2) [of "[]"] by (simp add: ReadResponseBody_def Unmarshal_def UnmarshalLimited_def)
  ultimately show ?thesis by - (intro exI conjI, assumption, assumption, simp)
qed

text \<open>C16: The response a server writes for a method that ran is read by a client as a success with the
  same sequence number (its low 32 bits) and the same result.\<close>

theorem response_reaches_client:
  assumes G: "env_ok G" and T: "wf_ty True T" "has_type G (resolve G T) v" "sendable G 0 v" "vdepth v \<le> Suc d"
    and meth: "\<not> rpc_error_method (RServiceMethod resp)"
    and wr: "WriteResponse G buffer_write resp (Some (RPtr T (Some v))) srv = Inr (None, srv')"
    and inp: "cl_in cl = drop (length (conn_out srv)) (conn_out srv') @ rest"
      "length (conn_out srv') - length (conn_out srv) \<le> maxRecordSize"
  shows "\<exists>cl1 cl2.
    ReadResponseHeader G grow r0 cl = Inr (r0\<lparr>RSeq := ucast (ucast (RSeq resp) :: u32)\<rparr>, None, cl1) \<and>
    ReadResponseBody G (Suc (Suc (Suc d))) (Some (RPtr T (Some (newval G T)))) cl1 =
      Inr (Some (RPtr T (Some (canon G v))), None, cl2) \<and>
    cl_in cl2 = rest"
proof -
  define m where "m = base_reply (ucast (RSeq resp))"
  from wr obtain n payload k w where pm: "Marshal G buffer_write (msg_bytes m) (Some (RPtr T (Some v))) = Inr (n, None, payload)"
    and ww: "WriteFullRecord buffer_write payload (conn_out srv) = Inr (k, None, w)" and out: "conn_out srv' = w"
    by (auto simp: WriteResponse_def header_normal [OF meth] m_def [symmetric] Marshal_msg_to bindG_eq_Inr Let_def
        split: option.splits)
  have len: "length payload < 2 ^ 31"
    using ww WriteFullRecord_big [of payload "conn_out srv"] by (cases "length payload < 2 ^ 31") simp_all
  from ww have "w = conn_out srv @ fragment True payload"
    by (simp add: one_fragment [OF len] buffer_write_def fragment_def)
  with inp have "cl_in cl = fragment True payload @ rest" "length (fragment True payload) \<le> maxRecordSize" by (simp_all add: out)
  from response_read [OF G T pm [unfolded m_def] this] show ?thesis .
qed

definition sample_resp :: rpcResponse where
  "sample_resp = \<lparr>RServiceMethod = ''P.set'', RSeq = 7, Error = ''''\<rparr>"

definition sample_reply :: bytes where
  "sample_reply = fragment True (msg_bytes (base_reply 7) @ mismatch_bytes sample_arg)"

lemma length_reply: "length (msg_bytes (base_reply x)) = 24"
  by (simp add: msg_bytes_def base_reply_def reply_bytes_def accepted_bytes_def zero_msg auth_bytes_def
      opaque_bytes_def rpc_consts)

lemma sample_respond:
  "WriteResponse sample_env buffer_write sample_resp (Some (RPtr MismatchReply_type (Some (rv_mismatch sample_arg))))
     (NewServerCodec [] [] sample_table) =
   Inr (None, (NewServerCodec [] [] sample_table)\<lparr>conn_out := sample_reply\<rparr>)"
proof -
  have v: "2 \<le> Suc (vdepth (rv_mismatch sample_arg))" using vdepth_pos [of "rv_mismatch sample_arg"] by simp
  have len: "length (msg_bytes (base_reply 7) @ mismatch_bytes sample_arg) < 2 ^ 31"
    by (simp add: length_reply mismatch_bytes_def)
  have h: "response_header ''P.set'' 7 c = Inr (base_reply 7)" for c :: "bytes serverCodec"
    using header_normal [of "''P.set''" 7 c] by (simp add: rpc_error_method_def)
  show ?thesis
    using len Marshal_ptr_enc_to [OF enc_to_mismatch v, of sample_env "msg_bytes (base_reply 7)" MismatchReply_type]
    by (simp add: WriteResponse_def sample_resp_def NewServerCodec_def Marshal_msg_to h
        one_fragment buffer_write_def sample_reply_def fragment_def)
qed

lemma response_reaches_client_witness:
  "\<exists>cl1 cl2. ReadResponseHeader sample_env grow_double \<lparr>RServiceMethod = '''', RSeq = 0, Error = ''''\<rparr>
      (NewClientCodec sample_reply ([] :: bytes) sample_table) =
      Inr (\<lparr>RServiceMethod = '''', RSeq = 7, Error = ''''\<rparr>, None, cl1) \<and>
    ReadResponseBody sample_env 4 (Some (RPtr MismatchReply_type (Some (newval sample_env MismatchReply_type)))) cl1 =
      Inr (Some (RPtr MismatchReply_type (Some (rv_mismatch sample_arg))), None, cl2) \<and> cl_in cl2 = []"
proof -
  let ?cl = "NewClientCodec sample_reply ([] :: bytes) sample_table"
  have "length sample_reply = 36" by (simp add: sample_reply_def fragment_def length_reply mismatch_bytes_def)
  then have l: "length (conn_out ((NewServerCodec [] [] sample_table)\<lparr>conn_out := sample_reply\<rparr>)) -
      length (conn_out (NewServerCodec [] [] sample_table)) \<le> maxRecordSize"
    by (simp add: NewServerCodec_def maxRecordSize_def)
  have "has_type sample_env (resolve sample_env MismatchReply_type) (rv_mismatch sample_arg)"
    "sendable sample_env 0 (rv_mismatch sample_arg)" "vdepth (rv_mismatch sample_arg) \<le> Suc 1"
    by (simp_all add: MismatchReply_type_def rv_mismatch_def resolve_def field_ok_def maxl_def)
  from response_reaches_client [OF sample_ok(1) _ this _ sample_respond, of ?cl "[]" grow_double
      "\<lparr>RServiceMethod = '''', RSeq = 0, Error = ''''\<rparr>"] l
  have "\<exists>cl1 cl2. ReadResponseHeader sample_env grow_double \<lparr>RServiceMethod = '''', RSeq = 0, Error = ''''\<rparr> ?cl =
      Inr (\<lparr>RServiceMethod = '''', RSeq = 0, Error = ''''\<rparr>\<lparr>RSeq := ucast (ucast (RSeq sample_resp) :: u32)\<rparr>, None, cl1) \<and>
    ReadResponseBody sample_env (Suc (Suc (Suc 1))) (Some (RPtr MismatchReply_type (Some (newval sample_env MismatchReply_type)))) cl1 =
      Inr (Some (RPtr MismatchReply_type (Some (canon sample_env (rv_mismatch sample_arg)))), None, cl2) \<and> cl_in cl2 = []"
    by (simp add: MismatchReply_type_def NewServerCodec_def NewClientCodec_def sample_resp_def rpc_error_method_def)
  moreover have "Suc (Suc (Suc 1)) = 4" by simp
  ultimately show ?thesis by (simp only: canon_rpc) (simp add: sample_resp_def)
qed

section \<open>Error replies\<close>

text \<open>C35: What a client makes of the reply header the server builds for each of the pseudo-methods that
  stand for RPC errors: the accepted-but-failed ones come back as errors that name them, with the
  program or version range; the two denials (RPC version, authentication) are sent with the status
  \<^verbatim>\<open>MsgAccepted\<close>/\<^verbatim>\<open>Success\<close>, so that the client takes them for a success.\<close>

theorem error_replies:
  assumes "response_header meth s c = Inr m"
  shows "Xid (sent_msg m) = ucast s \<and> Stat (RBody (sent_msg m)) = MsgAccepted \<and>
    checkReplyForErr (sent_msg m) =
     (if meth = ''NfsProc.ProgUnavail''
      then Some (low_high ''ProgUnavail'' \<lparr>Low = PProgram (procTable c ! 0), High = PProgram (last (procTable c))\<rparr>)
      else if meth = ''NfsProc.ProgMismatch''
      then (let v = PVersion (procTable c ! nat (currentProgIndex c)) in Some (low_high ''ProgMismatch'' \<lparr>Low = v, High = v\<rparr>))
      else if meth = ''NfsProc.ProcUnavail'' then Some ''ProcUnavail''
      else if meth = ''NfsProc.GarbageArgs'' then Some ''GarbageArgs''
      else if meth = ''NfsProc.SystemErr'' then Some ''SystemErr''
      else None)"
  using assms
  by (auto simp: response_header_def Let_def set_accepted_def set_rejected_def base_reply_def sent_msg_def
      sent_reply_def sent_accepted_def checkReplyForErr_def zero_msg rpc_consts split: if_splits)

lemma error_replies_witness:
  "checkReplyForErr (sent_msg (base_reply 5\<lparr>RBody := (RBody (base_reply 5))\<lparr>Rreply :=
      zero_rejected\<lparr>MismatchInfo := \<lparr>Low = 2, High = 2\<rparr>, RStat := RPCMismatch\<rparr>\<rparr>\<rparr>)) = None"
proof -
  have "response_header ''NfsProc.RPCMismatch'' 5 (NewServerCodec [] [] [] :: bytes serverCodec) =
    Inr (base_reply 5\<lparr>RBody := (RBody (base_reply 5))\<lparr>Rreply :=
      zero_rejected\<lparr>MismatchInfo := \<lparr>Low = 2, High = 2\<rparr>, RStat := RPCMismatch\<rparr>\<rparr>\<rparr>)"
    by (simp add: response_header_def set_rejected_def base_reply_def zero_reply_def Let_def)
  from error_replies [OF this] show ?thesis by simp
qed

end
