(* ===== verification/Nfs_Types.thy ===== *)
theory Nfs_Types
  imports Go_Prelude
begin

text \<open>
  \<^verbatim>\<open>nfs3/nfstypdef.go\<close>: the constants and the argument and result types of the NFS version 3 and MOUNT
  version 3 programs.  A structure is a record with the fields of the source; a structure whose only
  field is another structure is that structure.  Every NFS result is a status, a structure for
  \<^verbatim>\<open>NFS3_OK\<close> and a structure for the other statuses: the record \<open>res3\<close>, at the types of each procedure.
\<close>

section \<open>Sizes and limits\<close>

definition MNTPATHLEN :: nat where "MNTPATHLEN = 1024"
definition MNTNAMLEN :: nat where "MNTNAMLEN = 255"
definition FHSIZE3 :: nat where "FHSIZE3 = 64"
definition READDIRRESOKSIZE :: nat where "READDIRRESOKSIZE = 104"
definition ENTRY3SIZE :: nat where "ENTRY3SIZE = 24"
definition tcpMaxData :: u32 where "tcpMaxData = 524288"
definition udpMaxData :: u32 where "udpMaxData = 32768"
definition NFSMAXPATHLEN :: u32 where "NFSMAXPATHLEN = 4096"

section \<open>Statuses\<close>

type_synonym Nfsstat3 = u32

definition NFS3_OK :: Nfsstat3 where "NFS3_OK = 0"
definition NFS3ERR_PERM :: Nfsstat3 where "NFS3ERR_PERM = 1"
definition NFS3ERR_NOENT :: Nfsstat3 where "NFS3ERR_NOENT = 2"
definition NFS3ERR_IO :: Nfsstat3 where "NFS3ERR_IO = 5"
definition NFS3ERR_NXIO :: Nfsstat3 where "NFS3ERR_NXIO = 6"
definition NFS3ERR_ACCES :: Nfsstat3 where "NFS3ERR_ACCES = 13"
definition NFS3ERR_EXIST :: Nfsstat3 where "NFS3ERR_EXIST = 17"
definition NFS3ERR_XDEV :: Nfsstat3 where "NFS3ERR_XDEV = 18"
definition NFS3ERR_NODEV :: Nfsstat3 where "NFS3ERR_NODEV = 19"
definition NFS3ERR_NOTDIR :: Nfsstat3 where "NFS3ERR_NOTDIR = 20"
definition NFS3ERR_ISDIR :: Nfsstat3 where "NFS3ERR_ISDIR = 21"
definition NFS3ERR_INVAL :: Nfsstat3 where "NFS3ERR_INVAL = 22"
definition NFS3ERR_FBIG :: Nfsstat3 where "NFS3ERR_FBIG = 27"
definition NFS3ERR_NOSPC :: Nfsstat3 where "NFS3ERR_NOSPC = 28"
definition NFS3ERR_ROFS :: Nfsstat3 where "NFS3ERR_ROFS = 30"
definition NFS3ERR_MLINK :: Nfsstat3 where "NFS3ERR_MLINK = 31"
definition NFS3ERR_NAMETOOLONG :: Nfsstat3 where "NFS3ERR_NAMETOOLONG = 63"
definition NFS3ERR_NOTEMPTY :: Nfsstat3 where "NFS3ERR_NOTEMPTY = 66"
definition NFS3ERR_DQUOT :: Nfsstat3 where "NFS3ERR_DQUOT = 69"
definition NFS3ERR_STALE :: Nfsstat3 where "NFS3ERR_STALE = 70"
definition NFS3ERR_REMOTE :: Nfsstat3 where "NFS3ERR_REMOTE = 71"
definition NFS3ERR_BADHANDLE :: Nfsstat3 where "NFS3ERR_BADHANDLE = 10001"
definition NFS3ERR_NOT_SYNC :: Nfsstat3 where "NFS3ERR_NOT_SYNC = 10002"
definition NFS3ERR_BAD_COOKIE :: Nfsstat3 where "NFS3ERR_BAD_COOKIE = 10003"
definition NFS3ERR_NOTSUPP :: Nfsstat3 where "NFS3ERR_NOTSUPP = 10004"
definition NFS3ERR_TOOSMALL :: Nfsstat3 where "NFS3ERR_TOOSMALL = 10005"
definition NFS3ERR_SERVERFAULT :: Nfsstat3 where "NFS3ERR_SERVERFAULT = 10006"
definition NFS3ERR_BADTYPE :: Nfsstat3 where "NFS3ERR_BADTYPE = 10007"
definition NFS3ERR_JUKEBOX :: Nfsstat3 where "NFS3ERR_JUKEBOX = 10008"

lemmas nfs_stats = NFS3_OK_def NFS3ERR_PERM_def NFS3ERR_NOENT_def NFS3ERR_IO_def NFS3ERR_NXIO_def
  NFS3ERR_ACCES_def NFS3ERR_EXIST_def NFS3ERR_XDEV_def NFS3ERR_NOTDIR_def NFS3ERR_ISDIR_def
  NFS3ERR_INVAL_def NFS3ERR_FBIG_def NFS3ERR_NOSPC_def NFS3ERR_ROFS_def NFS3ERR_MLINK_def
  NFS3ERR_NAMETOOLONG_def NFS3ERR_NOTEMPTY_def NFS3ERR_STALE_def NFS3ERR_NOT_SYNC_def
  NFS3ERR_NOTSUPP_def NFS3ERR_NODEV_def NFS3ERR_DQUOT_def NFS3ERR_REMOTE_def NFS3ERR_BADHANDLE_def
  NFS3ERR_BAD_COOKIE_def NFS3ERR_TOOSMALL_def NFS3ERR_SERVERFAULT_def NFS3ERR_BADTYPE_def NFS3ERR_JUKEBOX_def

type_synonym Mountstat3 = "32 word"

definition MNT3_OK :: Mountstat3 where "MNT3_OK = 0"
definition MNT3ERR_PERM :: Mountstat3 where "MNT3ERR_PERM = 1"
definition MNT3ERR_NOENT :: Mountstat3 where "MNT3ERR_NOENT = 2"
definition MNT3ERR_IO :: Mountstat3 where "MNT3ERR_IO = 5"
definition MNT3ERR_ACCES :: Mountstat3 where "MNT3ERR_ACCES = 13"
definition MNT3ERR_NOTDIR :: Mountstat3 where "MNT3ERR_NOTDIR = 20"
definition MNT3ERR_INVAL :: Mountstat3 where "MNT3ERR_INVAL = 22"
definition MNT3ERR_NAMETOOLONG :: Mountstat3 where "MNT3ERR_NAMETOOLONG = 63"
definition MNT3ERR_NOTSUPP :: Mountstat3 where "MNT3ERR_NOTSUPP = 10004"
definition MNT3ERR_SERVERFAULT :: Mountstat3 where "MNT3ERR_SERVERFAULT = 10006"

section \<open>File types, access bits, modes of creation\<close>

type_synonym Ftype3 = "32 word"

definition NF3REG :: Ftype3 where "NF3REG = 1"
definition NF3DIR :: Ftype3 where "NF3DIR = 2"
definition NF3BLK :: Ftype3 where "NF3BLK = 3"
definition NF3CHR :: Ftype3 where "NF3CHR = 4"
definition NF3LNK :: Ftype3 where "NF3LNK = 5"
definition NF3SOCK :: Ftype3 where "NF3SOCK = 6"
definition NF3FIFO :: Ftype3 where "NF3FIFO = 7"

lemmas nfs_ftypes = NF3REG_def NF3DIR_def NF3BLK_def NF3CHR_def NF3LNK_def NF3SOCK_def NF3FIFO_def

definition ACCESS3_READ :: u32 where "ACCESS3_READ = 1"
definition ACCESS3_LOOKUP :: u32 where "ACCESS3_LOOKUP = 2"
definition ACCESS3_MODIFY :: u32 where "ACCESS3_MODIFY = 4"
definition ACCESS3_EXTEND :: u32 where "ACCESS3_EXTEND = 8"
definition ACCESS3_DELETE :: u32 where "ACCESS3_DELETE = 16"
definition ACCESS3_EXECUTE :: u32 where "ACCESS3_EXECUTE = 32"

lemmas access_bits = ACCESS3_READ_def ACCESS3_LOOKUP_def ACCESS3_MODIFY_def ACCESS3_EXTEND_def
  ACCESS3_DELETE_def ACCESS3_EXECUTE_def

definition FSF3_LINK :: u32 where "FSF3_LINK = 1"
definition FSF3_SYMLINK :: u32 where "FSF3_SYMLINK = 2"
definition FSF3_HOMOGENEOUS :: u32 where "FSF3_HOMOGENEOUS = 4"
definition FSF3_CANSETTIME :: u32 where "FSF3_CANSETTIME = 8"

definition UNSTABLE :: "32 word" where "UNSTABLE = 0"
definition DATA_SYNC :: "32 word" where "DATA_SYNC = 1"
definition FILE_SYNC :: "32 word" where "FILE_SYNC = 2"

definition DONT_CHANGE :: u32 where "DONT_CHANGE = 0"
definition SET_TO_SERVER_TIME :: u32 where "SET_TO_SERVER_TIME = 1"
definition SET_TO_CLIENT_TIME :: u32 where "SET_TO_CLIENT_TIME = 2"

definition UNCHECKED :: "32 word" where "UNCHECKED = 0"
definition GUARDED :: "32 word" where "GUARDED = 1"
definition EXCLUSIVE :: "32 word" where "EXCLUSIVE = 2"

definition AUTH_NONE :: "32 word" where "AUTH_NONE = 0"
definition AUTH_UNIX :: "32 word" where "AUTH_UNIX = 1"

section \<open>Attributes\<close>

record Specdata3 =
  Specdata1 :: u32
  Specdata2 :: u32

record Nfstime3 =
  Seconds :: u32
  Nseconds :: u32

record Fattr3 =
  FType :: Ftype3
  FMode :: u32
  Nlink :: u32
  FUid :: u32
  FGid :: u32
  FSize :: u64
  Used :: u64
  Rdev :: Specdata3
  Fsid :: u64
  Fileid :: u64
  FAtime :: Nfstime3
  FMtime :: Nfstime3
  FCtime :: Nfstime3

record Post_op_attr =
  Attributes_follow :: bool
  Attributes :: Fattr3

record Wcc_attr =
  WSize :: u64
  WMtime :: Nfstime3
  WCtime :: Nfstime3

record Pre_op_attr =
  PreAttributes_follow :: bool
  PreAttributes :: Wcc_attr

record Wcc_data =
  WBefore :: Pre_op_attr
  WAfter :: Post_op_attr

text \<open>The settable attributes; a flag says whether a field is to be set.\<close>

record Set_mode3 =
  Mode_set :: bool
  SMode :: u32

text \<open>\<^verbatim>\<open>Set_uid3\<close> and \<^verbatim>\<open>Set_gid3\<close>, \<^verbatim>\<open>Set_atime\<close> and \<^verbatim>\<open>Set_mtime\<close> have the same fields.\<close>

record Set_id3 =
  Id_set :: bool
  SId :: u32

record Set_size3 =
  Size_set :: bool
  SSize :: u64

record Set_time =
  Time_set :: u32
  STime :: Nfstime3

record Sattr3 =
  SaMode :: Set_mode3
  SaUid :: Set_id3
  SaGid :: Set_id3
  SaSize :: Set_size3
  SaAtime :: Set_time
  SaMtime :: Set_time

record Sattrguard3 =
  Check :: bool
  Obj_ctime :: Nfstime3

record Createhow3 =
  CMode :: "32 word"
  CVerf :: bytes
  CObj_attributes :: Sattr3

section \<open>Arguments\<close>

text \<open>\<^verbatim>\<open>Nfs_fh3\<close> is a structure with the one field \<^verbatim>\<open>Data\<close>: the bytes of a handle.\<close>

type_synonym Nfs_fh3 = bytes

record Diropargs3 =
  Dir :: Nfs_fh3
  DName :: string

record SETATTR3args =
  SObject :: Nfs_fh3
  New_attributes :: Sattr3
  Guard :: Sattrguard3

record ACCESS3args =
  AObject :: Nfs_fh3
  AAccess :: u32

record READ3args =
  RFile :: Nfs_fh3
  ROffset :: u64
  RCount :: u32

record WRITE3args =
  WFile :: Nfs_fh3
  WOffset :: u64
  WCount :: u32
  WStable :: "32 word"
  WData :: bytes

record CREATE3args =
  Where :: Diropargs3
  How :: Createhow3

record MKDIR3args =
  MkWhere :: Diropargs3
  MkAttributes :: Sattr3

record Symlinkdata3 =
  SdAttributes :: Sattr3
  SdData :: string

record SYMLINK3args =
  SlWhere :: Diropargs3
  SlSymlink :: Symlinkdata3

record RENAME3args =
  RnFrom :: Diropargs3
  RnTo :: Diropargs3

record LINK3args =
  LnFile :: Nfs_fh3
  LnLink :: Diropargs3

record READDIR3args =
  RdDir :: Nfs_fh3
  RdCookie :: u64
  RdCookieverf :: bytes
  RdCount :: u32

record READDIRPLUS3args =
  RpDir :: Nfs_fh3
  RpCookie :: u64
  RpCookieverf :: bytes
  RpDircount :: u32
  RpMaxcount :: u32

record Devicedata3 =
  Dev_attributes :: Sattr3
  DSpec :: Specdata3

record Mknoddata3 =
  MnType :: Ftype3
  Device1 :: Devicedata3
  Device2 :: Devicedata3
  Pipe_attributes1 :: Sattr3
  Pipe_attributes2 :: Sattr3

record MKNOD3args =
  MnWhere :: Diropargs3
  MnWhat :: Mknoddata3

record COMMIT3args =
  CoFile :: Nfs_fh3
  CoOffset :: u64
  CoCount :: u32

section \<open>Results\<close>

record ('ok, 'fail) res3 =
  Status :: Nfsstat3
  Resok :: 'ok
  Resfail :: 'fail

record LOOKUP3resok =
  LkObject :: Nfs_fh3
  LkObj_attributes :: Post_op_attr
  LkDir_attributes :: Post_op_attr

record ACCESS3resok =
  AcObj_attributes :: Post_op_attr
  Access3 :: u32

record READLINK3resok =
  RlSymlink_attributes :: Post_op_attr
  RlData :: string

record READ3resok =
  RdFile_attributes :: Post_op_attr
  RdrCount :: u32
  RdEof :: bool
  RdData :: bytes

record WRITE3resok =
  WrFile_wcc :: Wcc_data
  WrCount :: u32
  Committed :: "32 word"
  WrVerf :: bytes

record COMMIT3resok =
  CmFile_wcc :: Wcc_data
  CmVerf :: bytes

record Post_op_fh3 =
  Handle_follows :: bool
  Handle :: Nfs_fh3

text \<open>\<^verbatim>\<open>CREATE3resok\<close>, \<^verbatim>\<open>MKDIR3resok\<close>, \<^verbatim>\<open>SYMLINK3resok\<close> and \<^verbatim>\<open>MKNOD3resok\<close> have the same fields.\<close>

record CREATE3resok =
  CrObj :: Post_op_fh3
  CrObj_attributes :: Post_op_attr
  CrDir_wcc :: Wcc_data

record RENAME3resok =
  Fromdir_wcc :: Wcc_data
  Todir_wcc :: Wcc_data

record LINK3resok =
  LnFile_attributes :: Post_op_attr
  Linkdir_wcc :: Wcc_data

text \<open>
  The directory listing: the source links the entries by pointers (\<^verbatim>\<open>Nextentry\<close>, the last one nil);
  here they are the list of the entries in that order.
\<close>

record Entry3 =
  EFileid :: u64
  EName :: string
  ECookie :: u64

record Dirlist3 =
  Entries :: "Entry3 list"
  DEof :: bool

record READDIR3resok =
  RdDir_attributes :: Post_op_attr
  RdrCookieverf :: bytes
  RdReply :: Dirlist3

record Entryplus3 =
  PFileid :: u64
  PName :: string
  PCookie :: u64
  Name_attributes :: Post_op_attr
  Name_handle :: Post_op_fh3

record Dirlistplus3 =
  PEntries :: "Entryplus3 list"
  PEof :: bool

record READDIRPLUS3resok =
  RpDir_attributes :: Post_op_attr
  RprCookieverf :: bytes
  RpReply :: Dirlistplus3

record FSINFO3resok =
  FiObj_attributes :: Post_op_attr
  Rtmax :: u32
  Rtpref :: u32
  Rtmult :: u32
  Wtmax :: u32
  Wtpref :: u32
  Wtmult :: u32
  Dtpref :: u32
  Maxfilesize :: u64
  Time_delta :: Nfstime3
  Properties :: u32

record FSSTAT3resok =
  FsObj_attributes :: Post_op_attr
  Tbytes :: u64
  Fbytes :: u64
  Abytes :: u64
  Tfiles :: u64
  Ffiles :: u64
  Afiles :: u64
  Invarsec :: u32

record PATHCONF3resok =
  PcObj_attributes :: Post_op_attr
  Linkmax :: u32
  Name_max :: u32
  No_trunc :: bool
  Chown_restricted :: bool
  Case_insensitive :: bool
  Case_preserving :: bool

type_synonym GETATTR3res = "(Fattr3, unit) res3"
type_synonym SETATTR3res = "(Wcc_data, Wcc_data) res3"
type_synonym LOOKUP3res = "(LOOKUP3resok, Post_op_attr) res3"
type_synonym ACCESS3res = "(ACCESS3resok, Post_op_attr) res3"
type_synonym READLINK3res = "(READLINK3resok, Post_op_attr) res3"
type_synonym READ3res = "(READ3resok, Post_op_attr) res3"
type_synonym WRITE3res = "(WRITE3resok, Wcc_data) res3"
type_synonym CREATE3res = "(CREATE3resok, Wcc_data) res3"
type_synonym REMOVE3res = "(Wcc_data, Wcc_data) res3"
type_synonym RENAME3res = "(RENAME3resok, RENAME3resok) res3"
type_synonym LINK3res = "(LINK3resok, LINK3resok) res3"
type_synonym READDIR3res = "(READDIR3resok, Post_op_attr) res3"
type_synonym READDIRPLUS3res = "(READDIRPLUS3resok, Post_op_attr) res3"
type_synonym FSINFO3res = "(FSINFO3resok, Post_op_attr) res3"
type_synonym FSSTAT3res = "(FSSTAT3resok, Post_op_attr) res3"
type_synonym PATHCONF3res = "(PATHCONF3resok, Post_op_attr) res3"
type_synonym COMMIT3res = "(COMMIT3resok, Wcc_data) res3"

text \<open>The MOUNT results.  A list of mounts (\<^verbatim>\<open>Mountlist\<close>, linked by \<^verbatim>\<open>Ml_next\<close>) is the list of its nodes.\<close>

record Mountbody =
  Ml_hostname :: string
  Ml_directory :: string

type_synonym Mountlist = "Mountbody list"

record Mountres3_ok =
  Fhandle :: bytes
  Auth_flavors :: "32 word list"

record Mountres3 =
  Fhs_status :: Mountstat3
  Mountinfo :: Mountres3_ok

text \<open>
  \<^verbatim>\<open>Exports\<close>: the optional pointers to the next node are the tails of lists; a node is the exported
  directory and the names of its groups.
\<close>

record Exportnode =
  Ex_dir :: string
  Ex_groups :: "string list"

type_synonym Exports = "Exportnode list"

section \<open>Zero values\<close>

text \<open>What \<^verbatim>\<open>reflect.New\<close> gives \<^verbatim>\<open>net/rpc\<close> for a reply, and \<^verbatim>\<open>var fattr Fattr3\<close> the handlers.\<close>

definition zero_time :: Nfstime3 where "zero_time = \<lparr>Seconds = 0, Nseconds = 0\<rparr>"

definition zero_fattr :: Fattr3 where
  "zero_fattr = \<lparr>FType = 0, FMode = 0, Nlink = 0, FUid = 0, FGid = 0, FSize = 0, Used = 0,
     Rdev = \<lparr>Specdata1 = 0, Specdata2 = 0\<rparr>, Fsid = 0, Fileid = 0, FAtime = zero_time,
     FMtime = zero_time, FCtime = zero_time\<rparr>"

definition zero_post :: Post_op_attr where "zero_post = \<lparr>Attributes_follow = False, Attributes = zero_fattr\<rparr>"

definition zero_wcc :: Wcc_data where
  "zero_wcc = \<lparr>WBefore = \<lparr>PreAttributes_follow = False,
       PreAttributes = \<lparr>WSize = 0, WMtime = zero_time, WCtime = zero_time\<rparr>\<rparr>, WAfter = zero_post\<rparr>"

definition zero_res :: "'ok \<Rightarrow> 'fail \<Rightarrow> ('ok, 'fail) res3" where
  "zero_res ok fail = \<lparr>Status = 0, Resok = ok, Resfail = fail\<rparr>"

definition zero_getattr :: GETATTR3res where "zero_getattr = zero_res zero_fattr ()"
definition zero_wcc_res :: "(Wcc_data, Wcc_data) res3" where "zero_wcc_res = zero_res zero_wcc zero_wcc"
definition zero_lookup :: LOOKUP3res where
  "zero_lookup = zero_res \<lparr>LkObject = [], LkObj_attributes = zero_post, LkDir_attributes = zero_post\<rparr> zero_post"
definition zero_access :: ACCESS3res where
  "zero_access = zero_res \<lparr>AcObj_attributes = zero_post, Access3 = 0\<rparr> zero_post"
definition zero_readlink :: READLINK3res where
  "zero_readlink = zero_res \<lparr>RlSymlink_attributes = zero_post, RlData = ''''\<rparr> zero_post"
definition zero_read :: READ3res where
  "zero_read = zero_res \<lparr>RdFile_attributes = zero_post, RdrCount = 0, RdEof = False, RdData = []\<rparr> zero_post"
definition zero_write :: WRITE3res where
  "zero_write = zero_res \<lparr>WrFile_wcc = zero_wcc, WrCount = 0, Committed = 0, WrVerf = replicate 8 0\<rparr> zero_wcc"
definition zero_create :: CREATE3res where
  "zero_create = zero_res \<lparr>CrObj = \<lparr>Handle_follows = False, Handle = []\<rparr>, CrObj_attributes = zero_post,
     CrDir_wcc = zero_wcc\<rparr> zero_wcc"
definition zero_rename :: RENAME3res where
  "zero_rename = zero_res \<lparr>Fromdir_wcc = zero_wcc, Todir_wcc = zero_wcc\<rparr> \<lparr>Fromdir_wcc = zero_wcc, Todir_wcc = zero_wcc\<rparr>"
definition zero_link :: LINK3res where
  "zero_link = zero_res \<lparr>LnFile_attributes = zero_post, Linkdir_wcc = zero_wcc\<rparr>
     \<lparr>LnFile_attributes = zero_post, Linkdir_wcc = zero_wcc\<rparr>"
definition zero_readdir :: READDIR3res where
  "zero_readdir = zero_res \<lparr>RdDir_attributes = zero_post, RdrCookieverf = replicate 8 0,
     RdReply = \<lparr>Entries = [], DEof = False\<rparr>\<rparr> zero_post"
definition zero_readdirplus :: READDIRPLUS3res where
  "zero_readdirplus = zero_res \<lparr>RpDir_attributes = zero_post, RprCookieverf = replicate 8 0,
     RpReply = \<lparr>PEntries = [], PEof = False\<rparr>\<rparr> zero_post"
definition zero_fsinfo :: FSINFO3res where
  "zero_fsinfo = zero_res \<lparr>FiObj_attributes = zero_post, Rtmax = 0, Rtpref = 0, Rtmult = 0, Wtmax = 0,
     Wtpref = 0, Wtmult = 0, Dtpref = 0, Maxfilesize = 0, Time_delta = zero_time, Properties = 0\<rparr> zero_post"
definition zero_fsstat :: FSSTAT3res where
  "zero_fsstat = zero_res \<lparr>FsObj_attributes = zero_post, Tbytes = 0, Fbytes = 0, Abytes = 0, Tfiles = 0,
     Ffiles = 0, Afiles = 0, Invarsec = 0\<rparr> zero_post"
definition zero_pathconf :: PATHCONF3res where
  "zero_pathconf = zero_res \<lparr>PcObj_attributes = zero_post, Linkmax = 0, Name_max = 0, No_trunc = False,
     Chown_restricted = False, Case_insensitive = False, Case_preserving = False\<rparr> zero_post"
definition zero_commit :: COMMIT3res where
  "zero_commit = zero_res \<lparr>CmFile_wcc = zero_wcc, CmVerf = replicate 8 0\<rparr> zero_wcc"
definition zero_mount :: Mountres3 where
  "zero_mount = \<lparr>Fhs_status = 0, Mountinfo = \<lparr>Fhandle = [], Auth_flavors = []\<rparr>\<rparr>"

lemmas zero_defs = zero_time_def zero_fattr_def zero_post_def zero_wcc_def zero_res_def zero_getattr_def
  zero_wcc_res_def zero_lookup_def zero_access_def zero_readlink_def zero_read_def zero_write_def
  zero_create_def zero_rename_def zero_link_def zero_readdir_def zero_readdirplus_def zero_fsinfo_def zero_fsstat_def
  zero_pathconf_def zero_commit_def zero_mount_def

end
