(* ===== verification/Nfs_Backend.thy ===== *)
theory Nfs_Backend
  imports Nfs_Types
begin

text \<open>
  The state of the NFS server (\<^verbatim>\<open>type Backend\<close> of \<^verbatim>\<open>nfs3/allunix.go\<close>), the operating system it calls
  (a parameter, as functions on the state of the world), the handle table, the attribute reader every
  handler uses, the configuration and the MOUNT operations.
\<close>

section \<open>Computations of the server\<close>

text \<open>
  The state of the process: the backend, and the world \<open>'w\<close>, which is whatever the operating system keeps.
\<close>

record configOptions =
  exportPath :: string
  exportPathFid :: u64
  exportPathFsid :: u64
  allowAddr :: string
  writeaccess :: bool

record Backend =
  fhandleMap :: "u64 \<rightharpoonup> string"
  ServerStartTime :: u64
  config :: configOptions

record 'w srv =
  backend :: Backend
  world :: 'w

text \<open>
  A handler is a program of actions: a step under the lock of the handle table, a reading of the configuration, a call to
  the operating system.  Each is atomic; between two of them the goroutines of other requests, and other processes,
  may act.  An action changes the state and goes on with what it saw of it; a handler ends with a result, or takes the
  process down.
\<close>

datatype (dead 'w, results: 'a) run =
    ret 'a
  | crash crash
  | act "'w srv \<Rightarrow> 'w srv" "'w srv \<Rightarrow> ('w, 'a) run"

primrec bindR :: "('w, 'a) run \<Rightarrow> ('a \<Rightarrow> ('w, 'b) run) \<Rightarrow> ('w, 'b) run" where
  "bindR (ret x) f = f x"
| "bindR (crash c) f = crash c"
| "bindR (act u k) f = act u (\<lambda>s. bindR (k s) f)"

definition getBE :: "(Backend \<Rightarrow> 'a) \<Rightarrow> ('w, 'a) run" where
  "getBE f = act (\<lambda>s. s) (\<lambda>s. ret (f (backend s)))"

definition modBE :: "(Backend \<Rightarrow> Backend) \<Rightarrow> ('w, unit) run" where
  "modBE f = act (\<lambda>s. s\<lparr>backend := f (backend s)\<rparr>) (\<lambda>s. ret ())"

text \<open>A call to the operating system.\<close>

definition sys :: "('w \<Rightarrow> 'a \<times> 'w) \<Rightarrow> ('w, 'a) run" where
  "sys f = act (\<lambda>s. s\<lparr>world := snd (f (world s))\<rparr>) (\<lambda>s. ret (fst (f (world s))))"

text \<open>A pure step that may crash: a type assertion, an index.\<close>

definition liftG :: "'a go \<Rightarrow> ('w, 'a) run" where
  "liftG m = (case m of Inl c \<Rightarrow> crash c | Inr x \<Rightarrow> ret x)"

lemma liftG_simps [simp]: "liftG (Inl c) = crash c" "liftG (Inr x) = ret x"
  by (simp_all add: liftG_def)

lemma bindR_assoc: "bindR (bindR m f) g = bindR m (\<lambda>x. bindR (f x) g)"
  by (induction m) simp_all

text \<open>A handler that runs alone, from the first action to the last.\<close>

primrec exec :: "('w, 'a) run \<Rightarrow> 'w srv \<Rightarrow> ('a \<times> 'w srv) go" where
  "exec (ret x) = (\<lambda>s. Inr (x, s))"
| "exec (crash c) = (\<lambda>s. Inl c)"
| "exec (act u k) = (\<lambda>s. exec (k s) (u s))"

lemma exec_bindR: "exec (bindR m f) s = (case exec m s of Inl c \<Rightarrow> Inl c | Inr (x, t) \<Rightarrow> exec (f x) t)"
  by (induction m arbitrary: s) simp_all

lemma exec_steps:
  "exec (getBE g) s = Inr (g (backend s), s)"
  "exec (modBE u) s = Inr ((), s\<lparr>backend := u (backend s)\<rparr>)"
  "exec (sys f) s = (let (x, w) = f (world s) in Inr (x, s\<lparr>world := w\<rparr>))"
  "exec (liftG m) s = (case m of Inl c \<Rightarrow> Inl c | Inr y \<Rightarrow> Inr (y, s))"
  by (simp_all add: getBE_def modBE_def sys_def liftG_def split: sum.split prod.split)

text \<open>Every result a program can end with, whatever happens between its actions.\<close>

lemma results_bindR [simp]: "results (bindR m f) = (\<Union>x \<in> results m. results (f x))"
  by (induction m) auto

lemma exec_results: "exec m s = Inr (x, t) \<Longrightarrow> x \<in> results m"
  by (induction m arbitrary: s) (auto, blast)

section \<open>The operating system\<close>

text \<open>
  Errors as the \<^verbatim>\<open>os\<close> and \<^verbatim>\<open>syscall\<close> packages give them: a bare \<^verbatim>\<open>syscall.Errno\<close>, \<^verbatim>\<open>io.EOF\<close>, any other
  error value, or one of them wrapped in \<^verbatim>\<open>*os.PathError\<close>, \<^verbatim>\<open>*os.LinkError\<close> or \<^verbatim>\<open>*os.SyscallError\<close>.
  The handlers take the wrappers off by type assertions, which panic on any other dynamic type.
\<close>

type_synonym Errno = u64

datatype oserror = Errno Errno | OsEOF | OsOther string | PathError oserror | LinkError oserror | SyscallError oserror

fun as_Errno :: "oserror \<Rightarrow> Errno go" where
  "as_Errno (Errno e) = Inr e"
| "as_Errno _ = Inl Panic"

fun PathError_Errno :: "oserror \<Rightarrow> Errno go" where
  "PathError_Errno (PathError e) = as_Errno e"
| "PathError_Errno _ = Inl Panic"

fun LinkError_Errno :: "oserror \<Rightarrow> Errno go" where
  "LinkError_Errno (LinkError e) = as_Errno e"
| "LinkError_Errno _ = Inl Panic"

fun SyscallError_Errno :: "oserror \<Rightarrow> Errno go" where
  "SyscallError_Errno (SyscallError e) = as_Errno e"
| "SyscallError_Errno _ = Inl Panic"

text \<open>The error numbers of Linux the handlers look for.\<close>

definition EPERM :: Errno where "EPERM = 1"
definition ENOENT :: Errno where "ENOENT = 2"
definition EIO :: Errno where "EIO = 5"
definition ENXIO :: Errno where "ENXIO = 6"
definition EACCES :: Errno where "EACCES = 13"
definition EEXIST :: Errno where "EEXIST = 17"
definition EXDEV :: Errno where "EXDEV = 18"
definition ENODEV :: Errno where "ENODEV = 19"
definition ENOTDIR :: Errno where "ENOTDIR = 20"
definition EISDIR :: Errno where "EISDIR = 21"
definition EINVAL :: Errno where "EINVAL = 22"
definition EFBIG :: Errno where "EFBIG = 27"
definition ENOSPC :: Errno where "ENOSPC = 28"
definition EROFS :: Errno where "EROFS = 30"
definition EMLINK :: Errno where "EMLINK = 31"
definition ENAMETOOLONG :: Errno where "ENAMETOOLONG = 36"
definition ENOSYS :: Errno where "ENOSYS = 38"
definition ENOTEMPTY :: Errno where "ENOTEMPTY = 39"
definition ELOOP :: Errno where "ELOOP = 40"

lemmas errnos = EPERM_def ENOENT_def EIO_def ENXIO_def EACCES_def EEXIST_def EXDEV_def ENODEV_def
  ENOTDIR_def EISDIR_def EINVAL_def EFBIG_def ENOSPC_def EROFS_def EMLINK_def ENAMETOOLONG_def
  ENOSYS_def ENOTEMPTY_def ELOOP_def

text \<open>What \<^verbatim>\<open>os.FileInfo\<close> and \<^verbatim>\<open>syscall.Stat_t\<close>, \<^verbatim>\<open>Statfs_t\<close> give; \<open>Sys\<close> is \<open>None\<close> where the dynamic type is
  not \<^verbatim>\<open>*syscall.Stat_t\<close>.\<close>

record Stat_t =
  StNlink :: u64
  StUid :: u32
  StGid :: u32
  StBlocks :: u64
  StRdev :: u64
  StDev :: u64
  StIno :: u64
  AtimSec :: u64
  AtimNsec :: u64
  MtimSec :: u64
  MtimNsec :: u64
  CtimSec :: u64
  CtimNsec :: u64

record FileInfo =
  FiName :: string
  FiSize :: u64
  FiMode :: u32
  FiSys :: "Stat_t option"

record Statfs_t =
  SfBlocks :: u64
  SfBavail :: u64
  SfBfree :: u64
  SfFfree :: u64
  SfFiles :: u64
  SfFrsize :: u64

text \<open>Bits of \<^verbatim>\<open>os.FileMode\<close> and flags of \<^verbatim>\<open>os.OpenFile\<close>.\<close>

definition ModeDir :: u32 where "ModeDir = push_bit 31 1"
definition ModeSymlink :: u32 where "ModeSymlink = push_bit 27 1"
definition ModeDevice :: u32 where "ModeDevice = push_bit 26 1"
definition ModeNamedPipe :: u32 where "ModeNamedPipe = push_bit 25 1"
definition ModeSocket :: u32 where "ModeSocket = push_bit 24 1"
definition ModeCharDevice :: u32 where "ModeCharDevice = push_bit 21 1"
definition ModeIrregular :: u32 where "ModeIrregular = push_bit 19 1"
definition ModeType :: u32 where
  "ModeType = ModeDir OR ModeSymlink OR ModeNamedPipe OR ModeSocket OR ModeDevice OR ModeCharDevice OR ModeIrregular"
definition ModePerm :: u32 where "ModePerm = 0x1FF"

lemmas file_modes = ModeDir_def ModeSymlink_def ModeDevice_def ModeNamedPipe_def ModeSocket_def
  ModeCharDevice_def ModeIrregular_def ModeType_def ModePerm_def

definition O_RDONLY :: nat where "O_RDONLY = 0"
definition O_WRONLY :: nat where "O_WRONLY = 1"
definition O_RDWR :: nat where "O_RDWR = 2"
definition O_CREATE :: nat where "O_CREATE = 0x40"
definition O_EXCL :: nat where "O_EXCL = 0x80"
definition O_TRUNC :: nat where "O_TRUNC = 0x200"
definition O_NONBLOCK :: nat where "O_NONBLOCK = 0x800"

lemmas open_flags = O_RDONLY_def O_WRONLY_def O_RDWR_def O_CREATE_def O_EXCL_def O_TRUNC_def O_NONBLOCK_def

text \<open>
  The calls the server makes.  \<^verbatim>\<open>os.Open\<close> is \<open>OpenFile\<close> read-only; an open file is a number.
  \<open>ReadAt\<close> gives the bytes read (the first ones of the buffer), \<open>WriteAt\<close> how many were written.
\<close>

type_synonym fd = nat

record 'w os =
  Lstat :: "string \<Rightarrow> 'w \<Rightarrow> (oserror + FileInfo) \<times> 'w"
  Statfs :: "string \<Rightarrow> 'w \<Rightarrow> (oserror + Statfs_t) \<times> 'w"
  OpenFile :: "string \<Rightarrow> nat \<Rightarrow> u32 \<Rightarrow> 'w \<Rightarrow> (oserror + fd) \<times> 'w"
  Readdir :: "fd \<Rightarrow> 'w \<Rightarrow> (oserror + FileInfo list) \<times> 'w"
  ReadAt :: "fd \<Rightarrow> nat \<Rightarrow> int \<Rightarrow> 'w \<Rightarrow> (bytes \<times> oserror option) \<times> 'w"
  WriteAt :: "fd \<Rightarrow> bytes \<Rightarrow> int \<Rightarrow> 'w \<Rightarrow> (nat \<times> oserror option) \<times> 'w"
  Fsync :: "fd \<Rightarrow> 'w \<Rightarrow> oserror option \<times> 'w"
  CloseFile :: "fd \<Rightarrow> 'w \<Rightarrow> oserror option \<times> 'w"
  Mkdir_sys :: "string \<Rightarrow> u32 \<Rightarrow> 'w \<Rightarrow> oserror option \<times> 'w"
  Rename_sys :: "string \<Rightarrow> string \<Rightarrow> 'w \<Rightarrow> oserror option \<times> 'w"
  Truncate :: "string \<Rightarrow> int \<Rightarrow> 'w \<Rightarrow> oserror option \<times> 'w"
  Chmod :: "string \<Rightarrow> u32 \<Rightarrow> 'w \<Rightarrow> oserror option \<times> 'w"
  Chtimes :: "string \<Rightarrow> Nfstime3 \<Rightarrow> Nfstime3 \<Rightarrow> 'w \<Rightarrow> oserror option \<times> 'w"
  Unlink :: "string \<Rightarrow> 'w \<Rightarrow> oserror option \<times> 'w"
  Rmdir_sys :: "string \<Rightarrow> 'w \<Rightarrow> oserror option \<times> 'w"
  Link_sys :: "string \<Rightarrow> string \<Rightarrow> 'w \<Rightarrow> oserror option \<times> 'w"
  Symlink_sys :: "string \<Rightarrow> string \<Rightarrow> 'w \<Rightarrow> oserror option \<times> 'w"
  Readlink_sys :: "string \<Rightarrow> 'w \<Rightarrow> (oserror + string) \<times> 'w"
  Geteuid :: int
  Getegid :: int

text \<open>\<^verbatim>\<open>if f, err := os.OpenFile(...); err == nil { defer f.Close(); ... }\<close>: the file is closed when the
  handler returns, whatever \<open>Close\<close> gives.\<close>

definition with_file :: "'w os \<Rightarrow> fd \<Rightarrow> ('w, 'a) run \<Rightarrow> ('w, 'a) run" where
  "with_file os f body = bindR body (\<lambda>r. bindR (sys (CloseFile os f)) (\<lambda>_. ret r))"

section \<open>The handle table\<close>

text \<open>\<^verbatim>\<open>fnv.New64a\<close>: the 64-bit FNV-1a hash.\<close>

definition fnv_offset :: u64 where "fnv_offset = 14695981039346656037"
definition fnv_prime :: u64 where "fnv_prime = 1099511628211"

definition fnv_step :: "u64 \<Rightarrow> byte \<Rightarrow> u64" where
  "fnv_step h b = (h XOR ucast b) * fnv_prime"

definition fnv1a :: "bytes \<Rightarrow> u64" where
  "fnv1a bs = foldl fnv_step fnv_offset bs"

definition makeFHandle :: "string \<Rightarrow> u64 \<Rightarrow> u64 \<Rightarrow> u64" where
  "makeFHandle fileName fid fsid = fnv1a (string_bytes fileName @ le64 fid @ le64 fsid)"

definition getValuefromHandle :: "u64 \<Rightarrow> ('w, string option) run" where
  "getValuefromHandle fHandle = getBE (\<lambda>be. fhandleMap be fHandle)"

definition setValueforHandle :: "u64 \<Rightarrow> string \<Rightarrow> ('w, unit) run" where
  "setValueforHandle fHandle name = modBE (\<lambda>be. be\<lparr>fhandleMap := (fhandleMap be)(fHandle \<mapsto> name)\<rparr>)"

definition deleteHandle :: "u64 \<Rightarrow> ('w, unit) run" where
  "deleteHandle fHandle = modBE (\<lambda>be. be\<lparr>fhandleMap := (fhandleMap be)(fHandle := None)\<rparr>)"

lemmas run_defs = exec_bindR exec_steps Let_def getValuefromHandle_def setValueforHandle_def deleteHandle_def

section \<open>Attributes\<close>

text \<open>
  \<^verbatim>\<open>getFileAttrFromPath\<close>, its first half: the type, where a mode bit tells it (otherwise the caller's
  field stays), the size, the permissions, then the fields of \<^verbatim>\<open>syscall.Stat_t\<close>; \<open>EIO\<close> where \<open>Sys\<close> gives no
  such structure.  The structure passed in is left as it was when \<open>Lstat\<close> fails.
\<close>

definition mode_type :: "u32 \<Rightarrow> Ftype3 \<Rightarrow> Ftype3" where
  "mode_type mode old =
     (if mode AND ModeType = 0 then NF3REG
      else if mode AND ModeDir \<noteq> 0 then NF3DIR
      else if mode AND ModeDevice \<noteq> 0 then NF3BLK
      else if mode AND ModeCharDevice \<noteq> 0 then NF3CHR
      else if mode AND ModeSymlink \<noteq> 0 then NF3LNK
      else if mode AND ModeSocket \<noteq> 0 then NF3SOCK
      else if mode AND ModeNamedPipe \<noteq> 0 then NF3FIFO
      else old)"

definition fill_fattr :: "FileInfo \<Rightarrow> Fattr3 \<Rightarrow> Fattr3 \<times> Errno option" where
  "fill_fattr fi fattr =
     (let fattr = fattr\<lparr>FType := mode_type (FiMode fi) (FType fattr), FSize := FiSize fi,
                         FMode := FiMode fi AND ModePerm\<rparr> in
      case FiSys fi of
        None \<Rightarrow> (fattr, Some EIO)
      | Some stat \<Rightarrow>
          (fattr\<lparr>Nlink := ucast (StNlink stat), FUid := StUid stat, FGid := StGid stat,
                 Used := StBlocks stat * 512,
                 Rdev := \<lparr>Specdata1 = ucast (drop_bit 8 (StRdev stat) AND 0xFF), Specdata2 = ucast (StRdev stat AND 0xFF)\<rparr>,
                 Fsid := StDev stat, Fileid := StIno stat,
                 FAtime := \<lparr>Seconds = ucast (AtimSec stat), Nseconds = ucast (AtimNsec stat)\<rparr>,
                 FMtime := \<lparr>Seconds = ucast (MtimSec stat), Nseconds = ucast (MtimNsec stat)\<rparr>,
                 FCtime := \<lparr>Seconds = ucast (CtimSec stat), Nseconds = ucast (CtimNsec stat)\<rparr>\<rparr>, None))"

definition getFileAttrFromPath :: "'w os \<Rightarrow> string \<Rightarrow> Fattr3 \<Rightarrow> ('w, Fattr3 \<times> Errno option) run" where
  "getFileAttrFromPath os fileName fattr =
     bindR (sys (Lstat os fileName)) (\<lambda>r. case r of
       Inl err \<Rightarrow> bindR (liftG (PathError_Errno err)) (\<lambda>e. ret (fattr, Some e))
     | Inr fileinfo \<Rightarrow> ret (fill_fattr fileinfo fattr))"

text \<open>
  The attributes of \<open>path\<close> after an operation, into the post-operation attributes \<open>a\<close> of a reply; when the
  file is gone its handle \<open>h\<close> is deleted.  Some handlers clear the flag then (\<open>clear\<close>), some leave it.
\<close>

definition poststat :: "'w os \<Rightarrow> bool \<Rightarrow> string \<Rightarrow> u64 \<Rightarrow> Post_op_attr \<Rightarrow> ('w, Post_op_attr) run" where
  "poststat os clear path h a =
     bindR (getFileAttrFromPath os path (Attributes a)) (\<lambda>(fattr, err). case err of
       None \<Rightarrow> ret \<lparr>Attributes_follow = True, Attributes = fattr\<rparr>
     | Some _ \<Rightarrow> bindR (deleteHandle h) (\<lambda>_.
         ret \<lparr>Attributes_follow = (if clear then False else Attributes_follow a), Attributes = fattr\<rparr>))"

definition follow :: "Fattr3 \<Rightarrow> Post_op_attr" where
  "follow fattr = \<lparr>Attributes_follow = True, Attributes = fattr\<rparr>"

definition preOpAttr :: "Fattr3 \<Rightarrow> Pre_op_attr" where
  "preOpAttr fattr = \<lparr>PreAttributes_follow = True,
     PreAttributes = \<lparr>WSize = FSize fattr, WMtime = FMtime fattr, WCtime = FCtime fattr\<rparr>\<rparr>"

text \<open>
  The end of \<^verbatim>\<open>Lookup\<close>, \<^verbatim>\<open>Create\<close>, \<^verbatim>\<open>Mkdir\<close> and \<^verbatim>\<open>SymLink\<close>: the handle of \<open>name\<close> is entered in the table.  A handle
  already there for another name is taken over when that name no longer exists; if it does, the two
  names have the same hash and the server stops.
\<close>

definition registerHandle :: "'w os \<Rightarrow> string \<Rightarrow> Fattr3 \<Rightarrow> ('w, u64) run" where
  "registerHandle os name fattr =
     (let newFHandle = makeFHandle name (Fileid fattr) (Fsid fattr) in
      bindR (getValuefromHandle newFHandle) (\<lambda>found. case found of
        None \<Rightarrow> bindR (setValueforHandle newFHandle name) (\<lambda>_. ret newFHandle)
      | Some foundname \<Rightarrow>
          if foundname \<noteq> name then
            bindR (sys (Lstat os foundname)) (\<lambda>r. case r of
              Inl _ \<Rightarrow> bindR (setValueforHandle newFHandle name) (\<lambda>_. ret newFHandle)
            | Inr _ \<Rightarrow> crash Fatal)
          else ret newFHandle))"

section \<open>Configuration and MOUNT\<close>

definition ContainsSlash :: "string \<Rightarrow> bool" where
  "ContainsSlash s = (CHR ''/'' \<in> set s)"

definition zero_config :: configOptions where
  "zero_config = \<lparr>exportPath = '''', exportPathFid = 0, exportPathFsid = 0, allowAddr = '''', writeaccess = False\<rparr>"

text \<open>\<^verbatim>\<open>GetBEInstance\<close>, the first time: the time is \<^verbatim>\<open>time.Now().Unix()\<close>.\<close>

definition newBackend :: "u64 \<Rightarrow> Backend" where
  "newBackend now = \<lparr>fhandleMap = Map.empty, ServerStartTime = now, config = zero_config\<rparr>"

definition BackendConfigSetup :: "'w os \<Rightarrow> string \<Rightarrow> string \<Rightarrow> bool \<Rightarrow> ('w, string option) run" where
  "BackendConfigSetup os path addr writeAccess =
     bindR (getFileAttrFromPath os path zero_fattr) (\<lambda>(fattr, err). case err of
       None \<Rightarrow>
         if FType fattr = NF3DIR then
           bindR (modBE (\<lambda>be. be\<lparr>config := \<lparr>exportPath = path, exportPathFid = Fileid fattr,
              exportPathFsid = Fsid fattr, allowAddr = addr, writeaccess = writeAccess\<rparr>\<rparr>)) (\<lambda>_. ret None)
         else ret (Some ''exportPath not a directory'')
     | Some _ \<Rightarrow> ret (Some ''stat failed on exportPath''))"

definition ExportedMountPoint :: "Exports \<Rightarrow> ('w, Exports) run" where
  "ExportedMountPoint reply =
     getBE (\<lambda>be. [\<lparr>Ex_dir = exportPath (config be), Ex_groups = [allowAddr (config be)]\<rparr>])"

definition mount_handle :: "configOptions \<Rightarrow> string \<Rightarrow> u64" where
  "mount_handle c mntPoint = makeFHandle mntPoint (exportPathFid c) (exportPathFsid c)"

definition Mount :: "string \<Rightarrow> Mountres3 \<Rightarrow> ('w, Mountstat3 \<times> Mountres3) run" where
  "Mount mntPoint reply =
     bindR (getBE config) (\<lambda>c.
       if mntPoint = exportPath c then
         let mountDirFHandle = mount_handle c mntPoint in
         bindR (getValuefromHandle mountDirFHandle) (\<lambda>found.
         bindR (case found of None \<Rightarrow> setValueforHandle mountDirFHandle mntPoint | Some _ \<Rightarrow> ret ()) (\<lambda>_.
         ret (MNT3_OK, reply\<lparr>Mountinfo := \<lparr>Fhandle = le64 mountDirFHandle, Auth_flavors = [AUTH_UNIX]\<rparr>\<rparr>)))
       else ret (MNT3ERR_ACCES, reply))"

definition UnMount :: "string \<Rightarrow> ('w, unit) run" where
  "UnMount mntPoint =
     bindR (getBE config) (\<lambda>c.
       if mntPoint = exportPath c then
         let mountDirFHandle = mount_handle c mntPoint in
         bindR (getValuefromHandle mountDirFHandle) (\<lambda>found. case found of
           Some _ \<Rightarrow> deleteHandle mountDirFHandle
         | None \<Rightarrow> ret ())
       else ret ())"

end
