(* ===== verification/Nfs_Query.thy ===== *)
theory Nfs_Query
  imports Nfs_Backend
begin

text \<open>
  The operations of \<^verbatim>\<open>nfs3/allunix.go\<close> that only look at the file system: GETATTR, FSINFO, FSSTAT,
  PATHCONF, LOOKUP, READDIR, READDIRPLUS, ACCESS, READ, COMMIT and READLINK.  Each is the whole handler:
  it takes the reply structure the RPC server allocated and returns the status and the structure as it
  leaves it.  COMMIT is among them, since it writes nothing.
\<close>

section \<open>Attributes and file system information\<close>

definition GetFileAttr :: "'w os \<Rightarrow> u64 \<Rightarrow> Fattr3 \<Rightarrow> ('w, Nfsstat3 \<times> Fattr3) run" where
  "GetFileAttr os fHandle fattr =
     bindR (getValuefromHandle fHandle) (\<lambda>found. case found of
       None \<Rightarrow> ret (NFS3ERR_STALE, fattr)
     | Some fileName \<Rightarrow>
         bindR (getFileAttrFromPath os fileName fattr) (\<lambda>(fattr, err). case err of
           None \<Rightarrow> ret (NFS3_OK, fattr)
         | Some _ \<Rightarrow> bindR (deleteHandle fHandle) (\<lambda>_. ret (NFS3ERR_STALE, fattr))))"

text \<open>
  FSINFO, FSSTAT, PATHCONF, LOOKUP, READDIR and ACCESS begin in the same way: the handle is looked up
  and its file read into attributes of the reply (\<open>get\<close> and \<open>put\<close> say which); with no such handle, or
  when the file is gone (then the handle is deleted), the status is STALE.
\<close>

definition on_object ::
  "'w os \<Rightarrow> u64 \<Rightarrow> ('r \<Rightarrow> Post_op_attr) \<Rightarrow> (Post_op_attr \<Rightarrow> 'r \<Rightarrow> 'r) \<Rightarrow> 'r \<Rightarrow>
   (string \<Rightarrow> 'r \<Rightarrow> ('w, Nfsstat3 \<times> 'r) run) \<Rightarrow> ('w, Nfsstat3 \<times> 'r) run" where
  "on_object os fHandle get put reply body =
     bindR (getValuefromHandle fHandle) (\<lambda>found. case found of
       None \<Rightarrow> ret (NFS3ERR_STALE, reply)
     | Some name \<Rightarrow>
         bindR (getFileAttrFromPath os name (Attributes (get reply))) (\<lambda>(fattr, err). case err of
           None \<Rightarrow> body name (put (follow fattr) reply)
         | Some _ \<Rightarrow> bindR (deleteHandle fHandle) (\<lambda>_.
             ret (NFS3ERR_STALE, put (get reply\<lparr>Attributes := fattr\<rparr>) reply))))"

definition GetFileSysInfo :: "'w os \<Rightarrow> u64 \<Rightarrow> FSINFO3res \<Rightarrow> ('w, Nfsstat3 \<times> FSINFO3res) run" where
  "GetFileSysInfo os fHandle reply =
     on_object os fHandle (\<lambda>r. FiObj_attributes (Resok r)) (\<lambda>a. Resok_update (FiObj_attributes_update (\<lambda>_. a))) reply
       (\<lambda>dirName reply. ret (NFS3_OK, reply\<lparr>Resok := (Resok reply)\<lparr>
          Rtmax := tcpMaxData, Dtpref := 4096, Maxfilesize := NOT 0,
          Properties := FSF3_LINK OR FSF3_HOMOGENEOUS OR FSF3_CANSETTIME OR FSF3_SYMLINK,
          Rtmult := 4096, Rtpref := tcpMaxData, Time_delta := (Time_delta (Resok reply))\<lparr>Seconds := 1\<rparr>,
          Wtmax := tcpMaxData, Wtmult := 4096, Wtpref := tcpMaxData\<rparr>\<rparr>))"

definition GetFileSystemAttr :: "'w os \<Rightarrow> u64 \<Rightarrow> FSSTAT3res \<Rightarrow> ('w, Nfsstat3 \<times> FSSTAT3res) run" where
  "GetFileSystemAttr os fHandle reply =
     on_object os fHandle (\<lambda>r. FsObj_attributes (Resok r)) (\<lambda>a. Resok_update (FsObj_attributes_update (\<lambda>_. a))) reply
       (\<lambda>dirName reply. bindR (sys (Statfs os dirName)) (\<lambda>r. case r of
          Inr stat \<Rightarrow> ret (NFS3_OK, reply\<lparr>Resok := (Resok reply)\<lparr>
            Tbytes := SfBlocks stat * SfFrsize stat, Abytes := SfBavail stat * SfFrsize stat,
            Fbytes := SfBfree stat * SfFrsize stat, Afiles := SfFfree stat, Ffiles := SfFfree stat,
            Tfiles := SfFiles stat, Invarsec := 0\<rparr>\<rparr>)
        | Inl _ \<Rightarrow> bindR (poststat os False dirName fHandle (Resfail reply)) (\<lambda>a.
            ret (NFS3ERR_STALE, reply\<lparr>Resfail := a\<rparr>))))"

definition GetPathConf :: "'w os \<Rightarrow> u64 \<Rightarrow> PATHCONF3res \<Rightarrow> ('w, Nfsstat3 \<times> PATHCONF3res) run" where
  "GetPathConf os fHandle reply =
     on_object os fHandle (\<lambda>r. PcObj_attributes (Resok r)) (\<lambda>a. Resok_update (PcObj_attributes_update (\<lambda>_. a))) reply
       (\<lambda>dirName reply. ret (NFS3_OK, reply\<lparr>Resok := (Resok reply)\<lparr>
          Case_insensitive := False, Case_preserving := True, Chown_restricted := False,
          Linkmax := NOT 0, Name_max := NFSMAXPATHLEN, No_trunc := True\<rparr>\<rparr>))"

section \<open>LOOKUP\<close>

definition getLookupErr :: "Errno \<Rightarrow> Nfsstat3" where
  "getLookupErr e =
     (if e = ENOENT then NFS3ERR_NOENT
      else if e = EACCES then NFS3ERR_ACCES
      else if e = EINVAL then NFS3ERR_INVAL
      else if e = ENAMETOOLONG then NFS3ERR_NAMETOOLONG
      else if e = ENOTDIR \<or> e = ELOOP then NFS3ERR_STALE
      else NFS3ERR_IO)"

text \<open>The name under which a directory entry is looked up: \<open>..\<close> of the export path is \<open>.\<close>.\<close>

definition lookup_name :: "configOptions \<Rightarrow> string \<Rightarrow> string \<Rightarrow> string" where
  "lookup_name c dirName name =
     dirName @ ''/'' @ (if dirName = exportPath c \<and> name = ''..'' then ''.'' else name)"

definition Lookup :: "'w os \<Rightarrow> u64 \<Rightarrow> string \<Rightarrow> LOOKUP3res \<Rightarrow> ('w, Nfsstat3 \<times> LOOKUP3res) run" where
  "Lookup os fHandle name reply =
     on_object os fHandle (\<lambda>r. LkDir_attributes (Resok r)) (\<lambda>a. Resok_update (LkDir_attributes_update (\<lambda>_. a))) reply
       (\<lambda>dirName reply.
          if name \<noteq> '''' \<and> \<not> ContainsSlash name then
            bindR (getBE config) (\<lambda>c.
            let lookupname = lookup_name c dirName name in
            bindR (getFileAttrFromPath os lookupname (Attributes (LkObj_attributes (Resok reply)))) (\<lambda>(fattr, err).
            case err of
              None \<Rightarrow>
                bindR (registerHandle os lookupname fattr) (\<lambda>newFHandle.
                ret (NFS3_OK, reply\<lparr>Resok := (Resok reply)\<lparr>LkObj_attributes := follow fattr,
                                                            LkObject := le64 newFHandle\<rparr>\<rparr>))
            | Some e \<Rightarrow>
                bindR (poststat os False dirName fHandle (Resfail reply)) (\<lambda>a.
                ret (getLookupErr e, reply\<lparr>
                  Resok := (Resok reply)\<lparr>LkObj_attributes := (LkObj_attributes (Resok reply))\<lparr>Attributes := fattr\<rparr>\<rparr>,
                  Resfail := a\<rparr>))))
          else
            bindR (poststat os False dirName fHandle (Resfail reply)) (\<lambda>a.
            ret (NFS3ERR_ACCES, reply\<lparr>Resfail := a\<rparr>)))"

section \<open>READDIR\<close>

definition getReadDirErr :: "Errno \<Rightarrow> Nfsstat3" where
  "getReadDirErr e =
     (if e = EPERM then NFS3ERR_PERM
      else if e = EACCES then NFS3ERR_ACCES
      else if e = ENOTDIR then NFS3ERR_NOTDIR
      else if e = ENAMETOOLONG \<or> e = ELOOP \<or> e = ENOENT then NFS3ERR_STALE
      else if e = EINVAL then NFS3ERR_INVAL
      else NFS3ERR_IO)"

text \<open>
  \<^verbatim>\<open>getDotAndDotDot\<close>: the entries of the directory and its parent, a nil \<^verbatim>\<open>os.FileInfo\<close> being \<open>None\<close>.
  The error returned is that of the second \<^verbatim>\<open>Lstat\<close>, of \<open>.\<close>: an error of the first one is lost.
\<close>

definition or_nil :: "oserror + FileInfo \<Rightarrow> FileInfo option" where
  "or_nil r = (case r of Inl _ \<Rightarrow> None | Inr fi \<Rightarrow> Some fi)"

definition getDotAndDotDot ::
  "'w os \<Rightarrow> string \<Rightarrow> ('w, FileInfo option \<times> FileInfo option \<times> bool) run" where
  "getDotAndDotDot os dirName =
     (if dirName \<noteq> '''' then
        bindR (sys (Lstat os (dirName @ ''/'' @ ''..''))) (\<lambda>dotdot.
        bindR (sys (Lstat os (dirName @ ''/'' @ ''.''))) (\<lambda>dot.
        ret (or_nil dot, or_nil dotdot, (case dot of Inl _ \<Rightarrow> True | Inr _ \<Rightarrow> False))))
      else ret (None, None, True))"

text \<open>Methods of a \<^verbatim>\<open>FileInfo\<close> that may be nil, and the inode number behind \<^verbatim>\<open>Sys\<close>.\<close>

definition fi_name :: "FileInfo option \<Rightarrow> string go" where
  "fi_name f = (case f of None \<Rightarrow> Inl Panic | Some fi \<Rightarrow> Inr (FiName fi))"

definition fi_ino :: "FileInfo option \<Rightarrow> u64 go" where
  "fi_ino f = (case f of None \<Rightarrow> Inl Panic
     | Some fi \<Rightarrow> (case FiSys fi of None \<Rightarrow> Inl Panic | Some stat \<Rightarrow> Inr (StIno stat)))"

text \<open>\<^verbatim>\<open>uint32(ENTRY3SIZE + ((len(name)+3)/4)*4)\<close>\<close>

definition entryOverhead :: "string \<Rightarrow> u32" where
  "entryOverhead name = of_nat (ENTRY3SIZE + ((length name + 3) div 4) * 4)"

text \<open>
  The loop over the entries from number \<open>i\<close>: the size so far is a \<^verbatim>\<open>uint32\<close>; it stops before the entry that
  would pass \<open>count\<close> (then it is not the end of the directory).  \<open>isRoot\<close> says that the directory is the
  export path, whose \<open>..\<close> gets the inode number of \<open>dot\<close>.
\<close>

fun readdir_loop ::
  "bool \<Rightarrow> FileInfo option \<Rightarrow> u64 \<Rightarrow> u32 \<Rightarrow> FileInfo option list \<Rightarrow> u64 \<Rightarrow> u32 \<Rightarrow> (Entry3 list \<times> bool) go" where
  "readdir_loop isRoot dot n count [] i entrySize = Inr ([], True)"
| "readdir_loop isRoot dot n count (f # fs) i entrySize =
     bindG (fi_name f) (\<lambda>name.
     let entrySize = entrySize + entryOverhead name in
     if entrySize > count then Inr ([], False)
     else
       bindG (fi_ino f) (\<lambda>ino.
       bindG (if isRoot \<and> name = ''..'' then fi_ino dot else Inr ino) (\<lambda>fileid.
       let entry = \<lparr>EFileid = fileid, EName = name, ECookie = push_bit 32 n OR (i + 1)\<rparr> in
       bindG (readdir_loop isRoot dot n count fs (i + 1) entrySize) (\<lambda>(es, isEof).
       Inr (entry # es, isEof)))))"

definition cookie_sent :: "u64 \<Rightarrow> u64" where
  "cookie_sent cookie = cookie AND 0xFFFFFFFF"

text \<open>What \<^verbatim>\<open>ReadDir\<close> does with the entries it read: the page that starts at the cookie.  Where the cookie gives
  a number past the last entry the page is empty and says it is the end.\<close>

definition readdir_page ::
  "bool \<Rightarrow> FileInfo option \<Rightarrow> FileInfo option list \<Rightarrow> u64 \<Rightarrow> u32 \<Rightarrow> (Entry3 list \<times> bool) go" where
  "readdir_page isRoot dot dirEntries cookie count =
     readdir_loop isRoot dot (of_nat (length dirEntries)) count
       (drop (unat (cookie_sent cookie)) dirEntries) (cookie_sent cookie) (of_nat READDIRRESOKSIZE)"

definition readdir_open ::
  "'w os \<Rightarrow> fd \<Rightarrow> string \<Rightarrow> u64 \<Rightarrow> u64 \<Rightarrow> u32 \<Rightarrow> READDIR3res \<Rightarrow> ('w, Nfsstat3 \<times> READDIR3res) run" where
  "readdir_open os f dirName fHandle cookie count reply =
     bindR (sys (Readdir os f)) (\<lambda>entries. case entries of
       Inr fis \<Rightarrow>
         bindR (getDotAndDotDot os dirName) (\<lambda>(dot, dotdot, failed).
         bindR (getBE config) (\<lambda>c.
         let dirEntries = map Some fis @ (if failed then [] else [dot, dotdot]) in
         bindR (liftG (readdir_page (dirName = exportPath c) dot dirEntries cookie count)) (\<lambda>(es, isEof).
         ret (NFS3_OK, reply\<lparr>Resok := (Resok reply)\<lparr>RdReply :=
           \<lparr>Entries = (if es = [] then Entries (RdReply (Resok reply)) else es), DEof = isEof\<rparr>\<rparr>\<rparr>))))
     | Inl err \<Rightarrow>
         bindR (liftG (SyscallError_Errno err)) (\<lambda>e.
         bindR (poststat os False dirName fHandle (Resfail reply)) (\<lambda>a.
         ret (getReadDirErr e, reply\<lparr>Resfail := a\<rparr>))))"

definition ReadDir :: "'w os \<Rightarrow> u64 \<Rightarrow> u64 \<Rightarrow> u32 \<Rightarrow> READDIR3res \<Rightarrow> ('w, Nfsstat3 \<times> READDIR3res) run" where
  "ReadDir os fHandle cookie count reply =
     on_object os fHandle (\<lambda>r. RdDir_attributes (Resok r)) (\<lambda>a. Resok_update (RdDir_attributes_update (\<lambda>_. a))) reply
       (\<lambda>dirName reply.
          bindR (sys (OpenFile os dirName O_RDONLY 0)) (\<lambda>dirFile. case dirFile of
            Inr f \<Rightarrow> with_file os f (readdir_open os f dirName fHandle cookie count reply)
          | Inl err \<Rightarrow>
              bindR (liftG (PathError_Errno err)) (\<lambda>e.
              bindR (poststat os False dirName fHandle (Resfail reply)) (\<lambda>a.
              ret (getReadDirErr e, reply\<lparr>Resfail := a\<rparr>)))))"

definition ReadDirPlus :: "'w os \<Rightarrow> u64 \<Rightarrow> READDIRPLUS3res \<Rightarrow> ('w, Nfsstat3 \<times> READDIRPLUS3res) run" where
  "ReadDirPlus os fHandle reply =
     on_object os fHandle Resfail (\<lambda>a. Resfail_update (\<lambda>_. a)) reply
       (\<lambda>dirName reply. ret (NFS3ERR_NOTSUPP, reply))"

section \<open>ACCESS\<close>

text \<open>The access bits, from the class of permission bits (read, write, execute) that applies.\<close>

definition access_class :: "u32 \<Rightarrow> u32 \<Rightarrow> u32 \<Rightarrow> u32 \<Rightarrow> u32" where
  "access_class mode r w x =
     (if mode AND r \<noteq> 0 then ACCESS3_READ else 0) OR
     (if mode AND w \<noteq> 0 then ACCESS3_MODIFY OR ACCESS3_EXTEND else 0) OR
     (if mode AND x \<noteq> 0 then ACCESS3_EXECUTE else 0)"

definition access_bits_of :: "int \<Rightarrow> int \<Rightarrow> Fattr3 \<Rightarrow> u32" where
  "access_bits_of euid egid fattr =
     (let mode = FMode fattr;
          access = (if euid = uint (FUid fattr) then access_class mode 0x100 0x80 0x40
                    else if egid = uint (FGid fattr) then access_class mode 0x20 0x10 0x8
                    else access_class mode 0x4 0x2 0x1) in
      if FType fattr = NF3DIR then
        (let access = (if access AND (ACCESS3_READ OR ACCESS3_EXECUTE) \<noteq> 0 then access OR ACCESS3_LOOKUP else access);
             access = (if access AND ACCESS3_MODIFY \<noteq> 0 then access OR ACCESS3_DELETE else access) in
         access AND NOT ACCESS3_EXECUTE)
      else access)"

text \<open>The access mask the client asks about is not used: the source declares a variable of that name.\<close>

definition Access :: "'w os \<Rightarrow> u64 \<Rightarrow> u32 \<Rightarrow> ACCESS3res \<Rightarrow> ('w, Nfsstat3 \<times> ACCESS3res) run" where
  "Access os fHandle access reply =
     on_object os fHandle (\<lambda>r. AcObj_attributes (Resok r)) (\<lambda>a. Resok_update (AcObj_attributes_update (\<lambda>_. a))) reply
       (\<lambda>fileName reply. ret (NFS3_OK, reply\<lparr>Resok := (Resok reply)\<lparr>
          Access3 := access_bits_of (Geteuid os) (Getegid os) (Attributes (AcObj_attributes (Resok reply)))\<rparr>\<rparr>))"

section \<open>READ\<close>

definition getReadErr :: "Errno \<Rightarrow> Nfsstat3" where
  "getReadErr e =
     (if e = EACCES then NFS3ERR_ACCES
      else if e = ENAMETOOLONG \<or> e = ELOOP \<or> e = ENOTDIR \<or> e = ENOENT then NFS3ERR_STALE
      else if e = ENXIO \<or> e = ENODEV then NFS3ERR_NXIO
      else if e = EINVAL then NFS3ERR_INVAL
      else NFS3ERR_IO)"

text \<open>\<^verbatim>\<open>make([]byte, count)\<close> of which \<^verbatim>\<open>ReadAt\<close> filled the first bytes.\<close>

definition fill_buffer :: "nat \<Rightarrow> bytes \<Rightarrow> bytes" where
  "fill_buffer n bs = take n bs @ replicate (n - length bs) 0"

definition read_open ::
  "'w os \<Rightarrow> fd \<Rightarrow> string \<Rightarrow> u64 \<Rightarrow> u64 \<Rightarrow> u32 \<Rightarrow> READ3res \<Rightarrow> ('w, Nfsstat3 \<times> READ3res) run" where
  "read_open os f fileName fHandle offset count reply =
     (let count = (if count > tcpMaxData then tcpMaxData else count) in
      bindR (sys (ReadAt os f (unat count) (sint offset))) (\<lambda>(bs, err).
      let data = fill_buffer (unat count) bs; bytesRead = length bs in
      if err = None \<or> err = Some OsEOF \<or> bytesRead \<noteq> 0 then
        bindR (poststat os False fileName fHandle (RdFile_attributes (Resok reply))) (\<lambda>a.
        ret (NFS3_OK, reply\<lparr>Resok := (Resok reply)\<lparr>
          RdFile_attributes := a, RdrCount := of_nat bytesRead, RdEof := (err = Some OsEOF),
          RdData := (if err = Some OsEOF \<and> bytesRead = 0 then [] else data)\<rparr>\<rparr>))
      else
        bindR (liftG (PathError_Errno (the err))) (\<lambda>e.
        bindR (poststat os False fileName fHandle (Resfail reply)) (\<lambda>a.
        ret (getReadErr e, reply\<lparr>Resok := (Resok reply)\<lparr>RdData := data\<rparr>, Resfail := a\<rparr>)))))"

definition Read :: "'w os \<Rightarrow> u64 \<Rightarrow> u64 \<Rightarrow> u32 \<Rightarrow> READ3res \<Rightarrow> ('w, Nfsstat3 \<times> READ3res) run" where
  "Read os fHandle offset count reply =
     bindR (getValuefromHandle fHandle) (\<lambda>found. case found of
       None \<Rightarrow> ret (NFS3ERR_STALE, reply)
     | Some fileName \<Rightarrow>
         bindR (getFileAttrFromPath os fileName zero_fattr) (\<lambda>(fattr, err). case err of
           Some _ \<Rightarrow> bindR (deleteHandle fHandle) (\<lambda>_. ret (NFS3ERR_STALE, reply))
         | None \<Rightarrow>
             if FType fattr = NF3REG then
               bindR (sys (OpenFile os fileName O_RDONLY 0)) (\<lambda>fType. case fType of
                 Inr f \<Rightarrow> with_file os f (read_open os f fileName fHandle offset count reply)
               | Inl err \<Rightarrow>
                   bindR (liftG (PathError_Errno err)) (\<lambda>e.
                   bindR (poststat os False fileName fHandle (Resfail reply)) (\<lambda>a.
                   ret (getReadErr e, reply\<lparr>Resfail := a\<rparr>))))
             else
               bindR (poststat os False fileName fHandle (Resfail reply)) (\<lambda>a.
               ret (NFS3ERR_INVAL, reply\<lparr>Resfail := a\<rparr>))))"

section \<open>COMMIT\<close>

definition Commit :: "'w os \<Rightarrow> u64 \<Rightarrow> COMMIT3res \<Rightarrow> ('w, Nfsstat3 \<times> COMMIT3res) run" where
  "Commit os fHandle reply =
     bindR (getValuefromHandle fHandle) (\<lambda>found. case found of
       None \<Rightarrow> ret (NFS3ERR_STALE, reply)
     | Some fileName \<Rightarrow>
         bindR (getFileAttrFromPath os fileName zero_fattr) (\<lambda>(fattr, err). case err of
           Some _ \<Rightarrow> bindR (deleteHandle fHandle) (\<lambda>_. ret (NFS3ERR_STALE, reply))
         | None \<Rightarrow>
             let reply = reply\<lparr>Resok := (Resok reply)\<lparr>CmFile_wcc := (CmFile_wcc (Resok reply))\<lparr>WBefore := preOpAttr fattr\<rparr>\<rparr>,
                               Resfail := (Resfail reply)\<lparr>WBefore := preOpAttr fattr\<rparr>\<rparr> in
             bindR (getBE (\<lambda>be. be)) (\<lambda>be.
             if \<not> writeaccess (config be) then
               ret (NFS3ERR_ROFS, reply\<lparr>Resfail := (Resfail reply)\<lparr>WAfter := follow fattr\<rparr>\<rparr>)
             else if FType fattr = NF3REG then
               ret (NFS3_OK, reply\<lparr>Resok := (Resok reply)\<lparr>
                 CmFile_wcc := (CmFile_wcc (Resok reply))\<lparr>WAfter := follow fattr\<rparr>, CmVerf := le64 (ServerStartTime be)\<rparr>\<rparr>)
             else
               ret (NFS3ERR_INVAL, reply\<lparr>Resfail := (Resfail reply)\<lparr>WAfter := follow fattr\<rparr>\<rparr>))))"

section \<open>READLINK\<close>

definition getReadLinkErr :: "Errno \<Rightarrow> Nfsstat3" where
  "getReadLinkErr e =
     (if e = EINVAL then NFS3ERR_INVAL
      else if e = EACCES then NFS3ERR_ACCES
      else if e = ENOSYS then NFS3ERR_NOTSUPP
      else if e = ENAMETOOLONG \<or> e = ELOOP \<or> e = ENOTDIR \<or> e = ENOENT then NFS3ERR_STALE
      else NFS3ERR_IO)"

definition ReadLink :: "'w os \<Rightarrow> u64 \<Rightarrow> READLINK3res \<Rightarrow> ('w, Nfsstat3 \<times> READLINK3res) run" where
  "ReadLink os linkFHandle reply =
     bindR (getValuefromHandle linkFHandle) (\<lambda>found. case found of
       None \<Rightarrow> ret (NFS3ERR_STALE, reply)
     | Some linkFile \<Rightarrow>
         bindR (getFileAttrFromPath os linkFile zero_fattr) (\<lambda>(fattr, err). case err of
           Some _ \<Rightarrow> bindR (deleteHandle linkFHandle) (\<lambda>_. ret (NFS3ERR_STALE, reply))
         | None \<Rightarrow>
             bindR (sys (Readlink_sys os linkFile)) (\<lambda>r. case r of
               Inr symLinkData \<Rightarrow>
                 bindR (poststat os True linkFile linkFHandle (RlSymlink_attributes (Resok reply))) (\<lambda>a.
                 ret (NFS3_OK, reply\<lparr>Resok := \<lparr>RlSymlink_attributes = a, RlData = symLinkData\<rparr>\<rparr>))
             | Inl err \<Rightarrow>
                 bindR (liftG (PathError_Errno err)) (\<lambda>e.
                 bindR (poststat os True linkFile linkFHandle (Resfail reply)) (\<lambda>a.
                 ret (getReadLinkErr e, reply\<lparr>Resfail := a\<rparr>))))))"

end
