(* ===== verification/Nfs_Update.thy ===== *)
theory Nfs_Update
  imports Nfs_Backend
begin

text \<open>
  The operations of \<^verbatim>\<open>nfs3/allunix.go\<close> on one handle that change the file system: MKDIR, CREATE, SETATTR,
  WRITE, REMOVE, RMDIR and SYMLINK, each with its translation of error numbers to statuses.
\<close>

section \<open>What the handlers share\<close>

text \<open>\<^verbatim>\<open>name != "" && !ContainsAny(name, "/") && name != "." && name != ".."\<close>\<close>

definition plain_name :: "string \<Rightarrow> bool" where
  "plain_name name = (name \<noteq> '''' \<and> \<not> ContainsSlash name \<and> name \<noteq> ''.'' \<and> name \<noteq> ''..'')"

text \<open>
  All but RENAME and LINK begin in the same way: the handle is looked up (STALE if it is not there), its
  file read into a local structure (STALE, and the handle deleted, when the file is gone), the
  attributes before the operation entered in both parts of the reply, and a read-only export
  answered with ROFS.  \<open>okw\<close> updates the \<^verbatim>\<open>Wcc_data\<close> of \<open>Resok\<close>.
\<close>

definition set_before :: "((Wcc_data \<Rightarrow> Wcc_data) \<Rightarrow> 'ok \<Rightarrow> 'ok) \<Rightarrow> Fattr3 \<Rightarrow> ('ok, Wcc_data) res3 \<Rightarrow> ('ok, Wcc_data) res3" where
  "set_before okw fattr reply =
     reply\<lparr>Resok := okw (WBefore_update (\<lambda>_. preOpAttr fattr)) (Resok reply),
           Resfail := (Resfail reply)\<lparr>WBefore := preOpAttr fattr\<rparr>\<rparr>"

definition on_writable ::
  "'w os \<Rightarrow> u64 \<Rightarrow> ((Wcc_data \<Rightarrow> Wcc_data) \<Rightarrow> 'ok \<Rightarrow> 'ok) \<Rightarrow> ('ok, Wcc_data) res3 \<Rightarrow>
   (string \<Rightarrow> Fattr3 \<Rightarrow> ('ok, Wcc_data) res3 \<Rightarrow> ('w, Nfsstat3 \<times> ('ok, Wcc_data) res3) run) \<Rightarrow>
   ('w, Nfsstat3 \<times> ('ok, Wcc_data) res3) run" where
  "on_writable os fHandle okw reply body =
     bindR (getValuefromHandle fHandle) (\<lambda>found. case found of
       None \<Rightarrow> ret (NFS3ERR_STALE, reply)
     | Some name \<Rightarrow>
         bindR (getFileAttrFromPath os name zero_fattr) (\<lambda>(fattr, err). case err of
           Some _ \<Rightarrow> bindR (deleteHandle fHandle) (\<lambda>_. ret (NFS3ERR_STALE, reply))
         | None \<Rightarrow>
             let reply = set_before okw fattr reply in
             bindR (getBE (\<lambda>be. writeaccess (config be))) (\<lambda>writeaccess.
             if \<not> writeaccess then
               ret (NFS3ERR_ROFS, reply\<lparr>Resfail := (Resfail reply)\<lparr>WAfter := follow fattr\<rparr>\<rparr>)
             else body name fattr reply)))"

text \<open>A failure with the attributes afterwards in \<open>Resfail\<close>, and the same for \<open>Resok\<close>.\<close>

definition fail_after ::
  "'w os \<Rightarrow> bool \<Rightarrow> string \<Rightarrow> u64 \<Rightarrow> Nfsstat3 \<Rightarrow> ('ok, Wcc_data) res3 \<Rightarrow> ('w, Nfsstat3 \<times> ('ok, Wcc_data) res3) run" where
  "fail_after os clear name fHandle status reply =
     bindR (poststat os clear name fHandle (WAfter (Resfail reply))) (\<lambda>a.
     ret (status, reply\<lparr>Resfail := (Resfail reply)\<lparr>WAfter := a\<rparr>\<rparr>))"

definition ok_after ::
  "'w os \<Rightarrow> bool \<Rightarrow> string \<Rightarrow> u64 \<Rightarrow> ('ok \<Rightarrow> Wcc_data) \<Rightarrow> ((Wcc_data \<Rightarrow> Wcc_data) \<Rightarrow> 'ok \<Rightarrow> 'ok) \<Rightarrow>
   Nfsstat3 \<Rightarrow> ('ok, Wcc_data) res3 \<Rightarrow> ('w, Nfsstat3 \<times> ('ok, Wcc_data) res3) run" where
  "ok_after os clear name fHandle get okw status reply =
     bindR (poststat os clear name fHandle (WAfter (get (Resok reply)))) (\<lambda>a.
     ret (status, reply\<lparr>Resok := okw (WAfter_update (\<lambda>_. a)) (Resok reply)\<rparr>))"

text \<open>
  The end of MKDIR, CREATE and SYMLINK once the object \<open>newName\<close> has been made: its attributes and its handle
  go into the reply.  \<open>failed\<close> is the status for an object that cannot be read back.
\<close>

definition created ::
  "'w os \<Rightarrow> bool \<Rightarrow> bool \<Rightarrow> string \<Rightarrow> u64 \<Rightarrow> string \<Rightarrow> (Errno \<Rightarrow> Nfsstat3) \<Rightarrow> CREATE3res \<Rightarrow>
   ('w, Nfsstat3 \<times> CREATE3res) run" where
  "created os okclear failclear parent fHandle newName failed reply =
     bindR (getFileAttrFromPath os newName (Attributes (CrObj_attributes (Resok reply)))) (\<lambda>(fattr, err). case err of
       None \<Rightarrow>
         bindR (registerHandle os newName fattr) (\<lambda>newFHandle.
         ok_after os okclear parent fHandle CrDir_wcc CrDir_wcc_update NFS3_OK
           (reply\<lparr>Resok := (Resok reply)\<lparr>CrObj_attributes := follow fattr,
                    CrObj := \<lparr>Handle_follows = True, Handle = le64 newFHandle\<rparr>\<rparr>\<rparr>))
     | Some e \<Rightarrow>
         fail_after os failclear parent fHandle (failed e)
           (reply\<lparr>Resok := (Resok reply)\<lparr>CrObj_attributes := (CrObj_attributes (Resok reply))\<lparr>Attributes := fattr\<rparr>\<rparr>\<rparr>))"

section \<open>MKDIR\<close>

definition getMkdirErr :: "Errno \<Rightarrow> Nfsstat3" where
  "getMkdirErr e =
     (if e = EACCES \<or> e = EPERM then NFS3ERR_ACCES
      else if e = ENOTDIR then NFS3ERR_NOTDIR
      else if e = EEXIST then NFS3ERR_EXIST
      else if e = ENOSPC then NFS3ERR_NOSPC
      else if e = EROFS then NFS3ERR_ROFS
      else if e = EINVAL then NFS3ERR_INVAL
      else if e = ENAMETOOLONG \<or> e = ELOOP \<or> e = ENOENT then NFS3ERR_STALE
      else NFS3ERR_IO)"

definition Mkdir :: "'w os \<Rightarrow> u64 \<Rightarrow> string \<Rightarrow> Sattr3 \<Rightarrow> CREATE3res \<Rightarrow> ('w, Nfsstat3 \<times> CREATE3res) run" where
  "Mkdir os fHandle dirname attribute reply =
     on_writable os fHandle CrDir_wcc_update reply (\<lambda>parentname fattr reply.
       if dirname \<noteq> '''' \<and> \<not> ContainsSlash dirname then
         if dirname \<noteq> ''.'' \<and> dirname \<noteq> ''..'' then
           let permissions = (if Mode_set (SaMode attribute) then SMode (SaMode attribute) else ModePerm);
               newDir = parentname @ ''/'' @ dirname in
           bindR (sys (Mkdir_sys os newDir permissions)) (\<lambda>err. case err of
             None \<Rightarrow> created os True True parentname fHandle newDir getMkdirErr reply
           | Some err \<Rightarrow>
               bindR (liftG (PathError_Errno err)) (\<lambda>e.
               fail_after os True parentname fHandle (getMkdirErr e) reply))
         else fail_after os True parentname fHandle NFS3ERR_EXIST reply
       else fail_after os True parentname fHandle NFS3ERR_ACCES reply)"

section \<open>CREATE\<close>

definition getCreateErr :: "Errno \<Rightarrow> Nfsstat3" where
  "getCreateErr e =
     (if e = EEXIST then NFS3ERR_EXIST
      else if e = EACCES then NFS3ERR_ACCES
      else if e = ENAMETOOLONG \<or> e = ELOOP \<or> e = ENOTDIR then NFS3ERR_STALE
      else if e = ENOSPC then NFS3ERR_NOSPC
      else if e = EROFS then NFS3ERR_ROFS
      else NFS3ERR_IO)"

definition create_flags :: "Createhow3 \<Rightarrow> nat" where
  "create_flags how =
     (let openFlags = O_CREATE + O_RDWR + O_TRUNC + O_NONBLOCK in
      if CMode how \<noteq> UNCHECKED then openFlags + O_EXCL else openFlags)"

definition create_permissions :: "Createhow3 \<Rightarrow> u32" where
  "create_permissions how =
     (if (CMode how = GUARDED \<or> CMode how = UNCHECKED) \<and> Mode_set (SaMode (CObj_attributes how))
      then SMode (SaMode (CObj_attributes how)) else 0x1B6)"

definition Create :: "'w os \<Rightarrow> u64 \<Rightarrow> string \<Rightarrow> Createhow3 \<Rightarrow> CREATE3res \<Rightarrow> ('w, Nfsstat3 \<times> CREATE3res) run" where
  "Create os dirFHandle name createHow reply =
     on_writable os dirFHandle CrDir_wcc_update reply (\<lambda>dirName fattr reply.
       if plain_name name then
         let fileName = dirName @ ''/'' @ name in
         bindR (sys (OpenFile os fileName (create_flags createHow) (create_permissions createHow))) (\<lambda>r. case r of
           Inr f \<Rightarrow> with_file os f (created os False False dirName dirFHandle fileName getCreateErr reply)
         | Inl err \<Rightarrow>
             bindR (liftG (PathError_Errno err)) (\<lambda>e.
             fail_after os False dirName dirFHandle (getCreateErr e) reply))
       else fail_after os False dirName dirFHandle NFS3ERR_INVAL reply)"

section \<open>SYMLINK\<close>

definition getSymLinkErr :: "Errno \<Rightarrow> Nfsstat3" where
  "getSymLinkErr e =
     (if e = EACCES \<or> e = EPERM then NFS3ERR_ACCES
      else if e = ENAMETOOLONG \<or> e = ELOOP \<or> e = ENOTDIR \<or> e = ENOENT then NFS3ERR_STALE
      else if e = EROFS then NFS3ERR_ROFS
      else if e = EEXIST then NFS3ERR_EXIST
      else if e = ENOSPC then NFS3ERR_NOSPC
      else if e = ENOSYS then NFS3ERR_NOTSUPP
      else if e = EINVAL then NFS3ERR_INVAL
      else NFS3ERR_IO)"

text \<open>A link that cannot be read back leaves the status STALE it started with.\<close>

definition SymLink ::
  "'w os \<Rightarrow> u64 \<Rightarrow> string \<Rightarrow> string \<Rightarrow> Sattr3 \<Rightarrow> CREATE3res \<Rightarrow> ('w, Nfsstat3 \<times> CREATE3res) run" where
  "SymLink os linkDirFHandle symLinkName symlinkData newattr reply =
     on_writable os linkDirFHandle CrDir_wcc_update reply (\<lambda>linkDir fattr reply.
       if plain_name symLinkName then
         let newFilename = linkDir @ ''/'' @ symLinkName in
         bindR (sys (Symlink_sys os symlinkData newFilename)) (\<lambda>err. case err of
           None \<Rightarrow> created os True True linkDir linkDirFHandle newFilename (\<lambda>_. NFS3ERR_STALE) reply
         | Some err \<Rightarrow>
             bindR (liftG (LinkError_Errno err)) (\<lambda>e.
             fail_after os True linkDir linkDirFHandle (getSymLinkErr e) reply))
       else fail_after os True linkDir linkDirFHandle NFS3ERR_INVAL reply)"

section \<open>SETATTR\<close>

definition getSetattrErr :: "Errno \<Rightarrow> Nfsstat3" where
  "getSetattrErr e =
     (if e = EACCES then NFS3ERR_ACCES
      else if e = EPERM then NFS3ERR_PERM
      else if e = ENAMETOOLONG \<or> e = ELOOP \<or> e = ENOTDIR \<or> e = ENOENT then NFS3ERR_STALE
      else if e = EROFS then NFS3ERR_ROFS
      else if e = EINVAL then NFS3ERR_INVAL
      else NFS3ERR_IO)"

text \<open>
  The body of the loop that runs once: size, mode, times, in this order, each only if it is to be set; the
  first failure ends it with its status, the later ones are not tried.  Owner and group are only logged.
\<close>

definition set_step :: "bool \<Rightarrow> ('w \<Rightarrow> oserror option \<times> 'w) \<Rightarrow> ('w, Nfsstat3) run \<Rightarrow> ('w, Nfsstat3) run" where
  "set_step wanted call rest =
     (if wanted then
        bindR (sys call) (\<lambda>err. case err of
          None \<Rightarrow> rest
        | Some err \<Rightarrow> bindR (liftG (PathError_Errno err)) (\<lambda>e. ret (getSetattrErr e)))
      else rest)"

definition set_attributes :: "'w os \<Rightarrow> string \<Rightarrow> Fattr3 \<Rightarrow> Sattr3 \<Rightarrow> ('w, Nfsstat3) run" where
  "set_attributes os fileName fattr newattr =
     set_step (Size_set (SaSize newattr)) (Truncate os fileName (sint (SSize (SaSize newattr))))
    (set_step (Mode_set (SaMode newattr)) (Chmod os fileName (SMode (SaMode newattr)))
    (let atime = (if Time_set (SaAtime newattr) \<noteq> DONT_CHANGE then STime (SaAtime newattr) else FAtime fattr);
         mtime = (if Time_set (SaMtime newattr) \<noteq> DONT_CHANGE then STime (SaMtime newattr) else FMtime fattr) in
     set_step (Time_set (SaAtime newattr) \<noteq> DONT_CHANGE \<or> Time_set (SaMtime newattr) \<noteq> DONT_CHANGE)
       (Chtimes os fileName atime mtime)
    (ret NFS3_OK)))"

text \<open>The attributes afterwards go into \<open>Resok\<close>, whatever the status.\<close>

definition Setattr :: "'w os \<Rightarrow> u64 \<Rightarrow> Sattr3 \<Rightarrow> Sattrguard3 \<Rightarrow> SETATTR3res \<Rightarrow> ('w, Nfsstat3 \<times> SETATTR3res) run" where
  "Setattr os fHandle newattr guard reply =
     on_writable os fHandle (\<lambda>f. f) reply (\<lambda>fileName fattr reply.
       if \<not> Check guard \<or> Seconds (Obj_ctime guard) = Seconds (FCtime fattr) then
         bindR (set_attributes os fileName fattr newattr) (\<lambda>status.
         ok_after os False fileName fHandle (\<lambda>w. w) (\<lambda>f. f) status reply)
       else fail_after os False fileName fHandle NFS3ERR_NOT_SYNC reply)"

section \<open>WRITE\<close>

definition getWriteErr :: "Errno \<Rightarrow> Nfsstat3" where
  "getWriteErr e =
     (if e = EACCES then NFS3ERR_ACCES
      else if e = ENAMETOOLONG \<or> e = ELOOP \<or> e = ENOTDIR \<or> e = ENOENT then NFS3ERR_STALE
      else if e = EROFS then NFS3ERR_ROFS
      else if e = ENOSPC then NFS3ERR_NOSPC
      else if e = EFBIG then NFS3ERR_FBIG
      else if e = EINVAL then NFS3ERR_INVAL
      else NFS3ERR_IO)"

text \<open>
  All the data is written, whatever \<open>count\<close> says (the source cuts \<^verbatim>\<open>count\<close> to \<^verbatim>\<open>tcpMaxData\<close> and does not use it).
  A stable write asked for is synchronised, and said to be unstable when that fails.
\<close>

definition write_open ::
  "'w os \<Rightarrow> fd \<Rightarrow> string \<Rightarrow> u64 \<Rightarrow> u64 \<Rightarrow> 32 word \<Rightarrow> bytes \<Rightarrow> WRITE3res \<Rightarrow> ('w, Nfsstat3 \<times> WRITE3res) run" where
  "write_open os f fileName fHandle offset how_stable data reply =
     bindR (sys (WriteAt os f data (sint offset))) (\<lambda>(bytesWritten, err).
     if err = None \<or> bytesWritten \<noteq> 0 then
       bindR (if how_stable \<noteq> UNSTABLE then
                bindR (sys (Fsync os f)) (\<lambda>err. ret (if err = None then FILE_SYNC else UNSTABLE))
              else ret UNSTABLE) (\<lambda>committed.
       bindR (getBE ServerStartTime) (\<lambda>start.
       ok_after os False fileName fHandle WrFile_wcc WrFile_wcc_update NFS3_OK
         (reply\<lparr>Resok := (Resok reply)\<lparr>WrCount := of_nat bytesWritten, Committed := committed,
                                       WrVerf := le64 start\<rparr>\<rparr>)))
     else
       bindR (liftG (PathError_Errno (the err))) (\<lambda>e.
       fail_after os False fileName fHandle (getWriteErr e) reply))"

definition Write ::
  "'w os \<Rightarrow> u64 \<Rightarrow> u64 \<Rightarrow> u32 \<Rightarrow> 32 word \<Rightarrow> bytes \<Rightarrow> WRITE3res \<Rightarrow> ('w, Nfsstat3 \<times> WRITE3res) run" where
  "Write os fHandle offset count how_stable data reply =
     on_writable os fHandle WrFile_wcc_update reply (\<lambda>fileName fattr reply.
       if FType fattr = NF3REG then
         bindR (sys (OpenFile os fileName O_WRONLY 0x1B6)) (\<lambda>r. case r of
           Inr f \<Rightarrow> with_file os f (write_open os f fileName fHandle offset how_stable data reply)
         | Inl err \<Rightarrow>
             bindR (liftG (PathError_Errno err)) (\<lambda>e.
             fail_after os False fileName fHandle (getWriteErr e) reply))
       else fail_after os False fileName fHandle NFS3ERR_INVAL reply)"

section \<open>REMOVE and RMDIR\<close>

definition getRemoveErr :: "Errno \<Rightarrow> Nfsstat3" where
  "getRemoveErr e =
     (if e = EACCES \<or> e = EPERM then NFS3ERR_ACCES
      else if e = ENOENT then NFS3ERR_NOENT
      else if e = ENAMETOOLONG \<or> e = ELOOP \<or> e = ENOTDIR then NFS3ERR_STALE
      else if e = EROFS then NFS3ERR_ROFS
      else if e = EINVAL then NFS3ERR_INVAL
      else NFS3ERR_IO)"

definition Remove :: "'w os \<Rightarrow> u64 \<Rightarrow> string \<Rightarrow> (Wcc_data, Wcc_data) res3 \<Rightarrow> ('w, Nfsstat3 \<times> (Wcc_data, Wcc_data) res3) run" where
  "Remove os dirFHandle name reply =
     on_writable os dirFHandle (\<lambda>f. f) reply (\<lambda>dirName fattr reply.
       if plain_name name then
         bindR (sys (Unlink os (dirName @ ''/'' @ name))) (\<lambda>err. case err of
           None \<Rightarrow> ok_after os False dirName dirFHandle (\<lambda>w. w) (\<lambda>f. f) NFS3_OK reply
         | Some err \<Rightarrow>
             bindR (liftG (as_Errno err)) (\<lambda>e.
             fail_after os False dirName dirFHandle (getRemoveErr e) reply))
       else fail_after os False dirName dirFHandle NFS3ERR_INVAL reply)"

definition getRmdirErr :: "Errno \<Rightarrow> Nfsstat3" where
  "getRmdirErr e =
     (if e = ENOTEMPTY then NFS3ERR_NOTEMPTY
      else if e = EACCES \<or> e = EPERM then NFS3ERR_ACCES
      else if e = ENOENT then NFS3ERR_NOENT
      else if e = ENAMETOOLONG \<or> e = ELOOP \<or> e = ENOTDIR then NFS3ERR_STALE
      else if e = EROFS then NFS3ERR_ROFS
      else if e = EINVAL then NFS3ERR_INVAL
      else NFS3ERR_IO)"

text \<open>The guard on the name is the one of REMOVE with its first \<^verbatim>\<open>&&\<close> an \<^verbatim>\<open>||\<close>.\<close>

definition rmdir_guard :: "string \<Rightarrow> bool" where
  "rmdir_guard name = (name \<noteq> '''' \<or> \<not> ContainsSlash name \<and> name \<noteq> ''.'' \<and> name \<noteq> ''..'')"

definition Rmdir :: "'w os \<Rightarrow> u64 \<Rightarrow> string \<Rightarrow> (Wcc_data, Wcc_data) res3 \<Rightarrow> ('w, Nfsstat3 \<times> (Wcc_data, Wcc_data) res3) run" where
  "Rmdir os dirFHandle name reply =
     on_writable os dirFHandle (\<lambda>f. f) reply (\<lambda>dirName fattr reply.
       if rmdir_guard name then
         bindR (sys (Rmdir_sys os (dirName @ ''/'' @ name))) (\<lambda>err. case err of
           None \<Rightarrow> ok_after os False dirName dirFHandle (\<lambda>w. w) (\<lambda>f. f) NFS3_OK reply
         | Some err \<Rightarrow>
             bindR (liftG (as_Errno err)) (\<lambda>e.
             fail_after os False dirName dirFHandle (getRmdirErr e) reply))
       else fail_after os False dirName dirFHandle NFS3ERR_INVAL reply)"

end
