(* ===== verification/Nfs_Twodir.thy ===== *)
theory Nfs_Twodir
  imports Nfs_Update
begin

text \<open>
  The operations of \<^verbatim>\<open>nfs3/allunix.go\<close> on two handles: RENAME, with the ``silly rename'' by which NFS
  clients keep an unlinked file open, and LINK.
\<close>

section \<open>RENAME\<close>

definition getRenameErr :: "Errno \<Rightarrow> Nfsstat3" where
  "getRenameErr e =
     (if e = EISDIR then NFS3ERR_ISDIR
      else if e = EXDEV then NFS3ERR_XDEV
      else if e = EEXIST then NFS3ERR_EXIST
      else if e = ENOTEMPTY then NFS3ERR_NOTEMPTY
      else if e = EINVAL then NFS3ERR_INVAL
      else if e = ENOTDIR then NFS3ERR_NOTDIR
      else if e = EACCES \<or> e = EPERM then NFS3ERR_ACCES
      else if e = ENOENT then NFS3ERR_NOENT
      else if e = ENAMETOOLONG \<or> e = ELOOP then NFS3ERR_STALE
      else if e = ENOSPC then NFS3ERR_NOSPC
      else if e = EROFS then NFS3ERR_ROFS
      else if e = EMLINK then NFS3ERR_MLINK
      else NFS3ERR_IO)"

text \<open>
  After a rename to a name that begins with \<^verbatim>\<open>.nfs\<close>: the handle of the file under its old name (the
  inode number is that of the new name) is pointed to the new one.
\<close>

definition HasPrefix :: "string \<Rightarrow> string \<Rightarrow> bool" where
  "HasPrefix s p = (take (length p) s = p)"

definition silly_rename :: "'w os \<Rightarrow> string \<Rightarrow> string \<Rightarrow> string \<Rightarrow> Fattr3 \<Rightarrow> ('w, unit) run" where
  "silly_rename os toName from_path to_path fattr =
     (if HasPrefix toName ''.nfs'' then
        bindR (getFileAttrFromPath os to_path fattr) (\<lambda>(fattr, err). case err of
          None \<Rightarrow>
            let fromFileHandle = makeFHandle from_path (Fileid fattr) (Fsid fattr) in
            bindR (getValuefromHandle fromFileHandle) (\<lambda>found. case found of
              None \<Rightarrow> ret ()
            | Some foundname \<Rightarrow>
                if foundname = from_path then setValueforHandle fromFileHandle to_path
                else crash Fatal)
        | Some _ \<Rightarrow> ret ())
      else ret ())"

text \<open>The attributes of both directories afterwards, into one part of the reply.\<close>

definition after_both :: "'w os \<Rightarrow> string \<Rightarrow> u64 \<Rightarrow> string \<Rightarrow> u64 \<Rightarrow> RENAME3resok \<Rightarrow> ('w, RENAME3resok) run" where
  "after_both os fromDir fromFHandle toDir toFHandle r =
     bindR (poststat os True fromDir fromFHandle (WAfter (Fromdir_wcc r))) (\<lambda>a.
     bindR (poststat os True toDir toFHandle (WAfter (Todir_wcc r))) (\<lambda>b.
     ret (r\<lparr>Fromdir_wcc := (Fromdir_wcc r)\<lparr>WAfter := a\<rparr>, Todir_wcc := (Todir_wcc r)\<lparr>WAfter := b\<rparr>\<rparr>)))"

text \<open>When the first directory cannot be used, the attributes of the second one are reported.\<close>

definition rename_to_only :: "'w os \<Rightarrow> u64 \<Rightarrow> Fattr3 \<Rightarrow> RENAME3res \<Rightarrow> ('w, Nfsstat3 \<times> RENAME3res) run" where
  "rename_to_only os toFHandle fattr reply =
     bindR (getValuefromHandle toFHandle) (\<lambda>found. case found of
       None \<Rightarrow> ret (NFS3ERR_STALE, reply)
     | Some toDir \<Rightarrow>
         bindR (getFileAttrFromPath os toDir fattr) (\<lambda>(fattr, err). case err of
           None \<Rightarrow> ret (NFS3ERR_STALE, reply\<lparr>Resfail := (Resfail reply)\<lparr>
                     Todir_wcc := \<lparr>WBefore = preOpAttr fattr, WAfter = follow fattr\<rparr>\<rparr>\<rparr>)
         | Some _ \<Rightarrow> bindR (deleteHandle toFHandle) (\<lambda>_. ret (NFS3ERR_STALE, reply))))"

definition rename_from_only :: "'w os \<Rightarrow> string \<Rightarrow> u64 \<Rightarrow> RENAME3res \<Rightarrow> ('w, Nfsstat3 \<times> RENAME3res) run" where
  "rename_from_only os fromDir fromFHandle reply =
     bindR (poststat os True fromDir fromFHandle (WAfter (Fromdir_wcc (Resfail reply)))) (\<lambda>a.
     ret (NFS3ERR_STALE, reply\<lparr>Resfail := (Resfail reply)\<lparr>
       Fromdir_wcc := (Fromdir_wcc (Resfail reply))\<lparr>WAfter := a\<rparr>\<rparr>\<rparr>))"

text \<open>Both parts of the reply get the same attributes before the operation; for the second directory the
  code takes them from \<^verbatim>\<open>fattr\<close>, the attributes of the first one.\<close>

definition set_from_before :: "Fattr3 \<Rightarrow> RENAME3resok \<Rightarrow> RENAME3resok" where
  "set_from_before fattr r = r\<lparr>Fromdir_wcc := (Fromdir_wcc r)\<lparr>WBefore := preOpAttr fattr\<rparr>\<rparr>"

definition set_to_before :: "Fattr3 \<Rightarrow> RENAME3resok \<Rightarrow> RENAME3resok" where
  "set_to_before fattr r = r\<lparr>Todir_wcc := (Todir_wcc r)\<lparr>WBefore := preOpAttr fattr\<rparr>\<rparr>"

definition both_parts :: "('a \<Rightarrow> 'a) \<Rightarrow> ('a, 'a) res3 \<Rightarrow> ('a, 'a) res3" where
  "both_parts f reply = reply\<lparr>Resok := f (Resok reply), Resfail := f (Resfail reply)\<rparr>"

definition Rename ::
  "'w os \<Rightarrow> u64 \<Rightarrow> string \<Rightarrow> u64 \<Rightarrow> string \<Rightarrow> RENAME3res \<Rightarrow> ('w, Nfsstat3 \<times> RENAME3res) run" where
  "Rename os fromFHandle fromName toFHandle toName reply =
     bindR (getValuefromHandle fromFHandle) (\<lambda>found. case found of
       None \<Rightarrow> rename_to_only os toFHandle zero_fattr reply
     | Some fromDir \<Rightarrow>
         bindR (getFileAttrFromPath os fromDir zero_fattr) (\<lambda>(fattr, err). case err of
           Some _ \<Rightarrow> bindR (deleteHandle fromFHandle) (\<lambda>_. rename_to_only os toFHandle fattr reply)
         | None \<Rightarrow>
             let reply = both_parts (set_from_before fattr) reply in
             bindR (getValuefromHandle toFHandle) (\<lambda>found. case found of
               None \<Rightarrow> rename_from_only os fromDir fromFHandle reply
             | Some toDir \<Rightarrow>
                 bindR (getFileAttrFromPath os toDir zero_fattr) (\<lambda>(toFattr, err). case err of
                   Some _ \<Rightarrow>
                     bindR (deleteHandle toFHandle) (\<lambda>_.
                     rename_from_only os fromDir fromFHandle reply)
                 | None \<Rightarrow>
                     let reply = both_parts (set_to_before fattr) reply in
                     bindR (getBE (\<lambda>be. writeaccess (config be))) (\<lambda>writeaccess.
                     if \<not> writeaccess then
                       ret (NFS3ERR_ROFS, reply\<lparr>Resfail := (Resfail reply)\<lparr>
                         Fromdir_wcc := (Fromdir_wcc (Resfail reply))\<lparr>WAfter := follow fattr\<rparr>,
                         Todir_wcc := (Todir_wcc (Resfail reply))\<lparr>WAfter := follow toFattr\<rparr>\<rparr>\<rparr>)
                     else if plain_name fromName \<and> plain_name toName then
                       let from_path = fromDir @ ''/'' @ fromName; to_path = toDir @ ''/'' @ toName in
                       bindR (sys (Rename_sys os from_path to_path)) (\<lambda>err. case err of
                         None \<Rightarrow>
                           bindR (silly_rename os toName from_path to_path fattr) (\<lambda>_.
                           bindR (after_both os fromDir fromFHandle toDir toFHandle (Resok reply)) (\<lambda>r.
                           ret (NFS3_OK, reply\<lparr>Resok := r\<rparr>)))
                       | Some err \<Rightarrow>
                           bindR (liftG (LinkError_Errno err)) (\<lambda>e.
                           bindR (after_both os fromDir fromFHandle toDir toFHandle (Resfail reply)) (\<lambda>r.
                           ret (getRenameErr e, reply\<lparr>Resfail := r\<rparr>))))
                     else
                       bindR (after_both os fromDir fromFHandle toDir toFHandle (Resfail reply)) (\<lambda>r.
                       ret (NFS3ERR_INVAL, reply\<lparr>Resfail := r\<rparr>)))))))"

section \<open>LINK\<close>

definition getLinkErr :: "Errno \<Rightarrow> Nfsstat3" where
  "getLinkErr e =
     (if e = EXDEV then NFS3ERR_XDEV
      else if e = EMLINK then NFS3ERR_MLINK
      else if e = EACCES \<or> e = EPERM then NFS3ERR_ACCES
      else if e = ENAMETOOLONG \<or> e = ELOOP \<or> e = ENOTDIR \<or> e = ENOENT then NFS3ERR_STALE
      else if e = EROFS then NFS3ERR_ROFS
      else if e = EEXIST then NFS3ERR_EXIST
      else if e = ENOSPC then NFS3ERR_NOSPC
      else if e = ENOSYS then NFS3ERR_NOTSUPP
      else if e = EINVAL then NFS3ERR_INVAL
      else NFS3ERR_IO)"

definition set_link_after :: "Post_op_attr \<Rightarrow> LINK3resok \<Rightarrow> LINK3resok" where
  "set_link_after a r = r\<lparr>Linkdir_wcc := (Linkdir_wcc r)\<lparr>WAfter := a\<rparr>\<rparr>"

text \<open>The directory's attributes, and if they could be read the file's.\<close>

definition after_link :: "'w os \<Rightarrow> string \<Rightarrow> u64 \<Rightarrow> string \<Rightarrow> u64 \<Rightarrow> LINK3resok \<Rightarrow> ('w, LINK3resok) run" where
  "after_link os linkDir linkDirFHandle oldName oldFHandle r =
     bindR (poststat os True linkDir linkDirFHandle (WAfter (Linkdir_wcc r))) (\<lambda>a.
     if Attributes_follow a then
       bindR (poststat os True oldName oldFHandle (LnFile_attributes r)) (\<lambda>b.
       ret ((set_link_after a r)\<lparr>LnFile_attributes := b\<rparr>))
     else ret (set_link_after a r))"

definition link_dir_only :: "'w os \<Rightarrow> string \<Rightarrow> u64 \<Rightarrow> LINK3res \<Rightarrow> ('w, Nfsstat3 \<times> LINK3res) run" where
  "link_dir_only os linkDir linkDirFHandle reply =
     bindR (poststat os True linkDir linkDirFHandle (WAfter (Linkdir_wcc (Resfail reply)))) (\<lambda>a.
     ret (NFS3ERR_STALE, reply\<lparr>Resfail := set_link_after a (Resfail reply)\<rparr>))"

definition link_old_only :: "'w os \<Rightarrow> u64 \<Rightarrow> LINK3res \<Rightarrow> ('w, Nfsstat3 \<times> LINK3res) run" where
  "link_old_only os oldFHandle reply =
     bindR (getValuefromHandle oldFHandle) (\<lambda>found. case found of
       None \<Rightarrow> ret (NFS3ERR_STALE, reply)
     | Some oldName \<Rightarrow>
         bindR (poststat os False oldName oldFHandle (LnFile_attributes (Resfail reply))) (\<lambda>b.
         ret (NFS3ERR_STALE, reply\<lparr>Resfail := (Resfail reply)\<lparr>LnFile_attributes := b\<rparr>\<rparr>)))"

definition set_link_before :: "Fattr3 \<Rightarrow> LINK3resok \<Rightarrow> LINK3resok" where
  "set_link_before fattr r = r\<lparr>Linkdir_wcc := (Linkdir_wcc r)\<lparr>WBefore := preOpAttr fattr\<rparr>\<rparr>"

definition Link ::
  "'w os \<Rightarrow> u64 \<Rightarrow> u64 \<Rightarrow> string \<Rightarrow> LINK3res \<Rightarrow> ('w, Nfsstat3 \<times> LINK3res) run" where
  "Link os oldFHandle linkDirFHandle newName reply =
     bindR (getValuefromHandle linkDirFHandle) (\<lambda>found. case found of
       None \<Rightarrow> link_old_only os oldFHandle reply
     | Some linkDir \<Rightarrow>
         bindR (getFileAttrFromPath os linkDir zero_fattr) (\<lambda>(fattr, err). case err of
           Some _ \<Rightarrow> bindR (deleteHandle linkDirFHandle) (\<lambda>_. link_old_only os oldFHandle reply)
         | None \<Rightarrow>
             let reply = both_parts (set_link_before fattr) reply in
             bindR (getValuefromHandle oldFHandle) (\<lambda>found. case found of
               None \<Rightarrow> link_dir_only os linkDir linkDirFHandle reply
             | Some oldName \<Rightarrow>
                 bindR (getFileAttrFromPath os oldName zero_fattr) (\<lambda>(oldFattr, err). case err of
                   Some _ \<Rightarrow>
                     bindR (deleteHandle oldFHandle) (\<lambda>_.
                     link_dir_only os linkDir linkDirFHandle reply)
                 | None \<Rightarrow>
                     bindR (getBE (\<lambda>be. writeaccess (config be))) (\<lambda>writeaccess.
                     if \<not> writeaccess then
                       ret (NFS3ERR_ROFS, reply\<lparr>Resfail :=
                         (set_link_after (follow fattr) (Resfail reply))\<lparr>LnFile_attributes := follow oldFattr\<rparr>\<rparr>)
                     else if plain_name newName then
                       bindR (sys (Link_sys os oldName (linkDir @ ''/'' @ newName))) (\<lambda>err. case err of
                         None \<Rightarrow>
                           bindR (after_link os linkDir linkDirFHandle oldName oldFHandle (Resok reply)) (\<lambda>r.
                           ret (NFS3_OK, reply\<lparr>Resok := r\<rparr>))
                       | Some err \<Rightarrow>
                           bindR (liftG (LinkError_Errno err)) (\<lambda>e.
                           bindR (after_link os linkDir linkDirFHandle oldName oldFHandle (Resfail reply)) (\<lambda>r.
                           ret (getLinkErr e, reply\<lparr>Resfail := r\<rparr>))))
                     else
                       bindR (after_link os linkDir linkDirFHandle oldName oldFHandle (Resfail reply)) (\<lambda>r.
                       ret (NFS3ERR_INVAL, reply\<lparr>Resfail := r\<rparr>)))))))"

end
