(* ===== verification/Nfs_Proc.thy ===== *)
theory Nfs_Proc
  imports Nfs_Query Nfs_Twodir
begin

text \<open>
  \<^verbatim>\<open>nfs3/nfsprocdef.go\<close>: the methods \<^verbatim>\<open>net/rpc\<close> calls.  Each reads the file handle from the first eight bytes
  of the opaque data (and panics when there are fewer), calls the backend and puts the status in the
  reply.  \<open>serve\<close> is one request: the reply is fresh, and what the method returns is sent back.
\<close>

section \<open>The methods\<close>

definition with_status :: "('w, Nfsstat3 \<times> ('ok, 'fail) res3) run \<Rightarrow> ('w, ('ok, 'fail) res3) run" where
  "with_status m = bindR m (\<lambda>(status, reply). ret (reply\<lparr>Status := status\<rparr>))"

definition handle :: "Nfs_fh3 \<Rightarrow> ('w, u64) run" where
  "handle fh = liftG (of_le64 fh)"

definition Mountproc_export_3_svc :: "Exports \<Rightarrow> ('w, Exports) run" where
  "Mountproc_export_3_svc reply = ExportedMountPoint reply"

definition Mountproc_mnt_3_svc :: "string \<Rightarrow> Mountres3 \<Rightarrow> ('w, Mountres3) run" where
  "Mountproc_mnt_3_svc args reply =
     bindR (Mount args reply) (\<lambda>(status, reply). ret (reply\<lparr>Fhs_status := status\<rparr>))"

definition Mountproc_umnt_3_svc :: "string \<Rightarrow> ('w, unit) run" where
  "Mountproc_umnt_3_svc args = UnMount args"

definition Nfsproc3_getattr_3_svc :: "'w os \<Rightarrow> Nfs_fh3 \<Rightarrow> GETATTR3res \<Rightarrow> ('w, GETATTR3res) run" where
  "Nfsproc3_getattr_3_svc os argp reply =
     bindR (handle argp) (\<lambda>fHandle.
     bindR (GetFileAttr os fHandle (Resok reply)) (\<lambda>(status, fattr).
     ret (reply\<lparr>Resok := fattr, Status := status\<rparr>)))"

definition Nfsproc3_setattr_3_svc :: "'w os \<Rightarrow> SETATTR3args \<Rightarrow> SETATTR3res \<Rightarrow> ('w, SETATTR3res) run" where
  "Nfsproc3_setattr_3_svc os argp reply =
     bindR (handle (SObject argp)) (\<lambda>fHandle.
     with_status (Setattr os fHandle (New_attributes argp) (Guard argp) reply))"

definition Nfsproc3_lookup_3_svc :: "'w os \<Rightarrow> Diropargs3 \<Rightarrow> LOOKUP3res \<Rightarrow> ('w, LOOKUP3res) run" where
  "Nfsproc3_lookup_3_svc os argp reply =
     bindR (handle (Dir argp)) (\<lambda>fHandle. with_status (Lookup os fHandle (DName argp) reply))"

definition Nfsproc3_access_3_svc :: "'w os \<Rightarrow> ACCESS3args \<Rightarrow> ACCESS3res \<Rightarrow> ('w, ACCESS3res) run" where
  "Nfsproc3_access_3_svc os argp reply =
     bindR (handle (AObject argp)) (\<lambda>fHandle. with_status (Access os fHandle (AAccess argp) reply))"

definition Nfsproc3_readlink_3_svc :: "'w os \<Rightarrow> Nfs_fh3 \<Rightarrow> READLINK3res \<Rightarrow> ('w, READLINK3res) run" where
  "Nfsproc3_readlink_3_svc os argp reply =
     bindR (handle argp) (\<lambda>linkFHandle. with_status (ReadLink os linkFHandle reply))"

definition Nfsproc3_read_3_svc :: "'w os \<Rightarrow> READ3args \<Rightarrow> READ3res \<Rightarrow> ('w, READ3res) run" where
  "Nfsproc3_read_3_svc os argp reply =
     bindR (handle (RFile argp)) (\<lambda>fHandle. with_status (Read os fHandle (ROffset argp) (RCount argp) reply))"

definition Nfsproc3_write_3_svc :: "'w os \<Rightarrow> WRITE3args \<Rightarrow> WRITE3res \<Rightarrow> ('w, WRITE3res) run" where
  "Nfsproc3_write_3_svc os argp reply =
     bindR (handle (WFile argp)) (\<lambda>fHandle.
     with_status (Write os fHandle (WOffset argp) (WCount argp) (WStable argp) (WData argp) reply))"

definition Nfsproc3_create_3_svc :: "'w os \<Rightarrow> CREATE3args \<Rightarrow> CREATE3res \<Rightarrow> ('w, CREATE3res) run" where
  "Nfsproc3_create_3_svc os argp reply =
     bindR (handle (Dir (Where argp))) (\<lambda>dirFHandle.
     with_status (Create os dirFHandle (DName (Where argp)) (How argp) reply))"

definition Nfsproc3_mkdir_3_svc :: "'w os \<Rightarrow> MKDIR3args \<Rightarrow> CREATE3res \<Rightarrow> ('w, CREATE3res) run" where
  "Nfsproc3_mkdir_3_svc os argp reply =
     bindR (handle (Dir (MkWhere argp))) (\<lambda>fHandle.
     with_status (Mkdir os fHandle (DName (MkWhere argp)) (MkAttributes argp) reply))"

definition Nfsproc3_symlink_3_svc :: "'w os \<Rightarrow> SYMLINK3args \<Rightarrow> CREATE3res \<Rightarrow> ('w, CREATE3res) run" where
  "Nfsproc3_symlink_3_svc os argp reply =
     bindR (handle (Dir (SlWhere argp))) (\<lambda>dirFHandle.
     with_status (SymLink os dirFHandle (DName (SlWhere argp)) (SdData (SlSymlink argp)) (SdAttributes (SlSymlink argp)) reply))"

definition Nfsproc3_mknod_3_svc :: "MKNOD3args \<Rightarrow> CREATE3res \<Rightarrow> ('w, CREATE3res) run" where
  "Nfsproc3_mknod_3_svc argp reply = ret (reply\<lparr>Status := NFS3ERR_NOTSUPP\<rparr>)"

definition Nfsproc3_remove_3_svc :: "'w os \<Rightarrow> Diropargs3 \<Rightarrow> REMOVE3res \<Rightarrow> ('w, REMOVE3res) run" where
  "Nfsproc3_remove_3_svc os argp reply =
     bindR (handle (Dir argp)) (\<lambda>fHandle. with_status (Remove os fHandle (DName argp) reply))"

definition Nfsproc3_rmdir_3_svc :: "'w os \<Rightarrow> Diropargs3 \<Rightarrow> REMOVE3res \<Rightarrow> ('w, REMOVE3res) run" where
  "Nfsproc3_rmdir_3_svc os argp reply =
     bindR (handle (Dir argp)) (\<lambda>fHandle. with_status (Rmdir os fHandle (DName argp) reply))"

definition Nfsproc3_rename_3_svc :: "'w os \<Rightarrow> RENAME3args \<Rightarrow> RENAME3res \<Rightarrow> ('w, RENAME3res) run" where
  "Nfsproc3_rename_3_svc os argp reply =
     bindR (handle (Dir (RnFrom argp))) (\<lambda>fromFHandle.
     bindR (handle (Dir (RnTo argp))) (\<lambda>toFHandle.
     with_status (Rename os fromFHandle (DName (RnFrom argp)) toFHandle (DName (RnTo argp)) reply)))"

definition Nfsproc3_link_3_svc :: "'w os \<Rightarrow> LINK3args \<Rightarrow> LINK3res \<Rightarrow> ('w, LINK3res) run" where
  "Nfsproc3_link_3_svc os argp reply =
     bindR (handle (LnFile argp)) (\<lambda>oldFHandle.
     bindR (handle (Dir (LnLink argp))) (\<lambda>linkDirFHandle.
     with_status (Link os oldFHandle linkDirFHandle (DName (LnLink argp)) reply)))"

definition Nfsproc3_readdir_3_svc :: "'w os \<Rightarrow> READDIR3args \<Rightarrow> READDIR3res \<Rightarrow> ('w, READDIR3res) run" where
  "Nfsproc3_readdir_3_svc os argp reply =
     bindR (handle (RdDir argp)) (\<lambda>fHandle. with_status (ReadDir os fHandle (RdCookie argp) (RdCount argp) reply))"

definition Nfsproc3_readdirplus_3_svc :: "'w os \<Rightarrow> READDIRPLUS3args \<Rightarrow> READDIRPLUS3res \<Rightarrow> ('w, READDIRPLUS3res) run" where
  "Nfsproc3_readdirplus_3_svc os argp reply =
     bindR (handle (RpDir argp)) (\<lambda>fHandle. with_status (ReadDirPlus os fHandle reply))"

definition Nfsproc3_fsstat_3_svc :: "'w os \<Rightarrow> Nfs_fh3 \<Rightarrow> FSSTAT3res \<Rightarrow> ('w, FSSTAT3res) run" where
  "Nfsproc3_fsstat_3_svc os argp reply =
     bindR (handle argp) (\<lambda>fHandle. with_status (GetFileSystemAttr os fHandle reply))"

definition Nfsproc3_fsinfo_3_svc :: "'w os \<Rightarrow> Nfs_fh3 \<Rightarrow> FSINFO3res \<Rightarrow> ('w, FSINFO3res) run" where
  "Nfsproc3_fsinfo_3_svc os argp reply =
     bindR (handle argp) (\<lambda>fHandle. with_status (GetFileSysInfo os fHandle reply))"

definition Nfsproc3_pathconf_3_svc :: "'w os \<Rightarrow> Nfs_fh3 \<Rightarrow> PATHCONF3res \<Rightarrow> ('w, PATHCONF3res) run" where
  "Nfsproc3_pathconf_3_svc os argp reply =
     bindR (handle argp) (\<lambda>fHandle. with_status (GetPathConf os fHandle reply))"

text \<open>The offset and the count are not used.\<close>

definition Nfsproc3_commit_3_svc :: "'w os \<Rightarrow> COMMIT3args \<Rightarrow> COMMIT3res \<Rightarrow> ('w, COMMIT3res) run" where
  "Nfsproc3_commit_3_svc os argp reply =
     bindR (handle (CoFile argp)) (\<lambda>fHandle. with_status (Commit os fHandle reply))"

section \<open>Requests\<close>

text \<open>
  The arguments of a request, one constructor for each procedure of the two programs, and the replies.
  The procedures that do nothing (the null procedures, \<^verbatim>\<open>umntall\<close>, \<^verbatim>\<open>dump\<close> and the methods that stand for
  RPC errors) are \<open>QVoid\<close> with the name of the method.
\<close>

datatype nfs_request =
    QVoid string
  | QGetattr Nfs_fh3 | QSetattr SETATTR3args | QLookup Diropargs3 | QAccess ACCESS3args
  | QReadlink Nfs_fh3 | QRead READ3args | QWrite WRITE3args | QCreate CREATE3args | QMkdir MKDIR3args
  | QSymlink SYMLINK3args | QMknod MKNOD3args | QRemove Diropargs3 | QRmdir Diropargs3
  | QRename RENAME3args | QLink LINK3args | QReaddir READDIR3args | QReaddirplus READDIRPLUS3args
  | QFsstat Nfs_fh3 | QFsinfo Nfs_fh3 | QPathconf Nfs_fh3 | QCommit COMMIT3args
  | QMnt string | QUmnt string | QExport

datatype nfs_reply =
    PVoid
  | PGetattr GETATTR3res | PWcc "(Wcc_data, Wcc_data) res3" | PLookup LOOKUP3res | PAccess ACCESS3res
  | PReadlink READLINK3res | PRead READ3res | PWrite WRITE3res | PCreate CREATE3res
  | PRename RENAME3res | PLink LINK3res | PReaddir READDIR3res | PReaddirplus READDIRPLUS3res
  | PFsstat FSSTAT3res | PFsinfo FSINFO3res | PPathconf PATHCONF3res | PCommit COMMIT3res
  | PMnt Mountres3 | PExport Exports

definition mapR :: "('a \<Rightarrow> 'b) \<Rightarrow> ('w, 'a) run \<Rightarrow> ('w, 'b) run" where
  "mapR f m = bindR m (\<lambda>x. ret (f x))"

fun serve :: "'w os \<Rightarrow> nfs_request \<Rightarrow> ('w, nfs_reply) run" where
  "serve os (QVoid _) = ret PVoid"
| "serve os (QGetattr a) = mapR PGetattr (Nfsproc3_getattr_3_svc os a zero_getattr)"
| "serve os (QSetattr a) = mapR PWcc (Nfsproc3_setattr_3_svc os a zero_wcc_res)"
| "serve os (QLookup a) = mapR PLookup (Nfsproc3_lookup_3_svc os a zero_lookup)"
| "serve os (QAccess a) = mapR PAccess (Nfsproc3_access_3_svc os a zero_access)"
| "serve os (QReadlink a) = mapR PReadlink (Nfsproc3_readlink_3_svc os a zero_readlink)"
| "serve os (QRead a) = mapR PRead (Nfsproc3_read_3_svc os a zero_read)"
| "serve os (QWrite a) = mapR PWrite (Nfsproc3_write_3_svc os a zero_write)"
| "serve os (QCreate a) = mapR PCreate (Nfsproc3_create_3_svc os a zero_create)"
| "serve os (QMkdir a) = mapR PCreate (Nfsproc3_mkdir_3_svc os a zero_create)"
| "serve os (QSymlink a) = mapR PCreate (Nfsproc3_symlink_3_svc os a zero_create)"
| "serve os (QMknod a) = mapR PCreate (Nfsproc3_mknod_3_svc a zero_create)"
| "serve os (QRemove a) = mapR PWcc (Nfsproc3_remove_3_svc os a zero_wcc_res)"
| "serve os (QRmdir a) = mapR PWcc (Nfsproc3_rmdir_3_svc os a zero_wcc_res)"
| "serve os (QRename a) = mapR PRename (Nfsproc3_rename_3_svc os a zero_rename)"
| "serve os (QLink a) = mapR PLink (Nfsproc3_link_3_svc os a zero_link)"
| "serve os (QReaddir a) = mapR PReaddir (Nfsproc3_readdir_3_svc os a zero_readdir)"
| "serve os (QReaddirplus a) = mapR PReaddirplus (Nfsproc3_readdirplus_3_svc os a zero_readdirplus)"
| "serve os (QFsstat a) = mapR PFsstat (Nfsproc3_fsstat_3_svc os a zero_fsstat)"
| "serve os (QFsinfo a) = mapR PFsinfo (Nfsproc3_fsinfo_3_svc os a zero_fsinfo)"
| "serve os (QPathconf a) = mapR PPathconf (Nfsproc3_pathconf_3_svc os a zero_pathconf)"
| "serve os (QCommit a) = mapR PCommit (Nfsproc3_commit_3_svc os a zero_commit)"
| "serve os (QMnt a) = mapR PMnt (Mountproc_mnt_3_svc a zero_mount)"
| "serve os (QUmnt a) = mapR (\<lambda>_. PVoid) (Mountproc_umnt_3_svc a)"
| "serve os QExport = mapR PExport (Mountproc_export_3_svc [])"

text \<open>The names under which \<^verbatim>\<open>net/rpc\<close> finds the methods, and the procedure tables of the two programs.\<close>

fun method_name :: "nfs_request \<Rightarrow> string" where
  "method_name (QVoid m) = m"
| "method_name (QGetattr a) = ''NfsProc.Nfsproc3_getattr_3_svc''"
| "method_name (QSetattr a) = ''NfsProc.Nfsproc3_setattr_3_svc''"
| "method_name (QLookup a) = ''NfsProc.Nfsproc3_lookup_3_svc''"
| "method_name (QAccess a) = ''NfsProc.Nfsproc3_access_3_svc''"
| "method_name (QReadlink a) = ''NfsProc.Nfsproc3_readlink_3_svc''"
| "method_name (QRead a) = ''NfsProc.Nfsproc3_read_3_svc''"
| "method_name (QWrite a) = ''NfsProc.Nfsproc3_write_3_svc''"
| "method_name (QCreate a) = ''NfsProc.Nfsproc3_create_3_svc''"
| "method_name (QMkdir a) = ''NfsProc.Nfsproc3_mkdir_3_svc''"
| "method_name (QSymlink a) = ''NfsProc.Nfsproc3_symlink_3_svc''"
| "method_name (QMknod a) = ''NfsProc.Nfsproc3_mknod_3_svc''"
| "method_name (QRemove a) = ''NfsProc.Nfsproc3_remove_3_svc''"
| "method_name (QRmdir a) = ''NfsProc.Nfsproc3_rmdir_3_svc''"
| "method_name (QRename a) = ''NfsProc.Nfsproc3_rename_3_svc''"
| "method_name (QLink a) = ''NfsProc.Nfsproc3_link_3_svc''"
| "method_name (QReaddir a) = ''NfsProc.Nfsproc3_readdir_3_svc''"
| "method_name (QReaddirplus a) = ''NfsProc.Nfsproc3_readdirplus_3_svc''"
| "method_name (QFsstat a) = ''NfsProc.Nfsproc3_fsstat_3_svc''"
| "method_name (QFsinfo a) = ''NfsProc.Nfsproc3_fsinfo_3_svc''"
| "method_name (QPathconf a) = ''NfsProc.Nfsproc3_pathconf_3_svc''"
| "method_name (QCommit a) = ''NfsProc.Nfsproc3_commit_3_svc''"
| "method_name (QMnt a) = ''NfsProc.Mountproc_mnt_3_svc''"
| "method_name (QUmnt a) = ''NfsProc.Mountproc_umnt_3_svc''"
| "method_name QExport = ''NfsProc.Mountproc_export_3_svc''"

definition Mount3ProcList :: "string list" where
  "Mount3ProcList =
     [''NfsProc.Mountproc_null_3_svc'', ''NfsProc.Mountproc_mnt_3_svc'', ''NfsProc.Mountproc_dump_3_svc'',
      ''NfsProc.Mountproc_umnt_3_svc'', ''NfsProc.Mountproc_umntall_3_svc'', ''NfsProc.Mountproc_export_3_svc'']"

definition Nfs3ProcList :: "string list" where
  "Nfs3ProcList =
     [''NfsProc.Nfsproc3_null_3_svc'', ''NfsProc.Nfsproc3_getattr_3_svc'', ''NfsProc.Nfsproc3_setattr_3_svc'',
      ''NfsProc.Nfsproc3_lookup_3_svc'', ''NfsProc.Nfsproc3_access_3_svc'', ''NfsProc.Nfsproc3_readlink_3_svc'',
      ''NfsProc.Nfsproc3_read_3_svc'', ''NfsProc.Nfsproc3_write_3_svc'', ''NfsProc.Nfsproc3_create_3_svc'',
      ''NfsProc.Nfsproc3_mkdir_3_svc'', ''NfsProc.Nfsproc3_symlink_3_svc'', ''NfsProc.Nfsproc3_mknod_3_svc'',
      ''NfsProc.Nfsproc3_remove_3_svc'', ''NfsProc.Nfsproc3_rmdir_3_svc'', ''NfsProc.Nfsproc3_rename_3_svc'',
      ''NfsProc.Nfsproc3_link_3_svc'', ''NfsProc.Nfsproc3_readdir_3_svc'', ''NfsProc.Nfsproc3_readdirplus_3_svc'',
      ''NfsProc.Nfsproc3_fsstat_3_svc'', ''NfsProc.Nfsproc3_fsinfo_3_svc'', ''NfsProc.Nfsproc3_pathconf_3_svc'',
      ''NfsProc.Nfsproc3_commit_3_svc'']"

end
