(* ===== verification/Nfs_Logic.thy ===== *)
theory Nfs_Logic
  imports Nfs_Backend
begin

text \<open>
  A small program logic for the handlers.  \<open>ends R I m \<Phi>\<close>: when everybody else keeps \<open>I\<close>, so does every action of \<open>m\<close>
  that is taken in a state of \<open>R\<close>, and \<open>m\<close> ends only with results in \<open>\<Phi>\<close>.  \<open>R\<close> says which states the run goes
  through, where that is known (a restriction of the runs, or the states that are reached), and is \<open>always\<close> otherwise.  One
  rule per construct of the handlers (\<open>inv_intro\<close>, after the rules for particular constructs, \<open>inv_first\<close>), so that a proof
  about a handler follows its text.
\<close>

named_theorems inv_first \<open>rules for particular constructs, tried before the general ones\<close>

primrec ends :: "('w srv \<Rightarrow> bool) \<Rightarrow> ('w srv \<Rightarrow> bool) \<Rightarrow> ('w, 'a) run \<Rightarrow> ('a \<Rightarrow> bool) \<Rightarrow> bool" where
  "ends R I (ret x) \<Phi> = \<Phi> x"
| "ends R I (crash c) \<Phi> = True"
| "ends R I (act u k) \<Phi> = (\<forall>s. R s \<longrightarrow> I s \<longrightarrow> I (u s) \<and> ends R I (k s) \<Phi>)"

abbreviation always :: "'w srv \<Rightarrow> bool" where
  "always \<equiv> \<lambda>_. True"

text \<open>The states in which a program that runs alone takes its actions.\<close>

primrec visited :: "('w, 'a) run \<Rightarrow> 'w srv \<Rightarrow> 'w srv set" where
  "visited (ret x) = (\<lambda>s. {})"
| "visited (crash c) = (\<lambda>s. {})"
| "visited (act u k) = (\<lambda>s. insert s (visited (k s) (u s)))"

lemma ends_exec:
  "ends R I m \<Phi> \<Longrightarrow> I s \<Longrightarrow> (\<And>r. r \<in> visited m s \<Longrightarrow> R r) \<Longrightarrow> exec m s = Inr (x, t) \<Longrightarrow> I t \<and> \<Phi> x"
  by (induction m arbitrary: s) auto

lemma endsD: "ends always I m \<Phi> \<Longrightarrow> I s \<Longrightarrow> exec m s = Inr (x, t) \<Longrightarrow> I t \<and> \<Phi> x"
  by (rule ends_exec) simp_all

lemma ends_weaken: "ends R I m \<Phi> \<Longrightarrow> (\<And>x. \<Phi> x \<Longrightarrow> \<Psi> x) \<Longrightarrow> ends R I m \<Psi>"
  by (induction m) auto

lemma ends_both:
  "ends R I m \<Phi> \<Longrightarrow> ends R J m \<Psi> \<Longrightarrow> (\<And>s. I s \<Longrightarrow> J s) \<Longrightarrow> ends R I m (\<lambda>x. \<Phi> x \<and> \<Psi> x)"
  by (induction m) auto

text \<open>With nothing to keep it is about the results.\<close>

lemma ends_results: "ends always (\<lambda>_. True) m \<Phi> \<longleftrightarrow> (\<forall>x \<in> results m. \<Phi> x)"
  by (induction m) auto

text \<open>One action.\<close>

lemma ends_act: "(\<And>s. R s \<Longrightarrow> I s \<Longrightarrow> I (u s) \<and> \<Phi> (v s)) \<Longrightarrow> ends R I (act u (\<lambda>s. ret (v s))) \<Phi>"
  by simp

lemma ends_ret [inv_intro]: "\<Phi> x \<Longrightarrow> ends R I (ret x) \<Phi>"
  by simp

lemma ends_crash [inv_intro]: "ends R I (crash c) \<Phi>"
  by simp

lemma ends_bind: "ends R I m \<Phi> \<Longrightarrow> (\<And>x. \<Phi> x \<Longrightarrow> ends R I (f x) \<Psi>) \<Longrightarrow> ends R I (bindR m f) \<Psi>"
  by (induction m) auto

lemma ends_bind_any [inv_intro]:
  "ends R I m (\<lambda>_. True) \<Longrightarrow> (\<And>x. ends R I (f x) \<Psi>) \<Longrightarrow> ends R I (bindR m f) \<Psi>"
  by (rule ends_bind)

lemma ends_liftG [inv_intro]: "(\<And>x. m = Inr x \<Longrightarrow> \<Phi> x) \<Longrightarrow> ends R I (liftG m) \<Phi>"
  by (cases m) (simp_all add: ends_ret ends_crash)

lemma ends_if [inv_intro]:
  "(b \<Longrightarrow> ends R I m \<Phi>) \<Longrightarrow> (\<not> b \<Longrightarrow> ends R I n \<Phi>) \<Longrightarrow> ends R I (if b then m else n) \<Phi>"
  by simp

lemma ends_unless [inv_first]:
  "(\<not> b \<Longrightarrow> ends R I m \<Phi>) \<Longrightarrow> (b \<Longrightarrow> ends R I n \<Phi>) \<Longrightarrow> ends R I (if \<not> b then m else n) \<Phi>"
  by simp

lemma ends_option [inv_intro]:
  "(x = None \<Longrightarrow> ends R I m \<Phi>) \<Longrightarrow> (\<And>y. x = Some y \<Longrightarrow> ends R I (n y) \<Phi>) \<Longrightarrow>
   ends R I (case x of None \<Rightarrow> m | Some y \<Rightarrow> n y) \<Phi>"
  by (cases x) simp_all

lemma ends_sum [inv_intro]:
  "(\<And>y. x = Inl y \<Longrightarrow> ends R I (m y) \<Phi>) \<Longrightarrow> (\<And>y. x = Inr y \<Longrightarrow> ends R I (n y) \<Phi>) \<Longrightarrow>
   ends R I (case x of Inl y \<Rightarrow> m y | Inr y \<Rightarrow> n y) \<Phi>"
  by (cases x) simp_all

lemma ends_prod [inv_intro]:
  "(\<And>a b. x = (a, b) \<Longrightarrow> ends R I (m a b) \<Phi>) \<Longrightarrow> ends R I (case x of (a, b) \<Rightarrow> m a b) \<Phi>"
  by (cases x) simp

lemma ends_getBE: "(\<And>s. R s \<Longrightarrow> I s \<Longrightarrow> \<Phi> (f (backend s))) \<Longrightarrow> ends R I (getBE f) \<Phi>"
  unfolding getBE_def by (rule ends_act) simp

lemma ends_getBE_any [inv_intro]: "ends R I (getBE f) (\<lambda>_. True)"
  by (rule ends_getBE) simp

lemma ends_modBE:
  "(\<And>s. R s \<Longrightarrow> I s \<Longrightarrow> I (s\<lparr>backend := f (backend s)\<rparr>)) \<Longrightarrow> ends R I (modBE f) (\<lambda>_. True)"
  unfolding modBE_def by (rule ends_act) simp

text \<open>A call to the operating system: what it gives, and what it does to an invariant of the world.\<close>

lemma ends_sys_result:
  assumes "\<And>s. R s \<Longrightarrow> I s \<Longrightarrow> I (s\<lparr>world := snd (f (world s))\<rparr>)" and "\<And>s. R s \<Longrightarrow> I s \<Longrightarrow> \<Phi> (fst (f (world s)))"
  shows "ends R I (sys f) \<Phi>"
  unfolding sys_def by (rule ends_act) (simp add: assms)

lemma ends_sys:
  "(\<And>s. R s \<Longrightarrow> I s \<Longrightarrow> I (s\<lparr>world := snd (f (world s))\<rparr>)) \<Longrightarrow> ends R I (sys f) (\<lambda>_. True)"
  by (rule ends_sys_result) simp_all

end
