(* ===== verification/Nfs_Inv.thy ===== *)
theory Nfs_Inv
  imports Nfs_Proc Nfs_Logic
begin

text \<open>
  What every request keeps.  The paths in the handle table stay below the export path, read as text
  (\<open>confined\<close>), the configuration does not change, and any property of the world that survives the calls
  the server is allowed to make (\<open>calls_keep\<close>) survives the request.  From this: a read-only server makes
  no call that changes the file system, and no call but \<^verbatim>\<open>rmdir\<close> leaves the export path, as text.
\<close>

section \<open>Paths below the export path\<close>

text \<open>\<open>root\<close> followed by names joined with slashes; a name may be \<open>.\<close> or \<open>..\<close>, which LOOKUP admits.\<close>

inductive confined :: "string \<Rightarrow> string \<Rightarrow> bool" for root where
  confined_root: "confined root root"
| confined_step: "confined root p \<Longrightarrow> name \<noteq> '''' \<Longrightarrow> \<not> ContainsSlash name \<Longrightarrow> confined root (p @ ''/'' @ name)"

lemma confined_plain: "confined root p \<Longrightarrow> plain_name name \<Longrightarrow> confined root (p @ ''/'' @ name)"
  using confined_step [of root p name] by (simp add: plain_name_def)

lemma confined_lookup:
  "confined root p \<Longrightarrow> name \<noteq> '''' \<Longrightarrow> \<not> ContainsSlash name \<Longrightarrow> confined root (lookup_name c p name)"
  using confined_step [of root p "''.''"] confined_step [of root p name]
  by (auto simp: lookup_name_def ContainsSlash_def)

lemma confined_dots: "confined root p \<Longrightarrow> confined root (p @ ''/'' @ ''.'')" "confined root p \<Longrightarrow> confined root (p @ ''/'' @ ''..'')"
  by (rule confined_step; simp add: ContainsSlash_def)+

lemma confined_prefix: "confined root p \<Longrightarrow> \<exists>rest. p = root @ rest"
  by (induction rule: confined.induct) auto

section \<open>The calls a server makes\<close>

text \<open>
  \<open>P\<close> survives the calls that look: at confined paths, and at open files.  \<open>P\<close> survives the calls that change the
  file system: at confined paths, and \<^verbatim>\<open>rmdir\<close> at a confined path, a slash and any string, because
  \<open>rmdir_guard\<close> lets every name through.
\<close>

definition reads_keep :: "'w os \<Rightarrow> string \<Rightarrow> ('w \<Rightarrow> bool) \<Rightarrow> bool" where
  "reads_keep os root P \<longleftrightarrow>
     (\<forall>p w. confined root p \<longrightarrow> P w \<longrightarrow> P (snd (Lstat os p w)) \<and> P (snd (Statfs os p w)) \<and>
        P (snd (Readlink_sys os p w)) \<and> P (snd (OpenFile os p O_RDONLY 0 w))) \<and>
     (\<forall>f w. P w \<longrightarrow> P (snd (Readdir os f w)) \<and> P (snd (CloseFile os f w)) \<and>
        (\<forall>n off. P (snd (ReadAt os f n off w))))"

definition updates_keep :: "'w os \<Rightarrow> string \<Rightarrow> ('w \<Rightarrow> bool) \<Rightarrow> bool" where
  "updates_keep os root P \<longleftrightarrow>
     (\<forall>p w. confined root p \<longrightarrow> P w \<longrightarrow>
        (\<forall>flags perm. P (snd (OpenFile os p flags perm w))) \<and> (\<forall>perm. P (snd (Mkdir_sys os p perm w))) \<and>
        (\<forall>q. confined root q \<longrightarrow> P (snd (Rename_sys os p q w)) \<and> P (snd (Link_sys os p q w))) \<and>
        (\<forall>n. P (snd (Truncate os p n w))) \<and> (\<forall>m. P (snd (Chmod os p m w))) \<and>
        (\<forall>a m. P (snd (Chtimes os p a m w))) \<and> P (snd (Unlink os p w)) \<and>
        (\<forall>name. P (snd (Rmdir_sys os (p @ ''/'' @ name) w))) \<and>
        (\<forall>target. P (snd (Symlink_sys os target p w)))) \<and>
     (\<forall>f w. P w \<longrightarrow> P (snd (Fsync os f w)) \<and> (\<forall>data off. P (snd (WriteAt os f data off w))))"

definition srv_inv :: "configOptions \<Rightarrow> ('w \<Rightarrow> bool) \<Rightarrow> 'w srv \<Rightarrow> bool" where
  "srv_inv c P s \<longleftrightarrow> config (backend s) = c \<and> P (world s) \<and>
     (\<forall>h p. fhandleMap (backend s) h = Some p \<longrightarrow> confined (exportPath c) p)"

text \<open>The world may be looked at always, and changed when the export is writable.\<close>

definition calls_keep :: "'w os \<Rightarrow> configOptions \<Rightarrow> ('w \<Rightarrow> bool) \<Rightarrow> bool" where
  "calls_keep os c P \<longleftrightarrow> reads_keep os (exportPath c) P \<and> (writeaccess c \<longrightarrow> updates_keep os (exportPath c) P)"

section \<open>The steps\<close>

lemma getValue_inv [inv_first]:
  "ends always (srv_inv c P) m \<Psi> \<Longrightarrow> (\<And>p. confined (exportPath c) p \<Longrightarrow> ends always (srv_inv c P) (n p) \<Psi>) \<Longrightarrow>
   ends always (srv_inv c P) (bindR (getValuefromHandle h) (\<lambda>found. case found of None \<Rightarrow> m | Some p \<Rightarrow> n p)) \<Psi>"
  unfolding getValuefromHandle_def
  by (rule ends_bind [where \<Phi> = "\<lambda>v. \<forall>p. v = Some p \<longrightarrow> confined (exportPath c) p"], rule ends_getBE)
    (auto simp: srv_inv_def split: option.split)

lemma setValue_inv [inv_intro]:
  "confined (exportPath c) p \<Longrightarrow> ends always (srv_inv c P) (setValueforHandle h p) (\<lambda>_. True)"
  unfolding setValueforHandle_def by (rule ends_modBE) (auto simp: srv_inv_def)

lemma deleteHandle_inv [inv_intro]: "ends always (srv_inv c P) (deleteHandle h) (\<lambda>_. True)"
  unfolding deleteHandle_def by (rule ends_modBE) (auto simp: srv_inv_def)

lemma config_inv [inv_first]:
  "ends always (srv_inv c P) (f c) \<Psi> \<Longrightarrow> ends always (srv_inv c P) (bindR (getBE config) f) \<Psi>"
  by (rule ends_bind [where \<Phi> = "\<lambda>x. x = c"], rule ends_getBE) (auto simp: srv_inv_def)

lemma writeaccess_inv [inv_first]:
  "ends always (srv_inv c P) (f (writeaccess c)) \<Psi> \<Longrightarrow> ends always (srv_inv c P) (bindR (getBE (\<lambda>be. writeaccess (config be))) f) \<Psi>"
  by (rule ends_bind [where \<Phi> = "\<lambda>x. x = writeaccess c"], rule ends_getBE) (auto simp: srv_inv_def)

lemma sys_inv: "(\<And>w. P w \<Longrightarrow> P (snd (f w))) \<Longrightarrow> ends always (srv_inv c P) (sys f) (\<lambda>_. True)"
  by (rule ends_sys) (auto simp: srv_inv_def)

lemma read_calls [inv_intro]:
  assumes "calls_keep os c P"
  shows "confined (exportPath c) p \<Longrightarrow> ends always (srv_inv c P) (sys (Lstat os p)) (\<lambda>_. True)"
    "confined (exportPath c) p \<Longrightarrow> ends always (srv_inv c P) (sys (Statfs os p)) (\<lambda>_. True)"
    "confined (exportPath c) p \<Longrightarrow> ends always (srv_inv c P) (sys (Readlink_sys os p)) (\<lambda>_. True)"
    "confined (exportPath c) p \<Longrightarrow> ends always (srv_inv c P) (sys (OpenFile os p O_RDONLY 0)) (\<lambda>_. True)"
    "ends always (srv_inv c P) (sys (Readdir os f)) (\<lambda>_. True)"
    "ends always (srv_inv c P) (sys (CloseFile os f)) (\<lambda>_. True)"
    "ends always (srv_inv c P) (sys (ReadAt os f n off)) (\<lambda>_. True)"
  using assms by (auto simp: calls_keep_def reads_keep_def intro!: sys_inv)

lemma update_calls [inv_intro]:
  assumes "calls_keep os c P" and "writeaccess c"
  shows "confined (exportPath c) p \<Longrightarrow> ends always (srv_inv c P) (sys (OpenFile os p flags perm)) (\<lambda>_. True)"
    "confined (exportPath c) p \<Longrightarrow> ends always (srv_inv c P) (sys (Mkdir_sys os p perm)) (\<lambda>_. True)"
    "confined (exportPath c) p \<Longrightarrow> confined (exportPath c) q \<Longrightarrow> ends always (srv_inv c P) (sys (Rename_sys os p q)) (\<lambda>_. True)"
    "confined (exportPath c) p \<Longrightarrow> confined (exportPath c) q \<Longrightarrow> ends always (srv_inv c P) (sys (Link_sys os p q)) (\<lambda>_. True)"
    "confined (exportPath c) p \<Longrightarrow> ends always (srv_inv c P) (sys (Truncate os p n)) (\<lambda>_. True)"
    "confined (exportPath c) p \<Longrightarrow> ends always (srv_inv c P) (sys (Chmod os p m)) (\<lambda>_. True)"
    "confined (exportPath c) p \<Longrightarrow> ends always (srv_inv c P) (sys (Chtimes os p at mt)) (\<lambda>_. True)"
    "confined (exportPath c) p \<Longrightarrow> ends always (srv_inv c P) (sys (Unlink os p)) (\<lambda>_. True)"
    "confined (exportPath c) p \<Longrightarrow> ends always (srv_inv c P) (sys (Rmdir_sys os (p @ ''/'' @ name))) (\<lambda>_. True)"
    "confined (exportPath c) p \<Longrightarrow> ends always (srv_inv c P) (sys (Symlink_sys os target p)) (\<lambda>_. True)"
    "ends always (srv_inv c P) (sys (Fsync os f)) (\<lambda>_. True)"
    "ends always (srv_inv c P) (sys (WriteAt os f data off)) (\<lambda>_. True)"
  using assms by (auto simp: calls_keep_def updates_keep_def intro!: sys_inv)

lemma getFileAttr_inv [inv_intro]:
  "calls_keep os c P \<Longrightarrow> confined (exportPath c) p \<Longrightarrow> ends always (srv_inv c P) (getFileAttrFromPath os p fattr) (\<lambda>_. True)"
  unfolding getFileAttrFromPath_def Let_def
  by (rule inv_first inv_intro | blast)+

lemma poststat_inv [inv_intro]:
  "calls_keep os c P \<Longrightarrow> confined (exportPath c) p \<Longrightarrow> ends always (srv_inv c P) (poststat os clear p h a) (\<lambda>_. True)"
  unfolding poststat_def Let_def
  by (rule inv_first inv_intro | blast)+

lemma registerHandle_inv [inv_intro]:
  "calls_keep os c P \<Longrightarrow> confined (exportPath c) p \<Longrightarrow> ends always (srv_inv c P) (registerHandle os p fattr) (\<lambda>_. True)"
  unfolding registerHandle_def Let_def
  by (rule inv_first inv_intro | blast)+

lemma with_file_inv [inv_intro]:
  "calls_keep os c P \<Longrightarrow> ends always (srv_inv c P) m (\<lambda>_. True) \<Longrightarrow> ends always (srv_inv c P) (with_file os f m) (\<lambda>_. True)"
  unfolding with_file_def Let_def
  by (rule inv_first inv_intro | blast)+

lemma on_object_inv [inv_intro]:
  "calls_keep os c P \<Longrightarrow>
   (\<And>p r. confined (exportPath c) p \<Longrightarrow> ends always (srv_inv c P) (body p r) (\<lambda>_. True)) \<Longrightarrow>
   ends always (srv_inv c P) (on_object os h get put reply body) (\<lambda>_. True)"
  unfolding on_object_def Let_def
  by (rule inv_first inv_intro | blast)+

lemma fail_after_inv [inv_intro]:
  "calls_keep os c P \<Longrightarrow> confined (exportPath c) p \<Longrightarrow> ends always (srv_inv c P) (fail_after os clear p h st reply) (\<lambda>_. True)"
  unfolding fail_after_def Let_def
  by (rule inv_first inv_intro | blast)+

lemma ok_after_inv [inv_intro]:
  "calls_keep os c P \<Longrightarrow> confined (exportPath c) p \<Longrightarrow> ends always (srv_inv c P) (ok_after os clear p h get okw st reply) (\<lambda>_. True)"
  unfolding ok_after_def Let_def
  by (rule inv_first inv_intro | blast)+

lemma on_writable_inv [inv_intro]:
  "calls_keep os c P \<Longrightarrow>
   (\<And>p fa r. writeaccess c \<Longrightarrow> confined (exportPath c) p \<Longrightarrow> ends always (srv_inv c P) (body p fa r) (\<lambda>_. True)) \<Longrightarrow>
   ends always (srv_inv c P) (on_writable os h okw reply body) (\<lambda>_. True)"
  unfolding on_writable_def Let_def
  by (rule inv_first inv_intro | blast)+

lemma created_inv [inv_intro]:
  "calls_keep os c P \<Longrightarrow> confined (exportPath c) p \<Longrightarrow> confined (exportPath c) n \<Longrightarrow>
   ends always (srv_inv c P) (created os a b p h n failed reply) (\<lambda>_. True)"
  unfolding created_def Let_def
  by (rule inv_first inv_intro | blast)+

section \<open>The handlers\<close>

lemma getValue_any [inv_intro]: "ends always (srv_inv c P) (getValuefromHandle h) (\<lambda>_. True)"
  unfolding getValuefromHandle_def by (rule ends_getBE_any)

lemma dots_inv [inv_intro]:
  "calls_keep os c P \<Longrightarrow> confined (exportPath c) p \<Longrightarrow> ends always (srv_inv c P) (getDotAndDotDot os p) (\<lambda>_. True)"
  unfolding getDotAndDotDot_def by (rule inv_first inv_intro | blast intro: confined_dots)+

lemma query_inv [inv_intro]:
  assumes "calls_keep os c P"
  shows "ends always (srv_inv c P) (GetFileAttr os h fa) (\<lambda>_. True)"
    and "ends always (srv_inv c P) (GetFileSysInfo os h r1) (\<lambda>_. True)"
    and "ends always (srv_inv c P) (GetFileSystemAttr os h r2) (\<lambda>_. True)"
    and "ends always (srv_inv c P) (GetPathConf os h r3) (\<lambda>_. True)"
    and "ends always (srv_inv c P) (Lookup os h name r4) (\<lambda>_. True)"
    and "ends always (srv_inv c P) (ReadDir os h cookie n r5) (\<lambda>_. True)"
    and "ends always (srv_inv c P) (ReadDirPlus os h r6) (\<lambda>_. True)"
    and "ends always (srv_inv c P) (Access os h acc r7) (\<lambda>_. True)"
    and "ends always (srv_inv c P) (Read os h off n r8) (\<lambda>_. True)"
    and "ends always (srv_inv c P) (Commit os h r9) (\<lambda>_. True)"
    and "ends always (srv_inv c P) (ReadLink os h r10) (\<lambda>_. True)"
  unfolding GetFileAttr_def GetFileSysInfo_def GetFileSystemAttr_def GetPathConf_def Lookup_def ReadDir_def readdir_open_def
    ReadDirPlus_def Access_def Read_def read_open_def Commit_def ReadLink_def Let_def
  by (rule assms inv_first inv_intro | blast intro: confined_lookup assms)+

lemma set_step_inv [inv_intro]:
  "(wanted \<Longrightarrow> ends always (srv_inv c P) (sys call) (\<lambda>_. True)) \<Longrightarrow> ends always (srv_inv c P) rest (\<lambda>_. True) \<Longrightarrow>
   ends always (srv_inv c P) (set_step wanted call rest) (\<lambda>_. True)"
  unfolding set_step_def by (rule inv_first inv_intro | blast)+

lemma silly_rename_inv [inv_intro]:
  "calls_keep os c P \<Longrightarrow> confined (exportPath c) q \<Longrightarrow>
   ends always (srv_inv c P) (silly_rename os name p q fa) (\<lambda>_. True)"
  unfolding silly_rename_def Let_def by (rule inv_first inv_intro | blast)+

lemma after_both_inv [inv_intro]:
  "calls_keep os c P \<Longrightarrow> confined (exportPath c) p \<Longrightarrow> confined (exportPath c) q \<Longrightarrow>
   ends always (srv_inv c P) (after_both os p h q h' r) (\<lambda>_. True)"
  "calls_keep os c P \<Longrightarrow> confined (exportPath c) p \<Longrightarrow> confined (exportPath c) q \<Longrightarrow>
   ends always (srv_inv c P) (after_link os p h q h' r') (\<lambda>_. True)"
  unfolding after_both_def after_link_def by (rule inv_first inv_intro | blast)+

lemma one_dir_inv [inv_intro]:
  "calls_keep os c P \<Longrightarrow> ends always (srv_inv c P) (rename_to_only os h fa r1) (\<lambda>_. True)"
  "calls_keep os c P \<Longrightarrow> confined (exportPath c) p \<Longrightarrow> ends always (srv_inv c P) (rename_from_only os p h r2) (\<lambda>_. True)"
  "calls_keep os c P \<Longrightarrow> ends always (srv_inv c P) (link_old_only os h r3) (\<lambda>_. True)"
  "calls_keep os c P \<Longrightarrow> confined (exportPath c) p \<Longrightarrow> ends always (srv_inv c P) (link_dir_only os p h r4) (\<lambda>_. True)"
  unfolding rename_to_only_def rename_from_only_def link_old_only_def link_dir_only_def
  by (rule inv_first inv_intro | blast)+

lemma update_inv [inv_intro]:
  assumes "calls_keep os c P"
  shows "ends always (srv_inv c P) (Mkdir os h name sa r1) (\<lambda>_. True)"
    and "ends always (srv_inv c P) (Create os h name how r2) (\<lambda>_. True)"
    and "ends always (srv_inv c P) (SymLink os h name target sa r3) (\<lambda>_. True)"
    and "ends always (srv_inv c P) (Setattr os h sa guard r4) (\<lambda>_. True)"
    and "ends always (srv_inv c P) (Write os h off n st data r5) (\<lambda>_. True)"
    and "ends always (srv_inv c P) (Remove os h name r6) (\<lambda>_. True)"
    and "ends always (srv_inv c P) (Rmdir os h name r7) (\<lambda>_. True)"
    and "ends always (srv_inv c P) (Rename os h name h' name' r8) (\<lambda>_. True)"
    and "ends always (srv_inv c P) (Link os h h' name r9) (\<lambda>_. True)"
  unfolding Mkdir_def Create_def SymLink_def Setattr_def set_attributes_def Write_def write_open_def Remove_def Rmdir_def
    Rename_def Link_def Let_def
  by (rule assms inv_first inv_intro | blast intro: confined_plain confined_step assms)+

lemma mount_inv [inv_intro]:
  "ends always (srv_inv c P) (Mount path r1) (\<lambda>_. True)"
  "ends always (srv_inv c P) (UnMount path) (\<lambda>_. True)"
  "ends always (srv_inv c P) (ExportedMountPoint r2) (\<lambda>_. True)"
  unfolding Mount_def UnMount_def ExportedMountPoint_def Let_def
  by (rule inv_first inv_intro | simp add: confined_root)+

section \<open>Requests\<close>

lemma mapR_ends [inv_intro]: "ends R I m (\<lambda>_. True) \<Longrightarrow> ends R I (mapR f m) (\<lambda>_. True)"
  unfolding mapR_def by (rule inv_intro | blast)+

lemma with_status_ends [inv_intro]: "ends R I m (\<lambda>_. True) \<Longrightarrow> ends R I (with_status m) (\<lambda>_. True)"
  unfolding with_status_def by (rule inv_intro | blast)+

lemmas svc_defs = handle_def Nfsproc3_getattr_3_svc_def Nfsproc3_setattr_3_svc_def Nfsproc3_lookup_3_svc_def
  Nfsproc3_access_3_svc_def Nfsproc3_readlink_3_svc_def Nfsproc3_read_3_svc_def Nfsproc3_write_3_svc_def
  Nfsproc3_create_3_svc_def Nfsproc3_mkdir_3_svc_def Nfsproc3_symlink_3_svc_def Nfsproc3_mknod_3_svc_def
  Nfsproc3_remove_3_svc_def Nfsproc3_rmdir_3_svc_def Nfsproc3_rename_3_svc_def Nfsproc3_link_3_svc_def
  Nfsproc3_readdir_3_svc_def Nfsproc3_readdirplus_3_svc_def Nfsproc3_fsstat_3_svc_def Nfsproc3_fsinfo_3_svc_def
  Nfsproc3_pathconf_3_svc_def Nfsproc3_commit_3_svc_def Mountproc_mnt_3_svc_def Mountproc_umnt_3_svc_def
  Mountproc_export_3_svc_def

lemma serve_inv: "calls_keep os c P \<Longrightarrow> ends always (srv_inv c P) (serve os req) (\<lambda>_. True)"
  by (cases req; simp only: serve.simps svc_defs; (rule inv_first inv_intro | blast)+)

end
