(* ===== verification/Nfs_System.thy ===== *)
theory Nfs_System
  imports Nfs_Inv "HOL-Library.Multiset"
begin

text \<open>
  The server as a state machine: it starts with the configuration of \<^verbatim>\<open>main\<close> and serves requests, each in its own goroutine,
  while other processes may change the world.  \<open>pool_step\<close> lets the goroutines act in any order; \<open>srv_step\<close> serves
  one request after the other.  Invariants of the actions become invariants of every run.
\<close>

section \<open>Runs\<close>

definition started :: "'w os \<Rightarrow> string \<Rightarrow> string \<Rightarrow> bool \<Rightarrow> u64 \<Rightarrow> 'w \<Rightarrow> 'w srv \<Rightarrow> bool" where
  "started os path addr wa now w s \<longleftrightarrow>
     exec (BackendConfigSetup os path addr wa) \<lparr>backend = newBackend now, world = w\<rparr> = Inr (None, s)"

text \<open>The calls in progress, each the request and what its goroutine has still to do, and the state they share.\<close>

type_synonym 'w calls = "(nfs_request \<times> ('w, nfs_reply) run) multiset"

inductive pool_step ::
  "'w os \<Rightarrow> (nfs_request \<Rightarrow> bool) \<Rightarrow> ('w \<Rightarrow> 'w \<Rightarrow> bool) \<Rightarrow> 'w calls \<times> 'w srv \<Rightarrow> 'w calls \<times> 'w srv \<Rightarrow> bool"
  for os allowed env where
  arrive: "allowed r \<Longrightarrow> pool_step os allowed env (M, s) (add_mset (r, serve os r) M, s)"
| action: "pool_step os allowed env (add_mset (r, act u k) M, s) (add_mset (r, k s) M, u s)"
| leave: "pool_step os allowed env (add_mset (r, ret x) M, s) (M, s)"
| environment: "env (world s) w \<Longrightarrow> pool_step os allowed env (M, s) (M, s\<lparr>world := w\<rparr>)"

text \<open>One request after the other.\<close>

inductive srv_step :: "'w os \<Rightarrow> ('w \<Rightarrow> 'w \<Rightarrow> bool) \<Rightarrow> 'w srv \<Rightarrow> 'w srv \<Rightarrow> bool" for os env where
  request: "exec (serve os req) s = Inr (reply, s') \<Longrightarrow> srv_step os env s s'"
| environment: "env (world s) w \<Longrightarrow> srv_step os env s (s\<lparr>world := w\<rparr>)"

section \<open>Invariants and simulations\<close>

locale kept_by =
  fixes step :: "'s \<Rightarrow> 's \<Rightarrow> bool" and I :: "'s \<Rightarrow> bool"
  assumes step_keeps: "I s \<Longrightarrow> step s t \<Longrightarrow> I t"
begin

lemma run_keeps: "step\<^sup>*\<^sup>* s t \<Longrightarrow> I s \<Longrightarrow> I t"
  by (induction rule: rtranclp_induct) (auto intro: step_keeps)

end

locale simulation =
  fixes step :: "'s \<Rightarrow> 's \<Rightarrow> bool" and astep :: "'a \<Rightarrow> 'a \<Rightarrow> bool" and abs :: "'s \<Rightarrow> 'a"
  assumes simulates: "step s t \<Longrightarrow> astep\<^sup>*\<^sup>* (abs s) (abs t)"
begin

lemma runs_simulate: "step\<^sup>*\<^sup>* s t \<Longrightarrow> astep\<^sup>*\<^sup>* (abs s) (abs t)"
  by (induction rule: rtranclp_induct) (auto dest: simulates)

lemma abstract_invariant:
  assumes "step\<^sup>*\<^sup>* s t" and "J (abs s)" and "\<And>a b. J a \<Longrightarrow> astep a b \<Longrightarrow> J b"
  shows "J (abs t)"
  using runs_simulate [OF assms(1)] by (induction rule: rtranclp_induct) (auto intro: assms(2,3))

end

text \<open>
  An invariant the actions of all requests keep, and what the requests then end with: in every run, or in a run whose
  states are all in \<open>R\<close>.
\<close>

definition pool_inv ::
  "'w os \<Rightarrow> (nfs_request \<Rightarrow> bool) \<Rightarrow> ('w \<Rightarrow> 'w \<Rightarrow> bool) \<Rightarrow> ('w srv \<Rightarrow> bool) \<Rightarrow> ('w srv \<Rightarrow> bool) \<Rightarrow>
   (nfs_request \<Rightarrow> nfs_reply \<Rightarrow> bool) \<Rightarrow> 'w calls \<times> 'w srv \<Rightarrow> bool" where
  "pool_inv os allowed env R I \<Phi> p \<longleftrightarrow>
     (\<forall>r. allowed r \<longrightarrow> ends R I (serve os r) (\<Phi> r)) \<and> (\<forall>s w. env (world s) w \<longrightarrow> I s \<longrightarrow> I (s\<lparr>world := w\<rparr>)) \<and>
     I (snd p) \<and> (\<forall>(r, m) \<in># fst p. ends R I m (\<Phi> r))"

interpretation pool: kept_by "\<lambda>p q. pool_step os allowed env p q \<and> R (snd p)" "pool_inv os allowed env R I \<Phi>"
proof unfold_locales
  fix p q
  assume "pool_inv os allowed env R I \<Phi> p" and "pool_step os allowed env p q \<and> R (snd p)"
  then have "pool_step os allowed env p q" "R (snd p)" "pool_inv os allowed env R I \<Phi> p" by simp_all
  then show "pool_inv os allowed env R I \<Phi> q"
    by (cases rule: pool_step.cases) (auto simp: pool_inv_def)
qed

lemma pool_run_in:
  assumes "(\<lambda>p q. pool_step os allowed env p q \<and> R (snd p))\<^sup>*\<^sup>* ({#}, s) (M, t)" and "I s"
    and "\<And>r. allowed r \<Longrightarrow> ends R I (serve os r) (\<Phi> r)"
    and "\<And>s w. env (world s) w \<Longrightarrow> I s \<Longrightarrow> I (s\<lparr>world := w\<rparr>)"
  shows "I t" and "(r, m) \<in># M \<Longrightarrow> ends R I m (\<Phi> r)"
  using pool.run_keeps [OF assms(1), of I \<Phi>] assms(2-4) by (auto simp: pool_inv_def)

lemma pool_run:
  assumes "(pool_step os allowed env)\<^sup>*\<^sup>* ({#}, s) (M, t)" and "I s"
    and "\<And>r. allowed r \<Longrightarrow> ends always I (serve os r) (\<Phi> r)"
    and "\<And>s w. env (world s) w \<Longrightarrow> I s \<Longrightarrow> I (s\<lparr>world := w\<rparr>)"
  shows "I t" and "(r, m) \<in># M \<Longrightarrow> ends always I m (\<Phi> r)"
proof -
  have run: "(\<lambda>p q. pool_step os allowed env p q \<and> always (snd p))\<^sup>*\<^sup>* ({#}, s) (M, t)" using assms(1) by simp
  show "I t" by (rule pool_run_in(1) [OF run assms(2,3,4)])
  show "(r, m) \<in># M \<Longrightarrow> ends always I m (\<Phi> r)" by (rule pool_run_in(2) [OF run assms(2,3,4)])
qed

text \<open>The states a run reaches are such a restriction.\<close>

definition reached :: "'w os \<Rightarrow> (nfs_request \<Rightarrow> bool) \<Rightarrow> ('w \<Rightarrow> 'w \<Rightarrow> bool) \<Rightarrow> 'w srv \<Rightarrow> 'w srv \<Rightarrow> bool" where
  "reached os allowed env s t \<longleftrightarrow> (\<exists>M. (pool_step os allowed env)\<^sup>*\<^sup>* ({#}, s) (M, t))"

lemma run_reached:
  "(pool_step os allowed env)\<^sup>*\<^sup>* ({#}, s) p \<Longrightarrow>
   (\<lambda>p q. pool_step os allowed env p q \<and> reached os allowed env s (snd p))\<^sup>*\<^sup>* ({#}, s) p"
proof (induction rule: rtranclp_induct)
  case (step p q)
  then have "reached os allowed env s (snd p)" unfolding reached_def by (metis surjective_pairing)
  with step show ?case by (auto intro: rtranclp.rtrancl_into_rtrancl)
qed simp

text \<open>Requests one after the other are one of the ways.\<close>

lemma exec_runs:
  "exec m s = Inr (x, t) \<Longrightarrow> (pool_step os allowed env)\<^sup>*\<^sup>* (add_mset (r, m) M, s) (add_mset (r, ret x) M, t)"
proof (induction m arbitrary: s)
  case (act u k)
  have "pool_step os allowed env (add_mset (r, act u k) M, s) (add_mset (r, k s) M, u s)"
    by (rule pool_step.action)
  also have "(pool_step os allowed env)\<^sup>*\<^sup>* (add_mset (r, k s) M, u s) (add_mset (r, ret x) M, t)"
    using act by simp
  finally show ?case .
qed simp_all

interpretation sequential: simulation "srv_step os env" "pool_step os (\<lambda>_. True) env" "\<lambda>s. ({#}, s)"
proof unfold_locales
  fix s t
  assume "srv_step os env s t"
  then show "(pool_step os (\<lambda>_. True) env)\<^sup>*\<^sup>* ({#}, s) ({#}, t)"
  proof (cases rule: srv_step.cases)
    case (request req reply)
    have "pool_step os (\<lambda>_. True) env ({#}, s) ({#(req, serve os req)#}, s)" by (rule pool_step.arrive) simp
    also note exec_runs [OF request]
    also have "pool_step os (\<lambda>_. True) env ({#(req, ret reply)#}, t) ({#}, t)" by (rule pool_step.leave)
    finally show ?thesis .
  qed (auto intro: pool_step.environment)
qed

definition env_keeps :: "('w \<Rightarrow> 'w \<Rightarrow> bool) \<Rightarrow> ('w \<Rightarrow> bool) \<Rightarrow> bool" where
  "env_keeps env P \<longleftrightarrow> (\<forall>w w'. env w w' \<longrightarrow> P w \<longrightarrow> P w')"

lemma started_config:
  assumes "started os path addr wa now w s" and "reads_keep os path P" and "P w"
  shows "srv_inv (config (backend s)) P s" and "exportPath (config (backend s)) = path"
    and "writeaccess (config (backend s)) = wa" and "fhandleMap (backend s) = Map.empty"
proof -
  obtain r w' where r: "Lstat os path w = (r, w')" by (cases "Lstat os path w")
  from assms(2,3) have P: "P w'"
    using r confined_root [of path] by (force simp: reads_keep_def)
  obtain fi where fi: "r = Inr fi" and ok: "snd (fill_fattr fi zero_fattr) = None"
    and d: "FType (fst (fill_fattr fi zero_fattr)) = NF3DIR"
    using assms(1) r
    by (cases r) (auto simp: started_def BackendConfigSetup_def getFileAttrFromPath_def run_defs
        split: sum.splits option.splits if_splits prod.splits)
  have s: "s = \<lparr>backend = (newBackend now)\<lparr>config := \<lparr>exportPath = path, exportPathFid = Fileid (fst (fill_fattr fi zero_fattr)),
      exportPathFsid = Fsid (fst (fill_fattr fi zero_fattr)), allowAddr = addr, writeaccess = wa\<rparr>\<rparr>, world = w'\<rparr>"
    using assms(1) r fi ok d
    by (auto simp: started_def BackendConfigSetup_def getFileAttrFromPath_def run_defs split: prod.splits)
  show "srv_inv (config (backend s)) P s" "exportPath (config (backend s)) = path"
    "writeaccess (config (backend s)) = wa" "fhandleMap (backend s) = Map.empty"
    using P by (simp_all add: s srv_inv_def newBackend_def)
qed

lemma calls_keep_config:
  "exportPath c = path \<Longrightarrow> reads_keep os path P \<Longrightarrow> (writeaccess c \<longrightarrow> updates_keep os path P) \<Longrightarrow> calls_keep os c P"
  by (simp add: calls_keep_def)

section \<open>A toy operating system\<close>

text \<open>
  For the witnesses: a file system with the directories \<^verbatim>\<open>/d\<close>, \<^verbatim>\<open>/d/.\<close>, \<^verbatim>\<open>/d/s\<close> and the file \<^verbatim>\<open>/d/f\<close> that never
  changes; the world is the log of the calls.
\<close>

datatype event = Looked string | Changed string | Rmdired string | OnFile

definition toy_mode :: "string \<Rightarrow> u32 option" where
  "toy_mode p = (if p \<in> {''/d'', ''/d/.'', ''/d/s'', ''/d/s/.'', ''/d/s/..'', ''/d/./..'', ''/d/..''} then Some (ModeDir OR 0x1ED)
     else if p = ''/d/f'' then Some 0x1A4 else None)"

definition toy_stat :: "string \<Rightarrow> oserror + FileInfo" where
  "toy_stat p = (case toy_mode p of
     None \<Rightarrow> Inl (PathError (Errno ENOENT))
   | Some m \<Rightarrow> Inr \<lparr>FiName = drop 3 p, FiSize = 5, FiMode = m, FiSys = Some \<lparr>StNlink = 1, StUid = 7, StGid = 7,
       StBlocks = 1, StRdev = 0, StDev = 1, StIno = of_nat (length p), AtimSec = 0, AtimNsec = 0, MtimSec = 0,
       MtimNsec = 0, CtimSec = 9, CtimNsec = 0\<rparr>\<rparr>)"

definition toy_os :: "event list os" where
  "toy_os = \<lparr>
     Lstat = (\<lambda>p w. (toy_stat p, w @ [Looked p])),
     Statfs = (\<lambda>p w. (Inl (Errno ENOSYS), w @ [Looked p])),
     OpenFile = (\<lambda>p flags perm w. (Inr 3, w @ [if flags = O_RDONLY then Looked p else Changed p])),
     Readdir = (\<lambda>f w. (case (toy_stat ''/d/f'', toy_stat ''/d/s'') of (Inr a, Inr b) \<Rightarrow> Inr [a, b] | _ \<Rightarrow> Inr [], w @ [OnFile])),
     ReadAt = (\<lambda>f n off w. ((take n [104, 101, 108, 108, 111], Some OsEOF), w @ [OnFile])),
     WriteAt = (\<lambda>f data off w. ((length data, None), w @ [OnFile])),
     Fsync = (\<lambda>f w. (None, w @ [OnFile])),
     CloseFile = (\<lambda>f w. (None, w @ [OnFile])),
     Mkdir_sys = (\<lambda>p perm w. (None, w @ [Changed p])),
     Rename_sys = (\<lambda>p q w. (None, w @ [Changed p, Changed q])),
     Truncate = (\<lambda>p n w. (None, w @ [Changed p])),
     Chmod = (\<lambda>p m w. (None, w @ [Changed p])),
     Chtimes = (\<lambda>p a m w. (None, w @ [Changed p])),
     Unlink = (\<lambda>p w. (None, w @ [Changed p])),
     Rmdir_sys = (\<lambda>p w. (None, w @ [Rmdired p])),
     Link_sys = (\<lambda>p q w. (None, w @ [Changed p, Changed q])),
     Symlink_sys = (\<lambda>t p w. (None, w @ [Changed p])),
     Readlink_sys = (\<lambda>p w. (Inl (PathError (Errno EINVAL)), w @ [Looked p])),
     Geteuid = 7, Getegid = 7\<rparr>"

text \<open>The server on \<^verbatim>\<open>/d\<close>, after a client has mounted it.\<close>

definition toy_config :: "bool \<Rightarrow> configOptions" where
  "toy_config wa = \<lparr>exportPath = ''/d'', exportPathFid = 2, exportPathFsid = 1, allowAddr = ''all'', writeaccess = wa\<rparr>"

definition toy_started :: "bool \<Rightarrow> event list srv" where
  "toy_started wa = \<lparr>backend = (newBackend 1)\<lparr>config := toy_config wa\<rparr>, world = [Looked ''/d'']\<rparr>"

definition toy_root :: u64 where
  "toy_root = mount_handle (toy_config True) ''/d''"

definition toy_mounted :: "bool \<Rightarrow> event list srv" where
  "toy_mounted wa = (toy_started wa)\<lparr>backend := (backend (toy_started wa))\<lparr>fhandleMap := [toy_root \<mapsto> ''/d'']\<rparr>\<rparr>"

definition confined_events :: "string \<Rightarrow> event list \<Rightarrow> bool" where
  "confined_events root w \<longleftrightarrow> (\<forall>p. Looked p \<in> set w \<or> Changed p \<in> set w \<longrightarrow> confined root p)"

definition unchanged :: "event list \<Rightarrow> bool" where
  "unchanged w \<longleftrightarrow> (\<forall>p. Changed p \<notin> set w \<and> Rmdired p \<notin> set w)"

lemma toy_reads: "reads_keep toy_os root (confined_events root)" "reads_keep toy_os root unchanged"
  by (auto simp: reads_keep_def toy_os_def confined_events_def unchanged_def O_RDONLY_def)

lemma toy_updates: "updates_keep toy_os root (confined_events root)"
  by (auto simp: updates_keep_def toy_os_def confined_events_def)

lemmas toy_defs = toy_os_def toy_stat_def toy_mode_def toy_started_def toy_config_def toy_mounted_def toy_root_def
  newBackend_def fill_fattr_def mode_type_def file_modes nfs_ftypes

lemma toy_starts: "started toy_os ''/d'' ''all'' wa 1 [] (toy_started wa)"
  by (simp add: started_def BackendConfigSetup_def getFileAttrFromPath_def run_defs
      toy_os_def toy_stat_def toy_mode_def fill_fattr_def mode_type_def file_modes nfs_ftypes toy_started_def toy_config_def)

text \<open>What a request gave back, for running one.\<close>

definition reply_of :: "('a \<times> 'w srv) go \<Rightarrow> 'a option" where
  "reply_of r = (case r of Inl _ \<Rightarrow> None | Inr (x, _) \<Rightarrow> Some x)"

lemma reply_of_Some: "reply_of m = Some x \<Longrightarrow> \<exists>t. m = Inr (x, t)"
  by (auto simp: reply_of_def split: sum.splits)

lemma toy_mounts: "\<exists>reply. exec (serve toy_os (QMnt ''/d'')) (toy_started wa) = Inr (reply, toy_mounted wa)"
  by (simp add: Mountproc_mnt_3_svc_def Mount_def mapR_def run_defs toy_started_def toy_mounted_def toy_config_def toy_root_def newBackend_def mount_handle_def)

section \<open>What no run breaks\<close>

lemma run_inv:
  assumes "started os path addr wa now w s" and "reads_keep os path P" and "wa \<longrightarrow> updates_keep os path P"
    and "env_keeps env P" and "P w" and "(pool_step os (\<lambda>_. True) env)\<^sup>*\<^sup>* ({#}, s) (M, t)"
  shows "srv_inv (config (backend s)) P t"
proof -
  note start = started_config [OF assms(1,2,5)]
  from start assms(2,3) have "calls_keep os (config (backend s)) P" by (intro calls_keep_config) auto
  from pool_run(1) [OF assms(6) start(1) serve_inv [OF this]] assms(4)
  show ?thesis by (auto simp: env_keeps_def srv_inv_def)
qed

lemma toy_mount_run: "(srv_step toy_os (\<lambda>_ _. False))\<^sup>*\<^sup>* (toy_started wa) (toy_mounted wa)"
proof -
  obtain reply where "exec (serve toy_os (QMnt ''/d'')) (toy_started wa) = Inr (reply, toy_mounted wa)"
    using toy_mounts by blast
  then show ?thesis by (intro r_into_rtranclp srv_step.request)
qed

lemmas toy_pool_run = sequential.runs_simulate [OF toy_mount_run]

text \<open>C6: A server with a read-only export never changes the file system: whatever requests it serves, and however their
  actions are interleaved, every property of the world survives that survives the calls which only look.\<close>
theorem read_only_server:
  assumes "started os path addr False now w s" and "reads_keep os path P"
    and "env_keeps env P" and "P w" and "(pool_step os (\<lambda>_. True) env)\<^sup>*\<^sup>* ({#}, s) (M, t)"
  shows "P (world t)"
  using run_inv [OF assms(1,2) _ assms(3-5)] by (simp add: srv_inv_def)

theorem read_only_server_witness: "unchanged (world (toy_mounted False))"
  using read_only_server [OF toy_starts toy_reads(2) _ _ toy_pool_run] by (simp add: env_keeps_def unchanged_def)

section \<open>Updates of a read-only export\<close>

fun is_update :: "nfs_request \<Rightarrow> bool" where
  "is_update (QSetattr _) = True" | "is_update (QWrite _) = True" | "is_update (QCreate _) = True"
| "is_update (QMkdir _) = True" | "is_update (QSymlink _) = True" | "is_update (QRemove _) = True"
| "is_update (QRmdir _) = True" | "is_update (QRename _) = True" | "is_update (QLink _) = True"
| "is_update (QCommit _) = True" | "is_update _ = False"

fun reply_status :: "nfs_reply \<Rightarrow> Nfsstat3" where
  "reply_status (PGetattr r) = Status r" | "reply_status (PWcc r) = Status r" | "reply_status (PLookup r) = Status r"
| "reply_status (PAccess r) = Status r" | "reply_status (PReadlink r) = Status r" | "reply_status (PRead r) = Status r"
| "reply_status (PWrite r) = Status r" | "reply_status (PCreate r) = Status r" | "reply_status (PRename r) = Status r"
| "reply_status (PLink r) = Status r" | "reply_status (PReaddir r) = Status r" | "reply_status (PReaddirplus r) = Status r"
| "reply_status (PFsstat r) = Status r" | "reply_status (PFsinfo r) = Status r" | "reply_status (PPathconf r) = Status r"
| "reply_status (PCommit r) = Status r" | "reply_status _ = 0"

definition read_only :: "'w srv \<Rightarrow> bool" where
  "read_only s \<longleftrightarrow> \<not> writeaccess (config (backend s))"

abbreviation refused :: "Nfsstat3 \<times> 'r \<Rightarrow> bool" where
  "refused r \<equiv> fst r = NFS3ERR_ROFS \<or> fst r = NFS3ERR_STALE"

lemma ro_steps [inv_intro]:
  "ends always read_only (sys f) (\<lambda>_. True)" "ends always read_only (deleteHandle h) (\<lambda>_. True)"
  unfolding deleteHandle_def by (rule ends_sys ends_modBE; simp add: read_only_def)+

lemma ro_getValue [inv_intro]: "ends always read_only (getValuefromHandle h) (\<lambda>_. True)"
  unfolding getValuefromHandle_def by (rule ends_getBE_any)

lemma ro_writeaccess [inv_first]:
  "ends always read_only (f False) \<Psi> \<Longrightarrow> ends always read_only (bindR (getBE (\<lambda>be. writeaccess (config be))) f) \<Psi>"
  by (rule ends_bind [where \<Phi> = "\<lambda>x. x = False"], rule ends_getBE) (auto simp: read_only_def)

lemma ro_backend [inv_first]:
  "(\<And>be. \<not> writeaccess (config be) \<Longrightarrow> ends always read_only (f be) \<Psi>) \<Longrightarrow> ends always read_only (bindR (getBE (\<lambda>be. be)) f) \<Psi>"
  by (rule ends_bind [where \<Phi> = "\<lambda>be. \<not> writeaccess (config be)"], rule ends_getBE) (auto simp: read_only_def)

lemma ro_attr [inv_intro]:
  "ends always read_only (getFileAttrFromPath os p fa) (\<lambda>_. True)" "ends always read_only (poststat os clear p h a) (\<lambda>_. True)"
  unfolding poststat_def getFileAttrFromPath_def by (rule inv_first inv_intro | simp)+

lemma ro_writable [inv_intro]: "ends always read_only (on_writable os h okw reply body) refused"
  unfolding on_writable_def Let_def by (rule inv_first inv_intro | simp)+

lemma ro_refused [inv_intro]:
  "ends always read_only (Mkdir os h name sa r1) refused" "ends always read_only (Create os h name how r2) refused"
  "ends always read_only (SymLink os h name target sa r3) refused" "ends always read_only (Setattr os h sa guard r4) refused"
  "ends always read_only (Write os h off n st data r5) refused" "ends always read_only (Remove os h name r6) refused"
  "ends always read_only (Rmdir os h name r7) refused" "ends always read_only (Commit os h r8) refused"
  "ends always read_only (Rename os h name h' name' r9) refused" "ends always read_only (Link os h h' name r10) refused"
  unfolding Mkdir_def Create_def SymLink_def Setattr_def Write_def write_open_def Remove_def Rmdir_def Commit_def Rename_def Link_def
    rename_to_only_def rename_from_only_def link_dir_only_def link_old_only_def Let_def
  by (rule inv_first inv_intro | simp)+

lemma ro_status:
  "ends always read_only m refused \<Longrightarrow> (\<And>r. reply_status (f r) = Status r) \<Longrightarrow>
   ends always read_only (bindR (with_status m) (\<lambda>x. ret (f x))) (\<lambda>r. reply_status r = NFS3ERR_ROFS \<or> reply_status r = NFS3ERR_STALE)"
  unfolding with_status_def bindR_assoc by (erule ends_bind) (auto intro!: ends_ret split: prod.splits)

lemma ro_serve:
  "is_update req \<Longrightarrow> ends always read_only (serve os req) (\<lambda>r. reply_status r = NFS3ERR_ROFS \<or> reply_status r = NFS3ERR_STALE)"
  by (cases req; simp only: is_update.simps; simp only: serve.simps svc_defs mapR_def bindR_assoc;
      (rule ro_status inv_first inv_intro | simp)+)

text \<open>C20: An update of a read-only export is refused: whatever else is going on, SETATTR, WRITE, CREATE, MKDIR, SYMLINK,
  REMOVE, RMDIR, RENAME, LINK and COMMIT end with ROFS, or with STALE when a handle is not known or its file is gone.\<close>
theorem read_only_refuses:
  assumes "started os path addr False now w s" and "(pool_step os (\<lambda>_. True) env)\<^sup>*\<^sup>* ({#}, s) (M, t)"
    and "(req, ret reply) \<in># M" and "is_update req"
  shows "reply_status reply = NFS3ERR_ROFS \<or> reply_status reply = NFS3ERR_STALE"
proof -
  let ?I = "srv_inv (config (backend s)) (\<lambda>_. True)"
  let ?\<Phi> = "\<lambda>req reply. is_update req \<longrightarrow> reply_status reply = NFS3ERR_ROFS \<or> reply_status reply = NFS3ERR_STALE"
  have any: "reads_keep os path (\<lambda>_. True)" by (simp add: reads_keep_def)
  note start = started_config [OF assms(1) any TrueI]
  have ro: "?I r \<Longrightarrow> read_only r" for r using start(3) by (simp add: srv_inv_def read_only_def)
  have "calls_keep os (config (backend s)) (\<lambda>_. True)" using start by (simp add: calls_keep_def reads_keep_def)
  note inv = serve_inv [OF this]
  have "ends always ?I (serve os req) (?\<Phi> req)" for req
  proof (cases "is_update req")
    case True
    from ends_both [OF inv ro_serve [OF True]] ro True show ?thesis by (auto elim: ends_weaken)
  qed (use inv in simp)
  from pool_run(2) [OF assms(2) start(1) this _ assms(3)] assms(4) show ?thesis by (auto simp: srv_inv_def)
qed

theorem read_only_refuses_witness:
  "\<exists>reply t. (pool_step toy_os (\<lambda>_. True) (\<lambda>_ _. False))\<^sup>*\<^sup>* ({#}, toy_started False)
       ({#(QRemove \<lparr>Dir = le64 toy_root, DName = ''f''\<rparr>, ret reply)#}, t) \<and>
     (reply_status reply = NFS3ERR_ROFS \<or> reply_status reply = NFS3ERR_STALE)"
proof -
  let ?q = "QRemove \<lparr>Dir = le64 toy_root, DName = ''f''\<rparr>"
  let ?step = "pool_step toy_os (\<lambda>_. True) (\<lambda>_ _. False)"
  have "reply_of (exec (serve toy_os ?q) (toy_mounted False)) \<noteq> None" by code_simp
  then obtain reply t where served: "exec (serve toy_os ?q) (toy_mounted False) = Inr (reply, t)"
    by (auto dest!: reply_of_Some)
  note toy_pool_run [of False]
  also have "?step ({#}, toy_mounted False) ({#(?q, serve toy_os ?q)#}, toy_mounted False)"
    by (rule pool_step.arrive) simp
  also note exec_runs [OF served]
  finally have run: "?step\<^sup>*\<^sup>* ({#}, toy_started False) ({#(?q, ret reply)#}, t)" .
  from read_only_refuses [OF toy_starts this, of ?q reply] run show ?thesis by auto
qed

end
