(* ===== verification/Nfs_Readdir.thy ===== *)
theory Nfs_Readdir
  imports Nfs_System
begin

text \<open>
  READDIR: which entries a page holds and how its cookies continue it.  \<open>page_spec\<close> is the reference: the
  longest run of entries from the cookie whose XDR size fits into \<^verbatim>\<open>count\<close>.  The loop of the code computes
  it, the cookie of the last entry starts the next page, and a client that follows the cookies gets
  every entry once.
\<close>

section \<open>Entries\<close>

text \<open>An entry as \<^verbatim>\<open>Readdir\<close> gives it on Linux: with a \<^verbatim>\<open>Stat_t\<close> behind it and a name of at most 255 bytes.\<close>

definition entry_ok :: "FileInfo option \<Rightarrow> bool" where
  "entry_ok f \<longleftrightarrow> (case f of None \<Rightarrow> False | Some fi \<Rightarrow> FiSys fi \<noteq> None \<and> length (FiName fi) \<le> 255)"

definition name_of :: "FileInfo option \<Rightarrow> string" where
  "name_of f = FiName (the f)"

definition ino_of :: "FileInfo option \<Rightarrow> u64" where
  "ino_of f = StIno (the (FiSys (the f)))"

definition overhead :: "string \<Rightarrow> nat" where
  "overhead name = 24 + ((length name + 3) div 4) * 4"

lemma entry_ok_simps [simp]:
  "entry_ok f \<Longrightarrow> fi_name f = Inr (name_of f)" "entry_ok f \<Longrightarrow> fi_ino f = Inr (ino_of f)"
  "entry_ok f \<Longrightarrow> length (name_of f) \<le> 255"
  by (auto simp: entry_ok_def fi_name_def fi_ino_def name_of_def ino_of_def split: option.splits)

lemma overhead_bounds: "entry_ok f \<Longrightarrow> 24 \<le> overhead (name_of f) \<and> overhead (name_of f) \<le> 280"
proof -
  assume "entry_ok f"
  then have "length (name_of f) \<le> 255" by simp
  then have "(length (name_of f) + 3) div 4 \<le> 64" by linarith
  then show ?thesis by (simp add: overhead_def)
qed

lemma entryOverhead_nat: "entry_ok f \<Longrightarrow> unat (entryOverhead (name_of f)) = overhead (name_of f)"
proof -
  assume "entry_ok f"
  then have "overhead (name_of f) < 2 ^ 32" using overhead_bounds [of f] by simp
  moreover have "entryOverhead (name_of f) = of_nat (overhead (name_of f))"
    by (simp only: entryOverhead_def ENTRY3SIZE_def overhead_def)
  ultimately show ?thesis by (simp only: unat_of_nat) simp
qed

section \<open>The page as a specification\<close>

text \<open>\<open>fit c size xs\<close>: how many of the sizes \<open>xs\<close> can be added to \<open>size\<close> before it passes \<open>c\<close>.\<close>

fun fit :: "nat \<Rightarrow> nat \<Rightarrow> nat list \<Rightarrow> nat" where
  "fit c sz [] = 0"
| "fit c sz (x # xs) = (if c < sz + x then 0 else Suc (fit c (sz + x) xs))"

lemma fit_le: "fit c sz xs \<le> length xs"
  by (induction xs arbitrary: sz) auto

lemma fit_size: "0 < fit c sz xs \<Longrightarrow> sz + sum_list (take (fit c sz xs) xs) \<le> c"
proof (induction xs arbitrary: sz)
  case (Cons x xs)
  from Cons.IH [of "sz + x"] Cons.prems show ?case
    by (cases "fit c (sz + x) xs = 0") (simp_all add: add.assoc split: if_splits)
qed simp

lemma fit_maximal: "fit c sz xs < length xs \<Longrightarrow> c < sz + sum_list (take (Suc (fit c sz xs)) xs)"
proof (induction xs arbitrary: sz)
  case (Cons x xs)
  from Cons.IH [of "sz + x"] Cons.prems show ?case by (simp add: add.assoc split: if_splits)
qed simp

definition dir_entry :: "bool \<Rightarrow> FileInfo option \<Rightarrow> u64 \<Rightarrow> FileInfo option \<Rightarrow> u64 \<Rightarrow> Entry3" where
  "dir_entry isRoot dot n f i =
     \<lparr>EFileid = (if isRoot \<and> name_of f = ''..'' then ino_of dot else ino_of f), EName = name_of f,
      ECookie = push_bit 32 n OR (i + 1)\<rparr>"

text \<open>The entries from number \<open>i\<close> on, numbered.\<close>

fun dir_entries :: "bool \<Rightarrow> FileInfo option \<Rightarrow> u64 \<Rightarrow> FileInfo option list \<Rightarrow> u64 \<Rightarrow> Entry3 list" where
  "dir_entries isRoot dot n [] i = []"
| "dir_entries isRoot dot n (f # fs) i = dir_entry isRoot dot n f i # dir_entries isRoot dot n fs (i + 1)"

definition page_spec :: "bool \<Rightarrow> FileInfo option \<Rightarrow> FileInfo option list \<Rightarrow> u64 \<Rightarrow> u32 \<Rightarrow> Entry3 list \<times> bool" where
  "page_spec isRoot dot fs cookie maxc =
     (let k = unat (cookie_sent cookie);
          m = fit (unat maxc) 104 (map (\<lambda>f. overhead (name_of f)) (drop k fs)) in
      (dir_entries isRoot dot (of_nat (length fs)) (take m (drop k fs)) (cookie_sent cookie),
       m = length (drop k fs)))"

section \<open>The loop computes the page\<close>

lemma loop_page:
  assumes "list_all entry_ok fs" and "entry_ok dot" and "unat used + 280 < 2 ^ 32" and "unat maxc + 280 < 2 ^ 32"
  shows "readdir_loop isRoot dot n maxc fs i used =
    (let m = fit (unat maxc) (unat used) (map (\<lambda>f. overhead (name_of f)) fs) in
     Inr (dir_entries isRoot dot n (take m fs) i, m = length fs))"
  using assms(1,3)
proof (induction fs arbitrary: i used)
  case (Cons f fs)
  let ?size = "used + entryOverhead (name_of f)"
  from Cons.prems have ok: "entry_ok f" by simp
  have "unat used + overhead (name_of f) < 2 ^ 32"
    using overhead_bounds [OF ok] Cons.prems(2) by linarith
  then have sum: "unat ?size = unat used + overhead (name_of f)"
    using entryOverhead_nat [OF ok] by (simp add: unat_word_ariths take_bit_nat_eq_self)
  show ?case
  proof (cases "?size > maxc")
    case True
    then have "unat maxc < unat used + overhead (name_of f)" by (simp add: word_less_nat_alt sum)
    with True ok show ?thesis by simp
  next
    case False
    then have le: "\<not> unat maxc < unat used + overhead (name_of f)" by (simp add: word_less_nat_alt sum)
    with assms(4) have "unat ?size + 280 < 2 ^ 32" by (simp add: sum)
    with Cons.prems have "readdir_loop isRoot dot n maxc fs (i + 1) ?size =
      (let m = fit (unat maxc) (unat ?size) (map (\<lambda>f. overhead (name_of f)) fs) in
       Inr (dir_entries isRoot dot n (take m fs) (i + 1), m = length fs))" by (intro Cons.IH) simp_all
    with False le ok assms(2) show ?thesis
      by (auto simp: sum Let_def dir_entry_def)
  qed
qed simp

lemma readdir_page_eq:
  assumes "list_all entry_ok fs" and "entry_ok dot" and "unat maxc + 280 < 2 ^ 32"
  shows "readdir_page isRoot dot fs cookie maxc = Inr (page_spec isRoot dot fs cookie maxc)"
proof -
  have "list_all entry_ok (drop k fs)" for k using assms(1) by (auto simp: list_all_iff dest: in_set_dropD)
  with assms show ?thesis
    by (simp add: readdir_page_def page_spec_def loop_page READDIRRESOKSIZE_def Let_def)
qed

lemma dir_entries_names [simp]: "map EName (dir_entries isRoot dot n fs i) = map name_of fs"
  by (induction fs arbitrary: i) (simp_all add: dir_entry_def)

lemma dir_entries_length [simp]: "length (dir_entries isRoot dot n fs i) = length fs"
  by (induction fs arbitrary: i) simp_all

lemma dir_entries_append:
  "dir_entries isRoot dot n (fs @ gs) i = dir_entries isRoot dot n fs i @ dir_entries isRoot dot n gs (i + of_nat (length fs))"
  by (induction fs arbitrary: i) (simp_all add: ac_simps)

lemma dir_entries_sizes:
  "map (\<lambda>e. overhead (EName e)) (dir_entries isRoot dot n fs i) = map (\<lambda>f. overhead (name_of f)) fs"
  by (induction fs arbitrary: i) (simp_all add: dir_entry_def)

text \<open>The XDR size of a page by the count of the source: 104 bytes and the entries.\<close>

definition page_size :: "Entry3 list \<Rightarrow> nat" where
  "page_size es = 104 + sum_list (map (\<lambda>e. overhead (EName e)) es)"

lemma page_facts:
  assumes "page_spec isRoot dot fs cookie maxc = (es, isEof)" and "unat (cookie_sent cookie) = k"
  shows "map EName es = map name_of (take (length es) (drop k fs))"
    and "es \<noteq> [] \<Longrightarrow> page_size es \<le> unat maxc"
    and "isEof \<longleftrightarrow> length fs \<le> k + length es"
    and "\<not> isEof \<Longrightarrow> unat maxc < page_size es + overhead (name_of (fs ! (k + length es)))"
proof -
  define m where "m = fit (unat maxc) 104 (map (\<lambda>f. overhead (name_of f)) (drop k fs))"
  have es: "es = dir_entries isRoot dot (of_nat (length fs)) (take m (drop k fs)) (cookie_sent cookie)"
    and eof: "isEof \<longleftrightarrow> m = length (drop k fs)"
    using assms by (auto simp: page_spec_def Let_def m_def)
  have m: "m \<le> length (drop k fs)" using fit_le [of "unat maxc" 104 "map (\<lambda>f. overhead (name_of f)) (drop k fs)"]
    by (simp add: m_def)
  then have len: "length es = m" by (simp add: es)
  show "map EName es = map name_of (take (length es) (drop k fs))" by (simp add: len) (simp add: es)
  have psize: "page_size es = 104 + sum_list (take m (map (\<lambda>f. overhead (name_of f)) (drop k fs)))"
    by (simp add: page_size_def es dir_entries_sizes take_map)
  show "page_size es \<le> unat maxc" if "es \<noteq> []"
  proof -
    from that len have "0 < m" by auto
    then show ?thesis using fit_size [of "unat maxc" 104 "map (\<lambda>f. overhead (name_of f)) (drop k fs)"]
      by (simp add: psize m_def)
  qed
  show "isEof \<longleftrightarrow> length fs \<le> k + length es" using m by (auto simp: eof len)
  show "unat maxc < page_size es + overhead (name_of (fs ! (k + length es)))" if "\<not> isEof"
  proof -
    from that m have lt: "m < length (drop k fs)" by (simp add: eof)
    then have "unat maxc < 104 + sum_list (take (Suc m) (map (\<lambda>f. overhead (name_of f)) (drop k fs)))"
      using fit_maximal [of "unat maxc" 104 "map (\<lambda>f. overhead (name_of f)) (drop k fs)"] by (simp add: m_def)
    with lt show ?thesis by (simp add: psize take_Suc_conv_app_nth len)
  qed
qed

text \<open>C22: READDIR gives the page the client asked for: the entries follow each other in the directory from the
  number in the cookie, their XDR size (attributes, verifier, flags and entries) stays within \<^verbatim>\<open>count\<close>, one
  more entry would pass it unless the end is reached, and the end flag says whether the last entry
  of the directory is in the page.\<close>
theorem readdir_page_correct:
  assumes "list_all entry_ok fs" and "entry_ok dot" and "unat maxc + 280 < 2 ^ 32"
    and "unat (cookie_sent cookie) = k"
  shows "\<exists>es isEof. readdir_page isRoot dot fs cookie maxc = Inr (es, isEof) \<and>
    map EName es = map name_of (take (length es) (drop k fs)) \<and>
    (es \<noteq> [] \<longrightarrow> page_size es \<le> unat maxc) \<and>
    (isEof \<longleftrightarrow> length fs \<le> k + length es) \<and>
    (\<not> isEof \<longrightarrow> unat maxc < page_size es + overhead (name_of (fs ! (k + length es))))"
proof -
  obtain es isEof where page: "page_spec isRoot dot fs cookie maxc = (es, isEof)"
    by (cases "page_spec isRoot dot fs cookie maxc")
  with readdir_page_eq [OF assms(1-3)] page_facts [OF page assms(4)] show ?thesis by auto
qed

definition toy_entry :: "string \<Rightarrow> FileInfo option" where
  "toy_entry name = (case toy_stat ''/d/f'' of Inl _ \<Rightarrow> None | Inr fi \<Rightarrow> Some (fi\<lparr>FiName := name\<rparr>))"

definition toy_dir :: "FileInfo option list" where
  "toy_dir = map toy_entry [''f'', ''s'', ''.'', ''..'']"

lemma toy_dir_ok: "list_all entry_ok toy_dir" "entry_ok (toy_entry ''.'')"
  by (simp_all add: toy_dir_def toy_entry_def entry_ok_def toy_stat_def toy_mode_def)

theorem readdir_page_correct_witness:
  "\<exists>es isEof. readdir_page True (toy_entry ''.'') toy_dir (cookie_sent 1) 160 = Inr (es, isEof) \<and>
     map EName es = [''s'', ''.''] \<and> \<not> isEof"
proof -
  obtain es isEof where page: "readdir_page True (toy_entry ''.'') toy_dir (cookie_sent 1) 160 = Inr (es, isEof)"
    and names: "map EName es = map name_of (take (length es) (drop 1 toy_dir))"
    using readdir_page_correct [OF toy_dir_ok, of 160 "cookie_sent 1" 1 True] by (auto simp: cookie_sent_def)
  have "(case readdir_page True (toy_entry ''.'') toy_dir (cookie_sent 1) 160 of
      Inl _ \<Rightarrow> (0, True) | Inr (es, isEof) \<Rightarrow> (length es, isEof)) = (2, False)"
    by code_simp
  with page have "length es = 2" "\<not> isEof" by simp_all
  moreover have "map name_of (take 2 (drop 1 toy_dir)) = [''s'', ''.'']"
    by (simp add: toy_dir_def toy_entry_def name_of_def toy_stat_def toy_mode_def)
  ultimately show ?thesis using page names by auto
qed

section \<open>Following the cookies\<close>

lemma cookie_sent_low: "unat x < 2 ^ 32 \<Longrightarrow> cookie_sent (push_bit 32 n OR x) = x"
proof -
  assume x: "unat x < 2 ^ 32"
  have mask: "(0xFFFFFFFF :: u64) = mask 32" by (simp add: mask_eq_exp_minus_1)
  have "unat (take_bit 32 x) = unat x" unfolding unsigned_take_bit_eq using x by (rule take_bit_nat_eq_self)
  then have "take_bit 32 x = x" by (rule unsigned_word_eqI)
  then show ?thesis
    unfolding cookie_sent_def mask take_bit_eq_mask [symmetric] take_bit_or by (simp add: take_bit_push_bit)
qed

lemma last_cookie:
  "fs \<noteq> [] \<Longrightarrow> ECookie (last (dir_entries isRoot dot n fs i)) = push_bit 32 n OR (i + of_nat (length fs))"
proof (induction fs arbitrary: i)
  case (Cons f fs)
  show ?case
  proof (cases fs)
    case Nil
    then show ?thesis by (simp add: dir_entry_def)
  next
    case (Cons g gs)
    then have "dir_entries isRoot dot n fs (i + 1) \<noteq> []" by simp
    with Cons Cons.IH [of "i + 1"] show ?thesis by (simp add: ac_simps)
  qed
qed simp

text \<open>
  A client that lists a directory: it asks for a page, and for the next one with the cookie of the last
  entry, until the end flag is set.  \<open>d\<close> bounds the number of pages; a page without entries that is not
  the end would make the client ask for ever.
\<close>

fun list_dir :: "nat \<Rightarrow> (u64 \<Rightarrow> (Entry3 list \<times> bool) go) \<Rightarrow> u64 \<Rightarrow> Entry3 list go" where
  "list_dir 0 page cookie = Inl Diverge"
| "list_dir (Suc d) page cookie =
     bindG (page cookie) (\<lambda>(es, isEof).
       if isEof then Inr es
       else if es = [] then Inl Diverge
       else bindG (list_dir d page (ECookie (last es))) (\<lambda>rest. Inr (es @ rest)))"

lemma list_dir_from:
  assumes ok: "list_all entry_ok fs" "entry_ok dot" and len: "length fs < 2 ^ 32"
    and maxc: "384 \<le> unat maxc" "unat maxc + 280 < 2 ^ 32"
    and "cookie_sent cookie = of_nat k" and "k \<le> length fs" and "length fs - k < d"
  shows "list_dir d (\<lambda>c. readdir_page isRoot dot fs c maxc) cookie =
    Inr (dir_entries isRoot dot (of_nat (length fs)) (drop k fs) (of_nat k))"
  using assms(6-8)
proof (induction d arbitrary: cookie k)
  case (Suc d)
  define m where "m = fit (unat maxc) 104 (map (\<lambda>f. overhead (name_of f)) (drop k fs))"
  let ?n = "of_nat (length fs) :: u64"
  let ?es = "dir_entries isRoot dot ?n (take m (drop k fs)) (of_nat k)"
  have small: "unat (of_nat j :: u64) = j" if "j \<le> length fs" for j
    using that len by (simp add: unat_of_nat take_bit_nat_eq_self)
  have page: "readdir_page isRoot dot fs cookie maxc = Inr (?es, m = length fs - k)"
    using readdir_page_eq [OF ok maxc(2)] Suc.prems small by (simp add: page_spec_def Let_def m_def)
  have m: "m \<le> length fs - k"
    using fit_le [of "unat maxc" 104 "map (\<lambda>f. overhead (name_of f)) (drop k fs)"] by (simp add: m_def)
  show ?case
  proof (cases "m = length fs - k")
    case True
    then show ?thesis by (simp add: page)
  next
    case False
    with m have "drop k fs \<noteq> []" by auto
    then obtain f gs where f: "drop k fs = f # gs" by (cases "drop k fs") auto
    then have "entry_ok f" using ok(1) by (metis list.set_intros(1) in_set_dropD list_all_iff)
    with maxc(1) overhead_bounds [of f] have "0 < m" by (simp add: m_def f)
    have "length fs - k = Suc (length gs)" by (metis f length_Cons length_drop)
    with m \<open>0 < m\<close> have ne: "take m (drop k fs) \<noteq> []" "length (take m (drop k fs)) = m" using f by (auto simp: min_def)
    have "cookie_sent (ECookie (last ?es)) = of_nat (k + m)"
      unfolding last_cookie [OF ne(1)] using ne(2) m Suc.prems(2) len small [of "k + m"]
      by (simp add: cookie_sent_low)
    then have "list_dir d (\<lambda>c. readdir_page isRoot dot fs c maxc) (ECookie (last ?es)) =
      Inr (dir_entries isRoot dot ?n (drop (k + m) fs) (of_nat (k + m)))"
      using m \<open>0 < m\<close> Suc.prems by (intro Suc.IH) auto
    moreover have "?es \<noteq> []" using ne by (metis dir_entries_length length_0_conv)
    moreover have "?es @ dir_entries isRoot dot ?n (drop (k + m) fs) (of_nat (k + m)) =
        dir_entries isRoot dot ?n (drop k fs) (of_nat k)"
      using dir_entries_append [of isRoot dot ?n "take m (drop k fs)" "drop m (drop k fs)" "of_nat k"]
      unfolding append_take_drop_id ne(2) by (simp add: add.commute)
    ultimately show ?thesis using False by (simp add: page)
  qed
qed simp

text \<open>C7: A client that follows the cookies lists the directory: as long as the directory stays the same and
  \<^verbatim>\<open>count\<close> leaves room for one entry (384 bytes are enough), it gets, after finitely many pages, the name of
  every entry, each once and in order.\<close>
theorem readdir_pages:
  assumes "list_all entry_ok fs" and "entry_ok dot" and "length fs < 2 ^ 32"
    and "384 \<le> unat maxc" and "unat maxc + 280 < 2 ^ 32" and "length fs < d"
  shows "\<exists>es. list_dir d (\<lambda>cookie. readdir_page isRoot dot fs cookie maxc) 0 = Inr es \<and>
    map EName es = map name_of fs"
  using list_dir_from [OF assms(1-5), of 0 0 d isRoot] assms(6) by (simp add: cookie_sent_def)

theorem readdir_pages_witness:
  "\<exists>es. list_dir 5 (\<lambda>cookie. readdir_page True (toy_entry ''.'') toy_dir cookie 400) 0 = Inr es \<and>
    map EName es = map name_of toy_dir"
  by (rule readdir_pages [OF toy_dir_ok]) (simp_all add: toy_dir_def)

end
