(* ===== verification/Nfs_Observe.thy ===== *)
theory Nfs_Observe
  imports Nfs_System
begin

text \<open>
  What a request does to the handle table, and what entitles it to: it forgets a handle after it has seen the
  path of the handle unreadable, it enters one that it has seen free, or standing for a path it has seen
  unreadable, and the new handle is the hash of a path with the numbers it has seen reported for this path.  The locale
  \<open>observer\<close> says so once for all handlers; \<open>has\<close>, \<open>free\<close>, \<open>gone\<close> and \<open>seen\<close> are the observations, whatever
  they are worth later.
\<close>

named_theorems obs_first \<open>rules of the observer for particular constructs\<close>
named_theorems obs_intro \<open>rules of the observer\<close>

definition readable :: "'w os \<Rightarrow> string \<Rightarrow> 'w \<Rightarrow> bool" where
  "readable os p w = (case fst (Lstat os p w) of Inl _ \<Rightarrow> False | Inr fi \<Rightarrow> FiSys fi \<noteq> None)"

text \<open>The inode and file system numbers the operating system gives for a path.\<close>

definition reports :: "'w os \<Rightarrow> string \<Rightarrow> 'w \<Rightarrow> u64 \<Rightarrow> u64 \<Rightarrow> bool" where
  "reports os p w fid fsid = (case fst (Lstat os p w) of Inl _ \<Rightarrow> False
     | Inr fi \<Rightarrow> map_option (\<lambda>st. (StIno st, StDev st)) (FiSys fi) = Some (fid, fsid))"

abbreviation set_handle :: "u64 \<Rightarrow> string option \<Rightarrow> 'w srv \<Rightarrow> 'w srv" where
  "set_handle h v s \<equiv> s\<lparr>backend := (backend s)\<lparr>fhandleMap := (fhandleMap (backend s))(h := v)\<rparr>\<rparr>"

locale observer =
  fixes os :: "'w os" and R I :: "'w srv \<Rightarrow> bool" and cfg :: "configOptions \<Rightarrow> bool"
    and free :: "u64 \<Rightarrow> bool" and has :: "u64 \<Rightarrow> string \<Rightarrow> bool"
    and gone :: "string \<Rightarrow> bool" and seen :: "string \<Rightarrow> u64 \<Rightarrow> u64 \<Rightarrow> bool"
  assumes world_free: "I s \<Longrightarrow> I (s\<lparr>world := w\<rparr>)"
    and reads_config: "R s \<Longrightarrow> I s \<Longrightarrow> cfg (config (backend s))"
    and finds_none: "R s \<Longrightarrow> I s \<Longrightarrow> fhandleMap (backend s) h = None \<Longrightarrow> free h"
    and finds: "R s \<Longrightarrow> I s \<Longrightarrow> fhandleMap (backend s) h = Some p \<Longrightarrow> has h p"
    and fails: "R s \<Longrightarrow> I s \<Longrightarrow> \<not> readable os p (world s) \<Longrightarrow> gone p"
    and stats: "R s \<Longrightarrow> I s \<Longrightarrow> reports os p (world s) fid fsid \<Longrightarrow> seen p fid fsid"
    and forgets: "I s \<Longrightarrow> has h p \<Longrightarrow> gone p \<Longrightarrow> I (set_handle h None s)"
    and enters: "I s \<Longrightarrow> seen p fid fsid \<Longrightarrow> h = makeFHandle p fid fsid \<Longrightarrow> free h \<or> (\<exists>q. has h q \<and> gone q) \<Longrightarrow>
      I (set_handle h (Some p) s)"
    and mounts: "I s \<Longrightarrow> cfg c \<Longrightarrow> free (mount_handle c (exportPath c)) \<Longrightarrow>
      I (set_handle (mount_handle c (exportPath c)) (Some (exportPath c)) s)"
begin

lemma calls [obs_intro]: "ends R I (sys f) (\<lambda>_. True)"
  by (rule ends_sys) (rule world_free)

lemma config_read [obs_first]: "(\<And>c. cfg c \<Longrightarrow> ends R I (f c) \<Psi>) \<Longrightarrow> ends R I (bindR (getBE config) f) \<Psi>"
  by (rule ends_bind [where \<Phi> = cfg], rule ends_getBE) (rule reads_config)

lemma value_read: "ends R I (getValuefromHandle h) (\<lambda>v. case v of None \<Rightarrow> free h | Some p \<Rightarrow> has h p)"
  unfolding getValuefromHandle_def by (rule ends_getBE) (auto intro: finds_none finds split: option.split)

lemma looks_up [obs_first]:
  "(free h \<Longrightarrow> ends R I m \<Psi>) \<Longrightarrow> (\<And>q. has h q \<Longrightarrow> ends R I (n q) \<Psi>) \<Longrightarrow>
   ends R I (bindR (getValuefromHandle h) (\<lambda>found. case found of None \<Rightarrow> m | Some q \<Rightarrow> n q)) \<Psi>"
  by (rule ends_bind [OF value_read]) (auto split: option.splits)

lemma lstat_result:
  "ends R I (sys (Lstat os p)) (\<lambda>r. case r of Inl e \<Rightarrow> gone p
     | Inr fi \<Rightarrow> (FiSys fi = None \<longrightarrow> gone p) \<and> (\<forall>st. FiSys fi = Some st \<longrightarrow> seen p (StIno st) (StDev st)))"
proof (rule ends_sys_result)
  fix s assume "R s" "I s"
  from fails [OF this, of p] stats [OF this, of p]
  show "case fst (Lstat os p (world s)) of Inl e \<Rightarrow> gone p
     | Inr fi \<Rightarrow> (FiSys fi = None \<longrightarrow> gone p) \<and> (\<forall>st. FiSys fi = Some st \<longrightarrow> seen p (StIno st) (StDev st))"
    by (auto simp: readable_def reports_def split: sum.split)
qed (rule world_free)

lemma lstats [obs_first]:
  "(\<And>e. gone q \<Longrightarrow> ends R I (m e) \<Psi>) \<Longrightarrow> (\<And>fi. ends R I (n fi) \<Psi>) \<Longrightarrow>
   ends R I (bindR (sys (Lstat os q)) (\<lambda>r. case r of Inl e \<Rightarrow> m e | Inr fi \<Rightarrow> n fi)) \<Psi>"
  by (rule ends_bind [OF lstat_result]) (auto split: sum.splits)

lemma attr_result:
  "ends R I (getFileAttrFromPath os p fa) (\<lambda>(fa', err). if err = None then seen p (Fileid fa') (Fsid fa') else gone p)"
  unfolding getFileAttrFromPath_def
proof (rule ends_bind [OF lstat_result], rule ends_sum)
  fix r :: "oserror + FileInfo" and fi
  assume "case r of Inl e \<Rightarrow> gone p
     | Inr fi \<Rightarrow> (FiSys fi = None \<longrightarrow> gone p) \<and> (\<forall>st. FiSys fi = Some st \<longrightarrow> seen p (StIno st) (StDev st))" and "r = Inr fi"
  then show "ends R I (ret (fill_fattr fi fa)) (\<lambda>(fa', err). if err = None then seen p (Fileid fa') (Fsid fa') else gone p)"
    by (auto simp: fill_fattr_def Let_def split: option.splits)
qed (rule inv_intro | simp)+

lemma reads_attr [obs_first]:
  assumes "\<And>fa'. seen q (Fileid fa') (Fsid fa') \<Longrightarrow> ends R I (m fa') \<Psi>" and "\<And>fa' e. gone q \<Longrightarrow> ends R I (n fa' e) \<Psi>"
  shows "ends R I (bindR (getFileAttrFromPath os q fa) (\<lambda>(fa', err). case err of None \<Rightarrow> m fa' | Some e \<Rightarrow> n fa' e)) \<Psi>"
  by (rule ends_bind [OF attr_result]) (auto intro: assms split: option.split if_splits)

lemma deletes [obs_intro]: "has h q \<Longrightarrow> gone q \<Longrightarrow> ends R I (deleteHandle h) (\<lambda>_. True)"
  unfolding deleteHandle_def by (rule ends_modBE) (simp add: forgets)

lemma sets:
  "seen p fid fsid \<Longrightarrow> free (makeFHandle p fid fsid) \<Longrightarrow> ends R I (setValueforHandle (makeFHandle p fid fsid) p) (\<lambda>_. True)"
  "seen p fid fsid \<Longrightarrow> has (makeFHandle p fid fsid) q \<Longrightarrow> gone q \<Longrightarrow>
   ends R I (setValueforHandle (makeFHandle p fid fsid) p) (\<lambda>_. True)"
  unfolding setValueforHandle_def by (rule ends_modBE; rule enters; blast)+

lemma posts [obs_intro]: "has h q \<Longrightarrow> ends R I (poststat os clear q h a) (\<lambda>_. True)"
  unfolding poststat_def by (rule obs_first obs_intro inv_intro | blast)+

lemma registers [obs_intro]: "seen q (Fileid fa) (Fsid fa) \<Longrightarrow> ends R I (registerHandle os q fa) (\<lambda>_. True)"
  unfolding registerHandle_def Let_def by (rule obs_first sets obs_intro inv_intro | blast)+

lemma with_files [obs_intro]: "ends R I m (\<lambda>_. True) \<Longrightarrow> ends R I (with_file os f m) (\<lambda>_. True)"
  unfolding with_file_def by (rule obs_intro inv_intro | blast)+

lemma on_handles [obs_intro]:
  "(\<And>q r. has h q \<Longrightarrow> ends R I (body q r) (\<lambda>_. True)) \<Longrightarrow> ends R I (on_object os h get put reply body) (\<lambda>_. True)"
  "(\<And>q fa r. has h q \<Longrightarrow> ends R I (body' q fa r) (\<lambda>_. True)) \<Longrightarrow> ends R I (on_writable os h okw reply' body') (\<lambda>_. True)"
  unfolding on_object_def on_writable_def Let_def by (rule obs_first obs_intro inv_first inv_intro | blast)+

lemma afterwards [obs_intro]:
  "has h q \<Longrightarrow> ends R I (fail_after os clear q h st r1) (\<lambda>_. True)"
  "has h q \<Longrightarrow> ends R I (ok_after os clear q h get okw st r2) (\<lambda>_. True)"
  unfolding fail_after_def ok_after_def by (rule obs_first obs_intro inv_intro | blast)+

lemma creates [obs_intro]: "has h q \<Longrightarrow> ends R I (created os b c q h name failed r) (\<lambda>_. True)"
  unfolding created_def by (rule obs_first obs_intro inv_intro | blast)+

lemma two_dirs [obs_intro]:
  "has h1 q1 \<Longrightarrow> has h2 q2 \<Longrightarrow> ends R I (after_both os q1 h1 q2 h2 r1) (\<lambda>_. True)"
  "has h1 q1 \<Longrightarrow> has h2 q2 \<Longrightarrow> ends R I (after_link os q1 h1 q2 h2 r2) (\<lambda>_. True)"
  "ends R I (rename_to_only os h1 fa r3) (\<lambda>_. True)"
  "has h1 q1 \<Longrightarrow> ends R I (rename_from_only os q1 h1 r4) (\<lambda>_. True)"
  "ends R I (link_old_only os h1 r5) (\<lambda>_. True)"
  "has h1 q1 \<Longrightarrow> ends R I (link_dir_only os q1 h1 r6) (\<lambda>_. True)"
  unfolding after_both_def after_link_def rename_to_only_def rename_from_only_def link_old_only_def link_dir_only_def
  by (rule obs_first obs_intro inv_intro | blast)+

lemma dots [obs_intro]: "ends R I (getDotAndDotDot os p) (\<lambda>_. True)"
  unfolding getDotAndDotDot_def by (rule obs_intro inv_intro | simp)+

lemma queries [obs_intro]:
  "ends R I (GetFileAttr os h fa) (\<lambda>_. True)" "ends R I (GetFileSysInfo os h r1) (\<lambda>_. True)"
  "ends R I (GetFileSystemAttr os h r2) (\<lambda>_. True)" "ends R I (GetPathConf os h r3) (\<lambda>_. True)"
  "ends R I (Lookup os h name r4) (\<lambda>_. True)" "ends R I (ReadDir os h cookie n r5) (\<lambda>_. True)"
  "ends R I (ReadDirPlus os h r6) (\<lambda>_. True)" "ends R I (Access os h acc r7) (\<lambda>_. True)"
  "ends R I (Read os h off n r8) (\<lambda>_. True)" "ends R I (Commit os h r9) (\<lambda>_. True)" "ends R I (ReadLink os h r10) (\<lambda>_. True)"
  unfolding GetFileAttr_def GetFileSysInfo_def GetFileSystemAttr_def GetPathConf_def Lookup_def ReadDir_def readdir_open_def
    ReadDirPlus_def Access_def Read_def read_open_def Commit_def ReadLink_def Let_def
  by (rule obs_first obs_intro inv_first inv_intro | blast)+

lemma set_steps [obs_intro]: "ends R I rest (\<lambda>_. True) \<Longrightarrow> ends R I (set_step wanted call rest) (\<lambda>_. True)"
  unfolding set_step_def by (rule obs_intro inv_intro | blast)+

lemma updates [obs_intro]:
  "ends R I (Mkdir os h name sa r1) (\<lambda>_. True)" "ends R I (Create os h name how r2) (\<lambda>_. True)"
  "ends R I (SymLink os h name target sa r3) (\<lambda>_. True)" "ends R I (Setattr os h sa guard r4) (\<lambda>_. True)"
  "ends R I (Write os h off n st data r5) (\<lambda>_. True)" "ends R I (Remove os h name r6) (\<lambda>_. True)"
  "ends R I (Rmdir os h name r7) (\<lambda>_. True)" "ends R I (Link os h1 h2 name r9) (\<lambda>_. True)"
  unfolding Mkdir_def Create_def SymLink_def Setattr_def set_attributes_def Write_def write_open_def Remove_def Rmdir_def
    Link_def Let_def
  by (rule obs_first obs_intro inv_first inv_intro | blast)+

lemma renames:
  assumes "\<And>from to fa. ends R I (silly_rename os name' (from @ ''/'' @ name) (to @ ''/'' @ name') fa) (\<lambda>_. True)"
  shows "ends R I (Rename os h name h' name' r) (\<lambda>_. True)"
  unfolding Rename_def Let_def by (rule assms obs_first obs_intro inv_first inv_intro | blast)+

lemma no_silly: "\<not> HasPrefix name ''.nfs'' \<Longrightarrow> ends R I (silly_rename os name p q fa) (\<lambda>_. True)"
  unfolding silly_rename_def by (simp add: inv_intro)

lemma exports [obs_intro]: "ends R I (Mount path r1) (\<lambda>_. True)" "ends R I (ExportedMountPoint r2) (\<lambda>_. True)"
proof -
  have enter: "ends R I (bindR (getValuefromHandle (mount_handle c p)) (\<lambda>found.
      bindR (case found of None \<Rightarrow> setValueforHandle (mount_handle c p) p | Some _ \<Rightarrow> ret ()) m)) (\<lambda>_. True)"
    if "cfg c" "p = exportPath c" and m: "\<And>u. ends R I (m u) (\<lambda>_. True)" for c p m
  proof (rule ends_bind [OF value_read], rule ends_bind_any)
    fix v assume v: "case v of None \<Rightarrow> free (mount_handle c p) | Some q \<Rightarrow> has (mount_handle c p) q"
    have "ends R I (setValueforHandle (mount_handle c p) p) (\<lambda>_. True)" if "free (mount_handle c p)"
      unfolding setValueforHandle_def using that \<open>cfg c\<close> \<open>p = exportPath c\<close> by (intro ends_modBE) (simp add: mounts)
    with v show "ends R I (case v of None \<Rightarrow> setValueforHandle (mount_handle c p) p | Some _ \<Rightarrow> ret ()) (\<lambda>_. True)"
      by (auto intro: inv_intro split: option.splits)
  qed (rule m)
  show "ends R I (Mount path r1) (\<lambda>_. True)"
    unfolding Mount_def Let_def by (rule obs_first enter inv_intro | assumption | simp)+
  show "ends R I (ExportedMountPoint r2) (\<lambda>_. True)" unfolding ExportedMountPoint_def by (rule inv_intro)
qed

end

text \<open>The two requests that move handles for other reasons: UMNT, and RENAME to a name for a silly rename.\<close>

fun moves_handles :: "nfs_request \<Rightarrow> bool" where
  "moves_handles (QUmnt _) = True"
| "moves_handles (QRename a) = HasPrefix (DName (RnTo a)) ''.nfs''"
| "moves_handles _ = False"

context observer begin

lemma serves_unmoved: "\<not> moves_handles req \<Longrightarrow> ends R I (serve os req) (\<lambda>_. True)"
  by (cases req; simp only: moves_handles.simps not_True_eq_False not_False_eq_True;
      (simp only: serve.simps svc_defs; (rule renames no_silly obs_first obs_intro inv_first inv_intro | blast)+)?)

end

locale mover = observer +
  assumes moves: "I s \<Longrightarrow> seen q fid fsid \<Longrightarrow> h = makeFHandle p fid fsid \<Longrightarrow> has h p \<Longrightarrow> q = dir @ ''/'' @ name \<Longrightarrow>
      HasPrefix name ''.nfs'' \<Longrightarrow> I (set_handle h (Some q) s)"
    and unmounts: "I s \<Longrightarrow> cfg c \<Longrightarrow> I (set_handle (mount_handle c (exportPath c)) None s)"
begin

lemma silly [obs_intro]: "ends R I (silly_rename os name p (dir @ ''/'' @ name) fa) (\<lambda>_. True)"
proof -
  have "ends R I (bindR (getValuefromHandle h) (\<lambda>found. case found of None \<Rightarrow> ret ()
      | Some q \<Rightarrow> if q = p then setValueforHandle h (dir @ ''/'' @ name) else crash Fatal)) (\<lambda>_. True)"
    if "seen (dir @ ''/'' @ name) fid fsid" "h = makeFHandle p fid fsid" "HasPrefix name ''.nfs''" for h fid fsid
  proof (rule looks_up)
    fix q assume h: "has h q"
    show "ends R I (if q = p then setValueforHandle h (dir @ ''/'' @ name) else crash Fatal) (\<lambda>_. True)"
      using moves [OF _ that(1,2) _ refl that(3)] h by (auto simp: setValueforHandle_def intro!: ends_modBE)
  qed (rule inv_intro, simp)
  then show ?thesis
    unfolding silly_rename_def Let_def by (intro ends_if reads_attr ends_ret) simp_all
qed

lemma umounts [obs_intro]: "ends R I (UnMount path) (\<lambda>_. True)"
proof -
  have "ends R I (deleteHandle (mount_handle c p)) (\<lambda>_. True)" if "cfg c" "p = exportPath c" for c p
    unfolding deleteHandle_def using that by (intro ends_modBE) (simp add: unmounts)
  note del = this
  show ?thesis unfolding UnMount_def Let_def by (rule obs_first del inv_intro | assumption | simp)+
qed

lemma serves: "ends R I (serve os req) (\<lambda>_. True)"
  by (cases req; simp only: serve.simps svc_defs; (rule renames obs_first obs_intro inv_first inv_intro | blast)+)

end

end
