(* ===== verification/Nfs_Stable.thy ===== *)
theory Nfs_Stable
  imports Nfs_Observe
begin

text \<open>
  How long a handle stays good: as long as its file can be read, no request takes the handle away or points
  it elsewhere, except UMNT and the silly rename of the file.  Of the operating system nothing is assumed: the file
  may be removable, and the theorem is about the runs, or the part of a run, in which nobody does.
\<close>

interpretation keeper: observer "os :: 'w os" "\<lambda>s. readable os p (world s)" "\<lambda>s. fhandleMap (backend s) h = Some p" "\<lambda>c. True"
  "\<lambda>h'. h' \<noteq> h" "\<lambda>h' q. h' = h \<longrightarrow> q = p" "\<lambda>q. q \<noteq> p" "\<lambda>q fid fsid. True"
  by unfold_locales auto

text \<open>C8: A handle stays good while its file can be read: in a run in every state of which the path \<open>p\<close> can be read, with requests
  that are neither UMNT nor silly renames, as many at a time as clients send and interleaved in any way with each other and
  with other processes, the handle \<open>h\<close> of \<open>p\<close> stays in the table, pointing to \<open>p\<close>, although a new object may have the
  same hash (then the server stops instead).\<close>
theorem handle_stays_good:
  assumes "fhandleMap (backend s) h = Some p"
    and "(\<lambda>x y. pool_step os (\<lambda>r. \<not> moves_handles r) env x y \<and> readable os p (world (snd x)))\<^sup>*\<^sup>* ({#}, s) (M, t)"
  shows "fhandleMap (backend t) h = Some p"
  by (rule pool_run_in(1) [OF assms(2,1) keeper.serves_unmoved]) simp_all

text \<open>Any run of the toy file system is one, because \<^verbatim>\<open>/d\<close> stays readable there, also when \<^verbatim>\<open>/d/f\<close> is removed.\<close>

lemma toy_readable: "readable toy_os ''/d'' w"
  by (simp add: readable_def toy_os_def toy_stat_def toy_mode_def)

theorem handle_stays_good_witness:
  "\<exists>reply t. (pool_step toy_os (\<lambda>r. \<not> moves_handles r) (\<lambda>_ _. True))\<^sup>*\<^sup>* ({#}, toy_mounted True)
       ({#(QRemove \<lparr>Dir = le64 toy_root, DName = ''f''\<rparr>, ret reply)#}, t) \<and> fhandleMap (backend t) toy_root = Some ''/d''"
proof -
  let ?q = "QRemove \<lparr>Dir = le64 toy_root, DName = ''f''\<rparr>"
  have "reply_of (exec (serve toy_os ?q) (toy_mounted True)) \<noteq> None" by code_simp
  then obtain reply t where served: "exec (serve toy_os ?q) (toy_mounted True) = Inr (reply, t)"
    by (auto dest!: reply_of_Some)
  have "pool_step toy_os (\<lambda>r. \<not> moves_handles r) (\<lambda>_ _. True) ({#}, toy_mounted True) ({#(?q, serve toy_os ?q)#}, toy_mounted True)"
    by (rule pool_step.arrive) simp
  also note exec_runs [OF served]
  finally have run: "(pool_step toy_os (\<lambda>r. \<not> moves_handles r) (\<lambda>_ _. True))\<^sup>*\<^sup>* ({#}, toy_mounted True) ({#(?q, ret reply)#}, t)" .
  then have "(\<lambda>x y. pool_step toy_os (\<lambda>r. \<not> moves_handles r) (\<lambda>_ _. True) x y \<and> readable toy_os ''/d'' (world (snd x)))\<^sup>*\<^sup>*
      ({#}, toy_mounted True) ({#(?q, ret reply)#}, t)" by (simp add: toy_readable)
  from handle_stays_good [OF _ this, of toy_root] run show ?thesis by (auto simp: toy_mounted_def)
qed

end
