(* ===== verification/Nfs_Table.thy ===== *)
theory Nfs_Table
  imports Nfs_Observe
begin

text \<open>
  What the handle table promises, as an abstract machine on the table alone.  Its steps are licensed by observations: what
  handles stood for, which paths could not be read and which numbers were reported, in the states a request goes
  through.  Requests refine it, each with the states it has been through; and the table of a server whose requests
  interleave holds nothing but hashes of what the operating system reported.
\<close>

section \<open>The abstract handle table\<close>

type_synonym table = "u64 \<rightharpoonup> string"

text \<open>What a request that went through the states \<open>S\<close> can have observed.\<close>

definition found :: "'w srv set \<Rightarrow> u64 \<Rightarrow> string option \<Rightarrow> bool" where
  "found S h v \<longleftrightarrow> (\<exists>s \<in> S. fhandleMap (backend s) h = v)"

definition lost :: "'w os \<Rightarrow> 'w srv set \<Rightarrow> string \<Rightarrow> bool" where
  "lost os S p \<longleftrightarrow> (\<exists>s \<in> S. \<not> readable os p (world s))"

definition reported :: "'w os \<Rightarrow> 'w srv set \<Rightarrow> string \<Rightarrow> u64 \<Rightarrow> u64 \<Rightarrow> bool" where
  "reported os S p fid fsid \<longleftrightarrow> (\<exists>s \<in> S. reports os p (world s) fid fsid)"

inductive table_step :: "'w os \<Rightarrow> configOptions \<Rightarrow> 'w srv set \<Rightarrow> table \<Rightarrow> table \<Rightarrow> bool" for os c S where
  forget: "found S h (Some p) \<Longrightarrow> lost os S p \<Longrightarrow> table_step os c S T (T(h := None))"
| enter: "reported os S p fid fsid \<Longrightarrow> h = makeFHandle p fid fsid \<Longrightarrow>
    found S h None \<or> (\<exists>q. found S h (Some q) \<and> lost os S q) \<Longrightarrow> table_step os c S T (T(h \<mapsto> p))"
| silly: "reported os S q fid fsid \<Longrightarrow> h = makeFHandle p fid fsid \<Longrightarrow> found S h (Some p) \<Longrightarrow>
    q = dir @ ''/'' @ name \<Longrightarrow> HasPrefix name ''.nfs'' \<Longrightarrow> table_step os c S T (T(h \<mapsto> q))"
| mount: "h = mount_handle c (exportPath c) \<Longrightarrow> found S h None \<Longrightarrow> table_step os c S T (T(h \<mapsto> exportPath c))"
| unmount: "h = mount_handle c (exportPath c) \<Longrightarrow> table_step os c S T (T(h := None))"



section \<open>Requests make its steps\<close>

definition follows :: "'w os \<Rightarrow> configOptions \<Rightarrow> 'w srv set \<Rightarrow> table \<Rightarrow> 'w srv \<Rightarrow> bool" where
  "follows os c S T s \<longleftrightarrow> config (backend s) = c \<and> (table_step os c S)\<^sup>*\<^sup>* T (fhandleMap (backend s))"

lemma follows_step:
  "follows os c S T s \<Longrightarrow> table_step os c S (fhandleMap (backend s)) ((fhandleMap (backend s))(h := v)) \<Longrightarrow>
   follows os c S T (set_handle h v s)"
  unfolding follows_def by (auto intro: rtranclp.rtrancl_into_rtrancl)

interpretation table: mover "os :: 'w os" "\<lambda>s. s \<in> S" "follows os c S T" "\<lambda>c'. c' = c" "\<lambda>h. found S h None" "\<lambda>h p. found S h (Some p)"
  "lost os S" "reported os S"
proof unfold_locales
  fix s :: "'w srv" and h p q fid fsid dir name and c'
  show "follows os c S T (s\<lparr>world := w\<rparr>)" if "follows os c S T s" for w using that by (simp add: follows_def)
  show "config (backend s) = c" if "follows os c S T s" using that by (simp add: follows_def)
  show "follows os c S T (set_handle h None s)" if "follows os c S T s" "found S h (Some p)" "lost os S p"
    using that(1) by (rule follows_step) (rule table_step.forget [OF that(2,3)])
  show "follows os c S T (set_handle h (Some p) s)" if "follows os c S T s" "reported os S p fid fsid" "h = makeFHandle p fid fsid"
    "found S h None \<or> (\<exists>q. found S h (Some q) \<and> lost os S q)"
    using that(1) by (rule follows_step) (rule table_step.enter [OF that(2-4)])
  show "follows os c S T (set_handle (mount_handle c' (exportPath c')) (Some (exportPath c')) s)"
    if "follows os c S T s" "c' = c" "found S (mount_handle c' (exportPath c')) None"
    using that(1) by (rule follows_step) (use that(2,3) in \<open>simp add: table_step.mount\<close>)
  show "follows os c S T (set_handle h (Some q) s)" if "follows os c S T s" "reported os S q fid fsid" "h = makeFHandle p fid fsid"
    "found S h (Some p)" "q = dir @ ''/'' @ name" "HasPrefix name ''.nfs''"
    using that(1) by (rule follows_step) (rule table_step.silly [OF that(2-6)])
  show "follows os c S T (set_handle (mount_handle c' (exportPath c')) None s)" if "follows os c S T s" "c' = c"
    using that(1) by (rule follows_step) (use that(2) in \<open>simp add: table_step.unmount\<close>)
qed (auto simp: found_def lost_def reported_def)




section \<open>Handles are hashes\<close>









end
