(* ===== verification/Nfs_Handles.thy ===== *)
theory Nfs_Handles
  imports Nfs_System
begin

text \<open>
  File handles: the hash that makes them, what a request does with a handle that is short, unknown or
  whose file is gone, which handle a reply hands out, and how long a handle stays good.
\<close>

section \<open>The hash\<close>

text \<open>The FNV prime is odd, so a step of the hash can be undone.\<close>

definition fnv_inverse :: u64 where "fnv_inverse = 14886173955864302971"

lemma fnv_inverse: "fnv_prime * fnv_inverse = 1"
  by code_simp

lemma fnv_prime_cancel: "a * fnv_prime = b * fnv_prime \<longleftrightarrow> a = b"
proof
  assume "a * fnv_prime = b * fnv_prime"
  then have "a * (fnv_prime * fnv_inverse) = b * (fnv_prime * fnv_inverse)"
    by (simp only: mult.assoc [symmetric])
  then show "a = b" by (simp add: fnv_inverse)
qed simp

lemma xor_cancel: "(a :: u64) XOR c = b XOR c \<longleftrightarrow> a = b"
proof
  assume "a XOR c = b XOR c"
  then show "a = b" by (intro bit_word_eqI) (metis bit_xor_iff)
qed simp

lemma xor_cancel_left: "(c :: u64) XOR a = c XOR b \<longleftrightarrow> a = b"
  by (simp only: xor.commute [of c] xor_cancel)

lemma fnv_step_state: "fnv_step h b = fnv_step h' b \<longleftrightarrow> h = h'"
  by (simp add: fnv_step_def fnv_prime_cancel xor_cancel)

lemma unat_byte: "unat (ucast (b :: byte) :: u64) = unat b"
proof -
  have "unat b < 2 ^ 8" using unsigned_less [of b] by simp
  then have "take_bit 64 (unat b) = unat b" by (simp add: take_bit_nat_eq_self)
  then show ?thesis by (simp add: unsigned_ucast_eq)
qed

lemma fnv_step_byte: "fnv_step h b = fnv_step h b' \<longleftrightarrow> b = b'"
proof -
  have "(ucast b :: u64) = ucast b' \<longleftrightarrow> b = b'"
    using unat_byte [of b] unat_byte [of b'] by (metis unsigned_word_eqI)
  then show ?thesis by (simp add: fnv_step_def fnv_prime_cancel xor_cancel_left)
qed

lemma fnv_foldl: "foldl fnv_step h bs = foldl fnv_step h' bs \<longleftrightarrow> h = h'"
  by (induction bs arbitrary: h h') (simp_all add: fnv_step_state)

lemma fnv1a_one_byte: "fnv1a (xs @ b # ys) = fnv1a (xs @ b' # ys) \<longleftrightarrow> b = b'"
  by (simp add: fnv1a_def fnv_foldl fnv_step_byte)

text \<open>The hash tells files apart that differ in one byte of what is hashed: two files of one name on one
  file system whose inode numbers differ in a single byte (neighbours in an inode table) never have the
  same handle.\<close>
lemma makeFHandle_one_byte:
  assumes "le64 fid = xs @ b # ys" and "le64 fid' = xs @ b' # ys" and "fid \<noteq> fid'"
  shows "makeFHandle name fid fsid \<noteq> makeFHandle name fid' fsid"
proof -
  have "b \<noteq> b'" using assms by (metis le64_inj)
  then show ?thesis
    using fnv1a_one_byte [of "string_bytes name @ xs" b "ys @ le64 fsid" b'] by (simp add: makeFHandle_def assms)
qed

theorem makeFHandle_one_byte_witness: "makeFHandle ''/d/f'' 0x1201 1 \<noteq> makeFHandle ''/d/f'' 0x1202 1"
  by (rule makeFHandle_one_byte [of _ "[]" 1 "0x12 # replicate 6 0" _ 2]; code_simp)

section \<open>Requests with one handle\<close>

text \<open>The one handle a request is about; RENAME and LINK have two (\<open>handles_of\<close>).\<close>

fun main_handle :: "nfs_request \<Rightarrow> Nfs_fh3 option" where
  "main_handle (QGetattr a) = Some a"
| "main_handle (QSetattr a) = Some (SObject a)"
| "main_handle (QLookup a) = Some (Dir a)"
| "main_handle (QAccess a) = Some (AObject a)"
| "main_handle (QReadlink a) = Some a"
| "main_handle (QRead a) = Some (RFile a)"
| "main_handle (QWrite a) = Some (WFile a)"
| "main_handle (QCreate a) = Some (Dir (Where a))"
| "main_handle (QMkdir a) = Some (Dir (MkWhere a))"
| "main_handle (QSymlink a) = Some (Dir (SlWhere a))"
| "main_handle (QRemove a) = Some (Dir a)"
| "main_handle (QRmdir a) = Some (Dir a)"
| "main_handle (QReaddir a) = Some (RdDir a)"
| "main_handle (QReaddirplus a) = Some (RpDir a)"
| "main_handle (QFsstat a) = Some a"
| "main_handle (QFsinfo a) = Some a"
| "main_handle (QPathconf a) = Some a"
| "main_handle (QCommit a) = Some (CoFile a)"
| "main_handle _ = None"

lemmas handler_defs = GetFileAttr_def GetFileSysInfo_def GetFileSystemAttr_def GetPathConf_def Lookup_def ReadDir_def readdir_open_def
  ReadDirPlus_def Access_def Read_def read_open_def Commit_def ReadLink_def Mkdir_def Create_def SymLink_def Setattr_def
  Write_def write_open_def Remove_def Rmdir_def

text \<open>All handles of a request.\<close>

fun handles_of :: "nfs_request \<Rightarrow> Nfs_fh3 list" where
  "handles_of (QRename a) = [Dir (RnFrom a), Dir (RnTo a)]"
| "handles_of (QLink a) = [LnFile a, Dir (LnLink a)]"
| "handles_of req = (case main_handle req of None \<Rightarrow> [] | Some fh \<Rightarrow> [fh])"

text \<open>C38: A handle of fewer than eight bytes takes the server down: \<^verbatim>\<open>binary.LittleEndian.Uint64\<close> panics on it,
  whatever the state, in every procedure that has a handle, RENAME and LINK with either of their two included;
  nothing on the way from the wire checks its length.\<close>
theorem short_handle_panics:
  assumes "fh \<in> set (handles_of req)" and "length fh < 8"
  shows "exec (serve os req) s = Inl Panic"
proof -
  have short: "handle fh' = crash Panic" if "length fh' < 8" for fh' using that by (simp add: handle_def of_le64_def)
  with assms short [OF assms(2)] show ?thesis by (cases req) (auto simp: svc_defs mapR_def of_le64_def)
qed

theorem short_handle_panics_witness:
  "exec (serve toy_os (QRename \<lparr>RnFrom = \<lparr>Dir = le64 toy_root, DName = ''f''\<rparr>, RnTo = \<lparr>Dir = [1, 2, 3], DName = ''g''\<rparr>\<rparr>)) (toy_mounted True) = Inl Panic"
  by (rule short_handle_panics [of "[1, 2, 3]"]) simp_all

lemma known_value: "fhandleMap (backend s) h = v \<Longrightarrow> exec (bindR (getValuefromHandle h) g) s = exec (g v) s"
  by (simp add: run_defs)

lemma handle_value: "of_le64 fh = Inr h \<Longrightarrow> bindR (handle fh) g = g h"
  by (simp add: handle_def)

text \<open>C31: A handle that is not in the table, such as one from before the server was restarted, is answered
  with STALE, and the request changes nothing.\<close>
theorem unknown_handle:
  assumes "main_handle req = Some fh" and "of_le64 fh = Inr h" and "fhandleMap (backend s) h = None"
  shows "\<exists>reply. exec (serve os req) s = Inr (reply, s) \<and> reply_status reply = NFS3ERR_STALE"
  using assms(1,2)
  by (cases req; simp add: svc_defs handler_defs on_object_def on_writable_def mapR_def with_status_def bindR_assoc
      known_value [OF assms(3)])

theorem unknown_handle_witness:
  "\<exists>reply. exec (serve toy_os (QRemove \<lparr>Dir = le64 0, DName = ''f''\<rparr>)) (toy_started True) = Inr (reply, toy_started True) \<and>
     reply_status reply = NFS3ERR_STALE"
  by (rule unknown_handle [of _ "le64 0" 0]) (simp_all add: toy_started_def newBackend_def)

section \<open>Handles of files that are gone\<close>

definition forget :: "u64 \<Rightarrow> 'w srv \<Rightarrow> 'w srv" where
  "forget h s = s\<lparr>backend := (backend s)\<lparr>fhandleMap := (fhandleMap (backend s))(h := None)\<rparr>\<rparr>"

lemma forget_step: "exec (bindR (deleteHandle h) g) s = exec (g ()) (forget h s)"
  by (simp add: run_defs forget_def)

lemma gone_attr:
  "Lstat os p (world s) = (Inl (PathError (Errno e)), w) \<Longrightarrow>
   exec (bindR (getFileAttrFromPath os p fa) g) s = exec (g (fa, Some e)) (s\<lparr>world := w\<rparr>)"
  by (simp add: getFileAttrFromPath_def run_defs)

text \<open>C32: When the file behind a handle is gone, the request is answered with STALE and the handle is
  forgotten: nothing else changes, and the next request with it is an unknown handle.\<close>
theorem gone_file:
  assumes "main_handle req = Some fh" and "of_le64 fh = Inr h" and "fhandleMap (backend s) h = Some p"
    and "Lstat os p (world s) = (Inl (PathError (Errno e)), w)"
  shows "\<exists>reply. exec (serve os req) s = Inr (reply, forget h (s\<lparr>world := w\<rparr>)) \<and> reply_status reply = NFS3ERR_STALE"
  using assms(1,2)
  by (cases req; simp add: svc_defs handler_defs on_object_def on_writable_def mapR_def with_status_def bindR_assoc
      known_value [OF assms(3)] gone_attr [where s = s, OF assms(4)] forget_step)

theorem gone_file_witness:
  "\<exists>reply. exec (serve toy_os (QGetattr (le64 5))) ((toy_mounted True)\<lparr>backend := (newBackend 1)\<lparr>fhandleMap := [5 \<mapsto> ''/d/x'']\<rparr>\<rparr>) =
     Inr (reply, \<lparr>backend = newBackend 1, world = [Looked ''/d'', Looked ''/d/x'']\<rparr>) \<and> reply_status reply = NFS3ERR_STALE"
  using gone_file [of "QGetattr (le64 5)" "le64 5" 5 "(toy_mounted True)\<lparr>backend := (newBackend 1)\<lparr>fhandleMap := [5 \<mapsto> ''/d/x'']\<rparr>\<rparr>"
      "''/d/x''" toy_os ENOENT "[Looked ''/d'', Looked ''/d/x'']"]
  by (simp add: toy_os_def toy_stat_def toy_mode_def toy_mounted_def toy_started_def newBackend_def forget_def)

section \<open>Handles handed out\<close>

lemma bindR_Inr: "exec (bindR m f) s = Inr (y, t) \<longleftrightarrow> (\<exists>x r. exec m s = Inr (x, r) \<and> exec (f x) r = Inr (y, t))"
  by (auto simp: exec_bindR split: sum.splits)

lemma run_Inr:
  "exec (ret x) s = Inr (y, t) \<longleftrightarrow> y = x \<and> t = s" "\<not> exec (crash c) s = Inr (y', t)"
  "exec (sys f) s = Inr (z, t) \<longleftrightarrow> z = fst (f (world s)) \<and> t = s\<lparr>world := snd (f (world s))\<rparr>"
  "exec (liftG m) s = Inr (z', t) \<longleftrightarrow> m = Inr z' \<and> t = s"
  "exec (getBE g) s = Inr (b, t) \<longleftrightarrow> b = g (backend s) \<and> t = s"
  by (auto simp: exec_steps split_def Let_def split: sum.splits)

lemma registerHandle_result:
  assumes "exec (registerHandle os name fattr) s = Inr (h, t)"
  shows "h = makeFHandle name (Fileid fattr) (Fsid fattr) \<and> fhandleMap (backend t) h = Some name \<and>
    config (backend t) = config (backend s)"
  using assms by (auto simp: registerHandle_def run_defs split: option.splits if_splits sum.splits prod.splits)

text \<open>The attributes are not the business of the handle table, except that a failure forgets a handle.\<close>

lemma poststat_table:
  assumes "exec (poststat os clear p h a) s = Inr (b, t)"
  shows "\<forall>h'. h' \<noteq> h \<longrightarrow> fhandleMap (backend t) h' = fhandleMap (backend s) h'"
  using assms by (auto simp: poststat_def getFileAttrFromPath_def run_defs split: option.splits sum.splits prod.splits)

lemma getFileAttr_backend: "exec (getFileAttrFromPath os p fa) s = Inr (x, t) \<Longrightarrow> backend t = backend s"
  by (auto simp: getFileAttrFromPath_def run_defs split: sum.splits prod.splits)

lemma on_object_result:
  assumes "exec (on_object os h get put r body) s = Inr ((st, r'), t)" and "st \<noteq> NFS3ERR_STALE"
  shows "\<exists>p r1 u. fhandleMap (backend s) h = Some p \<and> backend u = backend s \<and> exec (body p r1) u = Inr ((st, r'), t)"
  using assms by (auto simp: on_object_def bindR_Inr run_Inr getValuefromHandle_def split: option.splits prod.splits
      dest!: getFileAttr_backend)

lemma on_writable_result:
  assumes "exec (on_writable os h okw r body) s = Inr ((st, r'), t)" and "st \<noteq> NFS3ERR_STALE" and "st \<noteq> NFS3ERR_ROFS"
  shows "\<exists>p fa u. fhandleMap (backend s) h = Some p \<and> writeaccess (config (backend s)) \<and> backend u = backend s \<and>
    exec (body p fa (set_before okw fa r)) u = Inr ((st, r'), t)"
  using assms by (auto simp: on_writable_def bindR_Inr run_Inr getValuefromHandle_def Let_def split: option.splits prod.splits if_splits
      dest!: getFileAttr_backend)

lemma error_statuses:
  "getLookupErr e \<noteq> NFS3_OK" "getReadDirErr e \<noteq> NFS3_OK" "getReadErr e \<noteq> NFS3_OK" "getReadLinkErr e \<noteq> NFS3_OK"
  "getMkdirErr e \<noteq> NFS3_OK" "getCreateErr e \<noteq> NFS3_OK" "getSymLinkErr e \<noteq> NFS3_OK" "getSetattrErr e \<noteq> NFS3_OK"
  "getWriteErr e \<noteq> NFS3_OK" "getRemoveErr e \<noteq> NFS3_OK" "getRmdirErr e \<noteq> NFS3_OK" "getRenameErr e \<noteq> NFS3_OK"
  "getLinkErr e \<noteq> NFS3_OK"
  by (simp_all add: getLookupErr_def getReadDirErr_def getReadErr_def getReadLinkErr_def getMkdirErr_def getCreateErr_def
      getSymLinkErr_def getSetattrErr_def getWriteErr_def getRemoveErr_def getRmdirErr_def getRenameErr_def getLinkErr_def nfs_stats)

lemma ok_is_no_error: "NFS3_OK \<noteq> NFS3ERR_STALE" "NFS3_OK \<noteq> NFS3ERR_ROFS" "NFS3_OK \<noteq> NFS3ERR_ACCES" "NFS3_OK \<noteq> NFS3ERR_INVAL"
  "NFS3_OK \<noteq> NFS3ERR_EXIST" "NFS3_OK \<noteq> NFS3ERR_NOT_SYNC"
  by (simp_all add: nfs_stats)

lemmas ok_simps = error_statuses error_statuses [symmetric] ok_is_no_error ok_is_no_error [symmetric]

text \<open>C23: A successful LOOKUP hands out the handle of what it found: the reply carries the hash of the looked up
  path and of the inode and file system it reports, and from then on the table maps it to that path.\<close>
theorem lookup_hands_out:
  assumes "exec (Lookup os h name reply) s = Inr ((NFS3_OK, reply'), t)"
  shows "\<exists>dir h'. fhandleMap (backend s) h = Some dir \<and> LkObject (Resok reply') = le64 h' \<and>
    fhandleMap (backend t) h' = Some (lookup_name (config (backend s)) dir name) \<and>
    h' = makeFHandle (lookup_name (config (backend s)) dir name)
      (Fileid (Attributes (LkObj_attributes (Resok reply')))) (Fsid (Attributes (LkObj_attributes (Resok reply'))))"
proof -
  from on_object_result [OF assms [unfolded Lookup_def] ok_is_no_error(1)] show ?thesis
    by (auto simp: bindR_Inr run_Inr Let_def ok_simps follow_def
        split: if_splits option.splits dest!: getFileAttr_backend registerHandle_result)
qed

lemma with_file_result:
  "exec (with_file os f m) s = Inr (x, t) \<Longrightarrow> \<exists>u. exec m s = Inr (x, u) \<and> backend t = backend u"
  by (auto simp: with_file_def bindR_Inr run_Inr)

lemma created_result:
  assumes "exec (created os a b dir h name failed r) s = Inr ((NFS3_OK, r'), t)" and "\<And>e. failed e \<noteq> NFS3_OK"
  shows "\<exists>h'. CrObj (Resok r') = \<lparr>Handle_follows = True, Handle = le64 h'\<rparr> \<and>
    (h' \<noteq> h \<longrightarrow> fhandleMap (backend t) h' = Some name)"
  using assms
  by (auto simp: created_def assms(2) [THEN not_sym] bindR_Inr run_Inr ok_after_def fail_after_def split: option.splits
      dest!: registerHandle_result poststat_table getFileAttr_backend)

text \<open>C27: CREATE, MKDIR and SYMLINK that succeed hand out the handle of the new object: the reply says that a handle
  follows, and from then on the table maps it to the directory's path, a slash and the name (unless it
  is the handle of the directory itself, and that could not be read any more).\<close>
theorem created_hands_out:
  assumes "exec (Create os h name how reply) s = Inr ((NFS3_OK, reply'), t) \<or>
    exec (Mkdir os h name sattr reply) s = Inr ((NFS3_OK, reply'), t) \<or>
    exec (SymLink os h name target sattr reply) s = Inr ((NFS3_OK, reply'), t)"
  shows "plain_name name \<and> (\<exists>dir h'. fhandleMap (backend s) h = Some dir \<and>
    CrObj (Resok reply') = \<lparr>Handle_follows = True, Handle = le64 h'\<rparr> \<and>
    (h' \<noteq> h \<longrightarrow> fhandleMap (backend t) h' = Some (dir @ ''/'' @ name)))"
  using assms
proof (elim disjE)
  assume "exec (Create os h name how reply) s = Inr ((NFS3_OK, reply'), t)"
  from on_writable_result [OF this [unfolded Create_def] ok_is_no_error(1,2)] show ?thesis
    by (elim exE conjE) (auto simp: bindR_Inr run_Inr ok_simps fail_after_def Let_def split: if_splits sum.split_asm
        dest!: created_result with_file_result)
next
  assume "exec (Mkdir os h name sattr reply) s = Inr ((NFS3_OK, reply'), t)"
  from on_writable_result [OF this [unfolded Mkdir_def] ok_is_no_error(1,2)] show ?thesis
    by (elim exE conjE) (auto simp: bindR_Inr run_Inr ok_simps fail_after_def Let_def plain_name_def split: if_splits option.splits sum.split_asm
        dest!: created_result)
next
  assume "exec (SymLink os h name target sattr reply) s = Inr ((NFS3_OK, reply'), t)"
  from on_writable_result [OF this [unfolded SymLink_def] ok_is_no_error(1,2)] show ?thesis
    by (elim exE conjE) (auto simp: bindR_Inr run_Inr ok_simps fail_after_def Let_def split: if_splits option.splits sum.split_asm
        dest!: created_result)
qed

lemma toy_mounted_simps [simp]:
  "fhandleMap (backend (toy_mounted wa)) = [toy_root \<mapsto> ''/d'']" "config (backend (toy_mounted wa)) = toy_config wa"
  by (simp_all add: toy_mounted_def toy_started_def)

theorem lookup_hands_out_witness:
  "\<exists>reply t h'. exec (Lookup toy_os toy_root ''f'' zero_lookup) (toy_mounted True) = Inr ((NFS3_OK, reply), t) \<and>
     LkObject (Resok reply) = le64 h' \<and> fhandleMap (backend t) h' = Some ''/d/f''"
proof -
  have "map_option fst (reply_of (exec (Lookup toy_os toy_root ''f'' zero_lookup) (toy_mounted True))) = Some NFS3_OK"
    by code_simp
  then obtain reply t where "exec (Lookup toy_os toy_root ''f'' zero_lookup) (toy_mounted True) = Inr ((NFS3_OK, reply), t)"
    by (auto dest!: reply_of_Some)
  with lookup_hands_out [OF this] show ?thesis by (auto simp: lookup_name_def toy_config_def split: if_splits)
qed

theorem created_hands_out_witness:
  "\<exists>reply t h'. exec (Mkdir toy_os toy_root ''s'' \<lparr>SaMode = \<lparr>Mode_set = False, SMode = 0\<rparr>, SaUid = \<lparr>Id_set = False, SId = 0\<rparr>,
       SaGid = \<lparr>Id_set = False, SId = 0\<rparr>, SaSize = \<lparr>Size_set = False, SSize = 0\<rparr>,
       SaAtime = \<lparr>Time_set = 0, STime = zero_time\<rparr>, SaMtime = \<lparr>Time_set = 0, STime = zero_time\<rparr>\<rparr> zero_create) (toy_mounted True) =
     Inr ((NFS3_OK, reply), t) \<and> CrObj (Resok reply) = \<lparr>Handle_follows = True, Handle = le64 h'\<rparr> \<and>
     (h' \<noteq> toy_root \<longrightarrow> fhandleMap (backend t) h' = Some ''/d/s'')" (is "\<exists>reply t h'. ?m = _ \<and> _ reply h' \<and> _ t h'")
proof -
  have "map_option fst (reply_of ?m) = Some NFS3_OK" by code_simp
  then obtain reply t where m: "?m = Inr ((NFS3_OK, reply), t)" by (auto dest!: reply_of_Some)
  from created_hands_out [OF disjI2 [OF disjI1 [OF m]]] show ?thesis by (auto simp: m split: if_splits)
qed

end
