(* ===== verification/Nfs_Files.thy ===== *)
theory Nfs_Files
  imports Nfs_Handles
begin

text \<open>
  What the handlers do to the contents and the attributes of files: READ and WRITE over an operating
  system that keeps files as sequences of bytes, the access bits, and what a successful SETATTR leaves of the attributes it was given.
\<close>

section \<open>Files as the operating system keeps them\<close>

text \<open>\<^verbatim>\<open>pwrite\<close>: the bytes at an offset, the gap behind the end of the file filled with zeros.\<close>

definition overwrite :: "bytes \<Rightarrow> nat \<Rightarrow> bytes \<Rightarrow> bytes" where
  "overwrite bs off data =
     (if data = [] then bs else take off bs @ replicate (off - length bs) 0 @ data @ drop (off + length data) bs)"

lemma overwrite_read: "n \<le> length data \<Longrightarrow> take n (drop off (overwrite bs off data)) = take n data"
  by (auto simp: overwrite_def)

text \<open>
  The documented behaviour of the calls on files the two handlers rely on: \<open>content\<close> gives the bytes of a
  path, \<open>fds\<close> the path an open file was opened at.  A write may be short, a read too; nothing is assumed about
  when they fail.
\<close>

definition posix_files :: "'w os \<Rightarrow> ('w \<Rightarrow> string \<Rightarrow> bytes option) \<Rightarrow> ('w \<Rightarrow> fd \<Rightarrow> string option) \<Rightarrow> bool" where
  "posix_files os content fds \<longleftrightarrow>
     (\<forall>p w. content (snd (Lstat os p w)) = content w) \<and>
     (\<forall>p flags perm w f w'. flags \<in> {O_RDONLY, O_WRONLY} \<longrightarrow> OpenFile os p flags perm w = (Inr f, w') \<longrightarrow>
        content w' = content w \<and> fds w' f = Some p) \<and>
     (\<forall>f data off w p bs n err w'. 0 \<le> off \<longrightarrow> fds w f = Some p \<longrightarrow> content w p = Some bs \<longrightarrow>
        WriteAt os f data off w = ((n, err), w') \<longrightarrow>
        n \<le> length data \<and> content w' p = Some (overwrite bs (nat off) (take n data))) \<and>
     (\<forall>f n off w p bs r err w'. 0 \<le> off \<longrightarrow> fds w f = Some p \<longrightarrow> content w p = Some bs \<longrightarrow>
        ReadAt os f n off w = ((r, err), w') \<longrightarrow>
        length r \<le> n \<and> r = take (length r) (drop (nat off) bs) \<and> content w' = content w) \<and>
     (\<forall>f w. content (snd (Fsync os f w)) = content w \<and> content (snd (CloseFile os f w)) = content w)"

lemma posix_calls:
  assumes "posix_files os content fds"
  shows posix_look: "content (snd (Lstat os p w)) = content w" "content (snd (Fsync os f w)) = content w"
      "content (snd (CloseFile os f w)) = content w"
    and posix_open: "OpenFile os p O_RDONLY perm w = (Inr f, w') \<Longrightarrow> content w' = content w \<and> fds w' f = Some p"
      "OpenFile os p O_WRONLY perm w = (Inr f, w') \<Longrightarrow> content w' = content w \<and> fds w' f = Some p"
    and posix_write: "WriteAt os f data off w = ((n, err), w') \<Longrightarrow> 0 \<le> off \<Longrightarrow> fds w f = Some p \<Longrightarrow> content w p = Some bs \<Longrightarrow>
      n \<le> length data \<and> content w' p = Some (overwrite bs (nat off) (take n data))"
    and posix_read: "ReadAt os f m off w = ((r, err), w') \<Longrightarrow> 0 \<le> off \<Longrightarrow> fds w f = Some p \<Longrightarrow> content w p = Some bs \<Longrightarrow>
      length r \<le> m \<and> r = take (length r) (drop (nat off) bs) \<and> content w' = content w"
  using assms unfolding posix_files_def by (blast | simp)+

lemma getFileAttr_world: "exec (getFileAttrFromPath os p fa) s = Inr (x, t) \<Longrightarrow> world t = snd (Lstat os p (world s))"
  by (auto simp: getFileAttrFromPath_def run_defs split: sum.splits prod.splits)

lemma poststat_world: "exec (poststat os clear p h a) s = Inr (x, t) \<Longrightarrow> world t = snd (Lstat os p (world s))"
  by (auto simp: poststat_def getFileAttrFromPath_def run_defs split: sum.splits prod.splits option.splits)

lemma with_file_world:
  "exec (with_file os f m) s = Inr (x, t) \<Longrightarrow> \<exists>u. exec m s = Inr (x, u) \<and> world t = snd (CloseFile os f (world u))"
  by (auto simp: with_file_def bindR_Inr run_Inr)

lemma on_writable_world:
  assumes "exec (on_writable os h okw r body) s = Inr ((st, r'), t)" and "st \<noteq> NFS3ERR_STALE" and "st \<noteq> NFS3ERR_ROFS"
  shows "\<exists>p fa u. fhandleMap (backend s) h = Some p \<and> world u = snd (Lstat os p (world s)) \<and>
    exec (body p fa (set_before okw fa r)) u = Inr ((st, r'), t)"
  using assms by (auto simp: on_writable_def bindR_Inr run_Inr getValuefromHandle_def Let_def split: option.splits prod.splits if_splits
      dest!: getFileAttr_world)

section \<open>READ and WRITE\<close>

lemma sint_offset:
  assumes "unat (off :: u64) < 2 ^ 63"
  shows "sint off = int (unat off)"
proof -
  have "uint off < 2 ^ 63"
    unfolding uint_nat using assms by (simp only: of_nat_less_numeral_power_cancel_iff)
  moreover have "- (2 ^ 63) \<le> uint off" by (rule order_trans [of _ 0]) simp_all
  ultimately show ?thesis by (simp add: sint_uint signed_take_bit_int_eq_self)
qed

lemma ok_after_result:
  "exec (ok_after os clear p h get okw st r) s = Inr ((st', r'), t) \<Longrightarrow>
   world t = snd (Lstat os p (world s)) \<and> (\<exists>a. r' = r\<lparr>Resok := okw (WAfter_update (\<lambda>_. a)) (Resok r)\<rparr>)"
  by (auto simp: ok_after_def bindR_Inr run_Inr dest!: poststat_world)

lemma write_open_result:
  assumes "exec (write_open os f p h off st data r) s = Inr ((NFS3_OK, r'), t)"
  shows "\<exists>n err w. WriteAt os f data (sint off) (world s) = ((n, err), w) \<and> WrCount (Resok r') = of_nat n \<and>
    world t \<in> {snd (Lstat os p w), snd (Lstat os p (snd (Fsync os f w)))}"
proof -
  obtain n err w where w: "WriteAt os f data (sint off) (world s) = ((n, err), w)"
    by (cases "WriteAt os f data (sint off) (world s)") auto
  with assms have "WrCount (Resok r') = of_nat n \<and> world t \<in> {snd (Lstat os p w), snd (Lstat os p (snd (Fsync os f w)))}"
    by (auto simp: write_open_def bindR_Inr run_Inr ok_simps fail_after_def split: if_splits dest!: ok_after_result)
  with w show ?thesis by blast
qed

lemma Write_steps:
  assumes "exec (Write os h off cnt st data r) s = Inr ((NFS3_OK, r'), t)"
  shows "\<exists>p f u v r1. fhandleMap (backend s) h = Some p \<and>
    OpenFile os p O_WRONLY 0x1B6 (snd (Lstat os p (world s))) = (Inr f, world u) \<and>
    exec (write_open os f p h off st data r1) u = Inr ((NFS3_OK, r'), v) \<and> world t = snd (CloseFile os f (world v))"
proof -
  from on_writable_world [OF assms [unfolded Write_def] ok_is_no_error(1,2)]
  show ?thesis
  proof (elim exE conjE)
    fix p fa u
    assume p: "fhandleMap (backend s) h = Some p" and u: "world u = snd (Lstat os p (world s))"
      and run: "exec (if FType fa = NF3REG then bindR (sys (OpenFile os p O_WRONLY 0x1B6)) (\<lambda>r'. case r' of
           Inr f \<Rightarrow> with_file os f (write_open os f p h off st data (set_before WrFile_wcc_update fa r))
         | Inl err \<Rightarrow> bindR (liftG (PathError_Errno err)) (\<lambda>e. fail_after os False p h (getWriteErr e) (set_before WrFile_wcc_update fa r)))
         else fail_after os False p h NFS3ERR_INVAL (set_before WrFile_wcc_update fa r)) u = Inr ((NFS3_OK, r'), t)"
    obtain x w where x: "OpenFile os p O_WRONLY 0x1B6 (world u) = (x, w)"
      by (cases "OpenFile os p O_WRONLY 0x1B6 (world u)")
    with run obtain f where f: "x = Inr f"
      and w: "exec (with_file os f (write_open os f p h off st data (set_before WrFile_wcc_update fa r))) (u\<lparr>world := w\<rparr>) = Inr ((NFS3_OK, r'), t)"
      by (cases x) (auto simp: bindR_Inr run_Inr ok_simps fail_after_def split: if_splits)
    from with_file_world [OF w] obtain v where
      "exec (write_open os f p h off st data (set_before WrFile_wcc_update fa r)) (u\<lparr>world := w\<rparr>) = Inr ((NFS3_OK, r'), v)"
      and "world t = snd (CloseFile os f (world v))" by blast
    with p u x f show ?thesis
      by (intro exI [of _ p] exI [of _ f] exI [of _ "u\<lparr>world := w\<rparr>"] exI [of _ v] exI [of _ "set_before WrFile_wcc_update fa r"]) simp
  qed
qed

lemma Write_result:
  assumes "posix_files os content fds" and "unat off < 2 ^ 63" and "fhandleMap (backend s) h = Some p"
    and "content (world s) p = Some bs" and "exec (Write os h off cnt st data r) s = Inr ((NFS3_OK, r'), t)"
  shows "\<exists>n \<le> length data. WrCount (Resok r') = of_nat n \<and> content (world t) p = Some (overwrite bs (unat off) (take n data))"
proof -
  from Write_steps [OF assms(5)] assms(3) obtain f u v r1 where
    f: "OpenFile os p O_WRONLY 0x1B6 (snd (Lstat os p (world s))) = (Inr f, world u)"
    and wr: "exec (write_open os f p h off st data r1) u = Inr ((NFS3_OK, r'), v)"
    and t: "world t = snd (CloseFile os f (world v))" by auto
  from posix_open(2) [OF assms(1) f] assms(4) have u: "fds (world u) f = Some p" "content (world u) p = Some bs"
    by (simp_all add: posix_look [OF assms(1)])
  from write_open_result [OF wr] obtain n err w where
    w: "WriteAt os f data (sint off) (world u) = ((n, err), w)" and n: "WrCount (Resok r') = of_nat n"
    and v: "world v \<in> {snd (Lstat os p w), snd (Lstat os p (snd (Fsync os f w)))}" by blast
  from posix_write [OF assms(1) w _ u] have "n \<le> length data \<and> content w p = Some (overwrite bs (unat off) (take n data))"
    by (simp add: sint_offset [OF assms(2)])
  moreover have "content (world t) = content w"
    using v t by (auto simp: posix_look [OF assms(1)])
  ultimately show ?thesis using n by auto
qed

lemma read_open_result:
  assumes "exec (read_open os f p h off n r) s = Inr ((NFS3_OK, r'), t)"
  shows "\<exists>bs err w. ReadAt os f (min (unat n) (unat tcpMaxData)) (sint off) (world s) = ((bs, err), w) \<and>
    RdrCount (Resok r') = of_nat (length bs) \<and> (RdEof (Resok r') \<longleftrightarrow> err = Some OsEOF) \<and>
    RdData (Resok r') = (if err = Some OsEOF \<and> bs = [] then [] else fill_buffer (min (unat n) (unat tcpMaxData)) bs)"
proof -
  have m: "unat (if n > tcpMaxData then tcpMaxData else n) = min (unat n) (unat tcpMaxData)"
    by (simp add: min_def word_less_nat_alt)
  obtain bs err w where w: "ReadAt os f (min (unat n) (unat tcpMaxData)) (sint off) (world s) = ((bs, err), w)"
    by (cases "ReadAt os f (min (unat n) (unat tcpMaxData)) (sint off) (world s)") auto
  with assms show ?thesis
    by (auto simp: read_open_def Let_def m bindR_Inr run_Inr ok_simps split: if_splits)
qed

lemma Read_steps:
  assumes "exec (Read os h off n r) s = Inr ((NFS3_OK, r'), t)"
  shows "\<exists>p f u v. fhandleMap (backend s) h = Some p \<and>
    OpenFile os p O_RDONLY 0 (snd (Lstat os p (world s))) = (Inr f, world u) \<and>
    exec (read_open os f p h off n r) u = Inr ((NFS3_OK, r'), v)"
proof -
  obtain p where p: "fhandleMap (backend s) h = Some p"
    using assms by (auto simp: Read_def bindR_Inr run_Inr getValuefromHandle_def ok_simps split: option.splits)
  obtain fa u where u: "world u = snd (Lstat os p (world s))"
    and run: "exec (bindR (sys (OpenFile os p O_RDONLY 0)) (\<lambda>x. case x of
       Inr f \<Rightarrow> with_file os f (read_open os f p h off n r)
     | Inl err \<Rightarrow> bindR (liftG (PathError_Errno err)) (\<lambda>e. bindR (poststat os False p h (Resfail r)) (\<lambda>a.
         ret (getReadErr e, r\<lparr>Resfail := a\<rparr>))))) u = Inr ((NFS3_OK, r'), t)"
    using assms p by (auto simp: Read_def bindR_Inr run_Inr getValuefromHandle_def ok_simps
        split: option.splits if_splits dest!: getFileAttr_world)
  obtain x w where x: "OpenFile os p O_RDONLY 0 (world u) = (x, w)"
    by (cases "OpenFile os p O_RDONLY 0 (world u)")
  with run obtain f where f: "x = Inr f"
    and w: "exec (with_file os f (read_open os f p h off n r)) (u\<lparr>world := w\<rparr>) = Inr ((NFS3_OK, r'), t)"
    by (cases x) (auto simp: bindR_Inr run_Inr ok_simps)
  from with_file_world [OF w] obtain v where "exec (read_open os f p h off n r) (u\<lparr>world := w\<rparr>) = Inr ((NFS3_OK, r'), v)"
    by blast
  with p u x f show ?thesis
    by (intro exI [of _ p] exI [of _ f] exI [of _ "u\<lparr>world := w\<rparr>"] exI [of _ v]) simp
qed

text \<open>C5: What WRITE has written, READ gives back: after a successful WRITE of \<open>data\<close> at an offset, a successful READ at
  this offset returns, for as many bytes as both of them report (either may be short), the bytes of \<open>data\<close>,
  whatever requests have been served in between that leave the file as it is.\<close>
theorem write_then_read:
  assumes "posix_files os content fds" and "unat off < 2 ^ 63" and "length data < 2 ^ 32"
    and "fhandleMap (backend s) h = Some p" and "content (world s) p = Some bs"
    and "exec (Write os h off cnt st data r) s = Inr ((NFS3_OK, written), t)"
    and "fhandleMap (backend u) h = Some p" and "content (world u) p = content (world t) p"
    and "exec (Read os h off n r') u = Inr ((NFS3_OK, got), v)"
    and "RdrCount (Resok got) \<le> WrCount (Resok written)"
  shows "take (unat (RdrCount (Resok got))) (RdData (Resok got)) = take (unat (RdrCount (Resok got))) data"
proof -
  from Write_result [OF assms(1,2,4-6)] obtain m where m: "m \<le> length data" "WrCount (Resok written) = of_nat m"
    and c: "content (world u) p = Some (overwrite bs (unat off) (take m data))" by (auto simp: assms(8))
  from Read_steps [OF assms(9)] assms(7) obtain f w v' where
    f: "OpenFile os p O_RDONLY 0 (snd (Lstat os p (world u))) = (Inr f, world w)"
    and rd: "exec (read_open os f p h off n r') w = Inr ((NFS3_OK, got), v')" by auto
  from posix_open(1) [OF assms(1) f] c have w: "fds (world w) f = Some p" "content (world w) p = Some (overwrite bs (unat off) (take m data))"
    by (simp_all add: posix_look [OF assms(1)])
  define k where "k = min (unat n) (unat tcpMaxData)"
  from read_open_result [OF rd] obtain rs err x where
    x: "ReadAt os f k (sint off) (world w) = ((rs, err), x)" and n: "RdrCount (Resok got) = of_nat (length rs)"
    and d: "RdData (Resok got) = (if err = Some OsEOF \<and> rs = [] then [] else fill_buffer k rs)" by (auto simp: k_def)
  from posix_read [OF assms(1) x _ w] have rs: "length rs \<le> k" "rs = take (length rs) (drop (unat off) (overwrite bs (unat off) (take m data)))"
    by (simp_all add: sint_offset [OF assms(2)])
  have k: "k < 2 ^ 32" by (simp add: k_def tcpMaxData_def min_def)
  with rs have len: "unat (RdrCount (Resok got)) = length rs"
    by (simp add: n unat_of_nat take_bit_nat_eq_self)
  have "length rs \<le> m"
    using assms(10) m assms(3) rs(1) k by (simp add: n word_le_nat_alt unat_of_nat take_bit_nat_eq_self)
  with rs(2) m(1) have "rs = take (length rs) data" by (simp add: overwrite_read)
  then show ?thesis
    using d rs(1) by (simp add: len fill_buffer_def)
qed

text \<open>An operating system with the one file \<^verbatim>\<open>/d/f\<close>, whose bytes are the world.\<close>

definition disk_os :: "bytes os" where
  "disk_os = \<lparr>
     Lstat = (\<lambda>p w. (toy_stat p, w)), Statfs = (\<lambda>p w. (Inl (Errno ENOSYS), w)),
     OpenFile = (\<lambda>p flags perm w. (if p = ''/d/f'' then Inr 3 else Inl (PathError (Errno EACCES)), w)),
     Readdir = (\<lambda>f w. (Inr [], w)),
     ReadAt = (\<lambda>f n off w. ((take n (drop (nat off) w), if length w < nat off + n then Some OsEOF else None), w)),
     WriteAt = (\<lambda>f data off w. ((length data, None), overwrite w (nat off) data)),
     Fsync = (\<lambda>f w. (None, w)), CloseFile = (\<lambda>f w. (None, w)),
     Mkdir_sys = (\<lambda>p perm w. (Some (PathError (Errno EROFS)), w)), Rename_sys = (\<lambda>p q w. (Some (LinkError (Errno EROFS)), w)),
     Truncate = (\<lambda>p n w. (Some (PathError (Errno EINVAL)), w)), Chmod = (\<lambda>p m w. (None, w)), Chtimes = (\<lambda>p a m w. (None, w)),
     Unlink = (\<lambda>p w. (Some (Errno EROFS), w)), Rmdir_sys = (\<lambda>p w. (Some (Errno EROFS), w)),
     Link_sys = (\<lambda>p q w. (Some (LinkError (Errno EROFS)), w)), Symlink_sys = (\<lambda>t p w. (Some (LinkError (Errno EROFS)), w)),
     Readlink_sys = (\<lambda>p w. (Inl (PathError (Errno EINVAL)), w)), Geteuid = 7, Getegid = 7\<rparr>"

lemma disk_posix: "posix_files disk_os (\<lambda>w. [''/d/f'' \<mapsto> w]) (\<lambda>w f. Some ''/d/f'')"
  unfolding posix_files_def by (auto simp: disk_os_def min_def split: if_splits)

lemma disk_user [simp]: "Geteuid disk_os = 7" "Getegid disk_os = 7"
  by (simp_all add: disk_os_def)

definition disk_srv :: "bytes \<Rightarrow> bytes srv" where
  "disk_srv w = \<lparr>backend = (newBackend 1)\<lparr>config := toy_config True, fhandleMap := [5 \<mapsto> ''/d/f'']\<rparr>, world = w\<rparr>"

theorem write_then_read_witness:
  "\<exists>written t got v. exec (Write disk_os 5 3 2 UNSTABLE [8, 9] zero_write) (disk_srv [1, 2, 3, 4, 5, 6]) = Inr ((NFS3_OK, written), t) \<and>
     exec (Read disk_os 5 3 2 zero_read) t = Inr ((NFS3_OK, got), v) \<and> take 2 (RdData (Resok got)) = [8, 9]"
proof -
  let ?w = "exec (Write disk_os 5 3 2 UNSTABLE [8, 9] zero_write) (disk_srv [1, 2, 3, 4, 5, 6])"
  have "map_option (\<lambda>(st, r). (st, WrCount (Resok r))) (reply_of ?w) = Some (NFS3_OK, 2)" by code_simp
  then obtain written t where w: "?w = Inr ((NFS3_OK, written), t)" and n: "WrCount (Resok written) = 2"
    by (auto dest!: reply_of_Some)
  have t: "(case ?w of Inr (_, t) \<Rightarrow> map_option (\<lambda>(st, r). (st, RdrCount (Resok r))) (reply_of (exec (Read disk_os 5 3 2 zero_read) t)) = Some (NFS3_OK, 2)
      \<and> fhandleMap (backend t) 5 = Some ''/d/f'' | _ \<Rightarrow> False)" by code_simp
  with w obtain got v where r: "exec (Read disk_os 5 3 2 zero_read) t = Inr ((NFS3_OK, got), v)" and m: "RdrCount (Resok got) = 2"
    by (auto dest!: reply_of_Some)
  have "take (unat (RdrCount (Resok got))) (RdData (Resok got)) = take (unat (RdrCount (Resok got))) [8, 9]"
    by (rule write_then_read [OF disk_posix _ _ _ _ w _ _ r]) (use t w n m in \<open>simp_all add: disk_srv_def\<close>)
  with w r m show ?thesis by auto
qed

text \<open>C33: READ stays within its bounds: it reports no more bytes than asked for and never more than \<^verbatim>\<open>tcpMaxData\<close>.  The data
  of the reply is a buffer of that full size, zero behind the bytes read, also when fewer were read; it is
  empty only at the end of the file when nothing was read.\<close>
theorem Read_bounds:
  assumes "\<forall>f k x w. length (fst (fst (ReadAt os f k x w))) \<le> k"
    and "exec (Read os h off n r) s = Inr ((NFS3_OK, got), t)"
  shows "unat (RdrCount (Resok got)) \<le> min (unat n) 524288 \<and>
    (if RdEof (Resok got) \<and> RdrCount (Resok got) = 0 then RdData (Resok got) = []
     else length (RdData (Resok got)) = min (unat n) 524288 \<and>
       list_all (\<lambda>b. b = 0) (drop (unat (RdrCount (Resok got))) (RdData (Resok got))))"
proof -
  from Read_steps [OF assms(2)] obtain f p u v where "exec (read_open os f p h off n r) u = Inr ((NFS3_OK, got), v)" by blast
  moreover have max: "unat tcpMaxData = 524288" by (simp add: tcpMaxData_def)
  ultimately obtain rs err x where x: "ReadAt os f (min (unat n) 524288) (sint off) (world u) = ((rs, err), x)"
    and n: "RdrCount (Resok got) = of_nat (length rs)" "RdEof (Resok got) \<longleftrightarrow> err = Some OsEOF"
    and d: "RdData (Resok got) = (if err = Some OsEOF \<and> rs = [] then [] else fill_buffer (min (unat n) 524288) rs)"
    using read_open_result [of os f p h off n r u got v] by auto
  from assms(1) [rule_format, of f "min (unat n) 524288" "sint off" "world u"] x
  have len: "length rs \<le> min (unat n) 524288" by simp
  then have "length rs < 2 ^ 32" by simp
  then have "unat (of_nat (length rs) :: u32) = length rs" by (simp add: unat_of_nat take_bit_nat_eq_self)
  moreover from this have "(of_nat (length rs) :: u32) = 0 \<longleftrightarrow> rs = []" by (metis length_0_conv unat_eq_zero)
  ultimately show ?thesis using len n d by (auto simp: fill_buffer_def list_all_iff)
qed

theorem Read_bounds_witness:
  "\<exists>got t. exec (Read disk_os 5 3 200 zero_read) (disk_srv [1, 2, 3, 4, 5, 6]) = Inr ((NFS3_OK, got), t) \<and>
     RdrCount (Resok got) = 3 \<and> length (RdData (Resok got)) = 200"
proof -
  let ?r = "exec (Read disk_os 5 3 200 zero_read) (disk_srv [1, 2, 3, 4, 5, 6])"
  have "map_option (\<lambda>(st, r). (st, RdrCount (Resok r))) (reply_of ?r) = Some (NFS3_OK, 3)" by code_simp
  then obtain got t where r: "?r = Inr ((NFS3_OK, got), t)" and m: "RdrCount (Resok got) = 3"
    by (auto dest!: reply_of_Some)
  have "\<forall>f k x w. length (fst (fst (ReadAt disk_os f k x w))) \<le> k" by (simp add: disk_os_def)
  from Read_bounds [OF this r] m r show ?thesis by auto
qed

section \<open>ACCESS\<close>

text \<open>The permission bits are those of \<^verbatim>\<open>rwxrwxrwx\<close>: three for the owner (6 to 8), the group and the others.\<close>

definition perm_class :: "int \<Rightarrow> int \<Rightarrow> Fattr3 \<Rightarrow> nat" where
  "perm_class euid egid fattr = (if euid = uint (FUid fattr) then 6 else if egid = uint (FGid fattr) then 3 else 0)"

definition rwx_access :: "bool \<Rightarrow> bool \<Rightarrow> bool \<Rightarrow> bool \<Rightarrow> u32" where
  "rwx_access dir r w x =
     of_bool r OR (if dir \<and> (r \<or> x) then 2 else 0) OR (if w then 12 else 0) OR (if dir \<and> w then 16 else 0) OR
     (if \<not> dir \<and> x then 32 else 0)"

lemma mode_bits:
  "(m :: u32) AND 0x100 = 0 \<longleftrightarrow> \<not> bit m 8" "m AND 0x80 = 0 \<longleftrightarrow> \<not> bit m 7" "m AND 0x40 = 0 \<longleftrightarrow> \<not> bit m 6"
  "m AND 0x20 = 0 \<longleftrightarrow> \<not> bit m 5" "m AND 0x10 = 0 \<longleftrightarrow> \<not> bit m 4" "m AND 0x8 = 0 \<longleftrightarrow> \<not> bit m 3"
  "m AND 0x4 = 0 \<longleftrightarrow> \<not> bit m 2" "m AND 0x2 = 0 \<longleftrightarrow> \<not> bit m 1" "m AND 0x1 = 0 \<longleftrightarrow> \<not> bit m 0"
  using and_exp_eq_0_iff_not_bit [of m 8] and_exp_eq_0_iff_not_bit [of m 7] and_exp_eq_0_iff_not_bit [of m 6]
    and_exp_eq_0_iff_not_bit [of m 5] and_exp_eq_0_iff_not_bit [of m 4] and_exp_eq_0_iff_not_bit [of m 3]
    and_exp_eq_0_iff_not_bit [of m 2] and_exp_eq_0_iff_not_bit [of m 1] and_exp_eq_0_iff_not_bit [of m 0]
  by simp_all

lemma access_class_eq:
  assumes "m AND mr = 0 \<longleftrightarrow> \<not> r" and "m AND mw = 0 \<longleftrightarrow> \<not> w" and "m AND mx = 0 \<longleftrightarrow> \<not> x"
  shows "access_class m mr mw mx = rwx_access False r w x"
  unfolding access_class_def assms rwx_access_def access_bits by (cases r; cases w; cases x; simp)

lemma rwx_access_dir:
  "rwx_access True r w x =
     (let access = (if rwx_access False r w x AND (ACCESS3_READ OR ACCESS3_EXECUTE) \<noteq> 0
                    then rwx_access False r w x OR ACCESS3_LOOKUP else rwx_access False r w x);
          access = (if access AND ACCESS3_MODIFY \<noteq> 0 then access OR ACCESS3_DELETE else access) in
      access AND NOT ACCESS3_EXECUTE)"
  unfolding rwx_access_def access_bits by (cases r; cases w; cases x; simp)

lemma access_bits_of_eq:
  "access_bits_of euid egid fattr = rwx_access (FType fattr = NF3DIR) (bit (FMode fattr) (perm_class euid egid fattr + 2))
     (bit (FMode fattr) (perm_class euid egid fattr + 1)) (bit (FMode fattr) (perm_class euid egid fattr))"
proof -
  have "(if euid = uint (FUid fattr) then access_class (FMode fattr) 0x100 0x80 0x40
         else if egid = uint (FGid fattr) then access_class (FMode fattr) 0x20 0x10 0x8
         else access_class (FMode fattr) 0x4 0x2 0x1) =
    rwx_access False (bit (FMode fattr) (perm_class euid egid fattr + 2)) (bit (FMode fattr) (perm_class euid egid fattr + 1))
      (bit (FMode fattr) (perm_class euid egid fattr))"
    by (simp add: perm_class_def access_class_eq [OF mode_bits(1-3)] access_class_eq [OF mode_bits(4-6)]
        access_class_eq [OF mode_bits(7-9)] numeral_2_eq_2)
  then show ?thesis
    unfolding access_bits_of_def Let_def by (simp add: rwx_access_dir Let_def)
qed

lemma rwx_access_bits:
  "rwx_access dir r w x < 64" "bit (rwx_access dir r w x) 0 = r" "bit (rwx_access dir r w x) 1 = (dir \<and> (r \<or> x))"
  "bit (rwx_access dir r w x) 2 = w" "bit (rwx_access dir r w x) 3 = w" "bit (rwx_access dir r w x) 4 = (dir \<and> w)"
  "bit (rwx_access dir r w x) 5 = (\<not> dir \<and> x)"
  unfolding rwx_access_def by (cases dir; cases r; cases w; cases x; simp)+

text \<open>C30: ACCESS answers from the permission bits of the class (owner, group or others) the server process itself is in:
  READ for r, MODIFY and EXTEND for w; for a directory LOOKUP for r or x and DELETE for w, and never EXECUTE, which
  only a file with x gets.  No other bit is set, and the mask the client asked about plays no role.\<close>
theorem Access_correct:
  assumes "exec (Access os h asked reply) s = Inr ((NFS3_OK, reply'), t)"
  shows "let fattr = Attributes (AcObj_attributes (Resok reply')); a = Access3 (Resok reply'); dir = (FType fattr = NF3DIR);
           c = perm_class (Geteuid os) (Getegid os) fattr;
           r = bit (FMode fattr) (c + 2); w = bit (FMode fattr) (c + 1); x = bit (FMode fattr) c in
         (\<forall>asked'. Access os h asked' reply = Access os h asked reply) \<and> a < 64 \<and>
         (bit a 0 = r) \<and> (bit a 1 = (dir \<and> (r \<or> x))) \<and> (bit a 2 = w) \<and> (bit a 3 = w) \<and>
         (bit a 4 = (dir \<and> w)) \<and> (bit a 5 = (\<not> dir \<and> x))"
proof -
  have a: "Access3 (Resok reply') = access_bits_of (Geteuid os) (Getegid os) (Attributes (AcObj_attributes (Resok reply')))"
    using assms by (auto simp: Access_def on_object_def bindR_Inr run_Inr getValuefromHandle_def ok_simps split: option.splits)
  show ?thesis
    unfolding Let_def a access_bits_of_eq by (simp add: rwx_access_bits [unfolded One_nat_def] Access_def)
qed

theorem Access_correct_witness:
  "\<exists>reply t. exec (Access disk_os 5 0 zero_access) (disk_srv []) = Inr ((NFS3_OK, reply), t) \<and>
     bit (Access3 (Resok reply)) 0 \<and> bit (Access3 (Resok reply)) 2 \<and> \<not> bit (Access3 (Resok reply)) 1"
proof -
  have "map_option (\<lambda>(st, r). (st, let a = Attributes (AcObj_attributes (Resok r)) in (FType a, FMode a, FUid a)))
      (reply_of (exec (Access disk_os 5 0 zero_access) (disk_srv []))) = Some (NFS3_OK, (1, 0x1A4, 7))" by code_simp
  then obtain reply t where a: "exec (Access disk_os 5 0 zero_access) (disk_srv []) = Inr ((NFS3_OK, reply), t)"
    and m: "FType (Attributes (AcObj_attributes (Resok reply))) = 1" "FMode (Attributes (AcObj_attributes (Resok reply))) = 0x1A4"
      "FUid (Attributes (AcObj_attributes (Resok reply))) = 7"
    by (auto dest!: reply_of_Some simp: Let_def)
  from Access_correct [OF a] show ?thesis
    by (simp add: a Let_def m perm_class_def nfs_ftypes)
qed

section \<open>SETATTR\<close>

text \<open>
  The attributes of a file or directory (not of a symbolic link) as \<open>at\<close> gives them, and the documented behaviour of the
  calls: \<^verbatim>\<open>lstat\<close> shows them and changes nothing; \<^verbatim>\<open>truncate\<close> sets the size, and may touch the time of modification;
  \<^verbatim>\<open>chmod\<close> sets the permission bits; \<^verbatim>\<open>Chtimes\<close> sets both times, where the nanoseconds are less than a second.  Each may
  change the ctime.  Nothing is assumed about when the calls fail, or what they do then.
\<close>

record attrs =
  ASize :: int
  AMode :: u32
  AAtime :: Nfstime3
  AMtime :: Nfstime3
  ACtime :: Nfstime3

definition shows_attrs :: "FileInfo \<Rightarrow> attrs \<Rightarrow> bool" where
  "shows_attrs fi a \<longleftrightarrow> (let f = fst (fill_fattr fi zero_fattr) in
     FAtime f = AAtime a \<and> FMtime f = AMtime a \<and> FCtime f = ACtime a \<and>
     Nseconds (AAtime a) < 1000000000 \<and> Nseconds (AMtime a) < 1000000000)"

definition posix_attrs :: "'w os \<Rightarrow> ('w \<Rightarrow> string \<Rightarrow> attrs option) \<Rightarrow> bool" where
  "posix_attrs os at \<longleftrightarrow>
     (\<forall>p w. at (snd (Lstat os p w)) = at w) \<and>
     (\<forall>p w a fi. at w p = Some a \<longrightarrow> fst (Lstat os p w) = Inr fi \<longrightarrow> FiSys fi \<noteq> None \<longrightarrow> shows_attrs fi a) \<and>
     (\<forall>p w a n. at w p = Some a \<longrightarrow> fst (Truncate os p n w) = None \<longrightarrow>
        (\<exists>b. at (snd (Truncate os p n w)) p = Some b \<and> ASize b = n \<and> AMode b = AMode a \<and> AAtime b = AAtime a)) \<and>
     (\<forall>p w a m. at w p = Some a \<longrightarrow> fst (Chmod os p m w) = None \<longrightarrow>
        (\<exists>b. at (snd (Chmod os p m w)) p = Some b \<and> ASize b = ASize a \<and> AMode b = m AND ModePerm \<and>
           AAtime b = AAtime a \<and> AMtime b = AMtime a)) \<and>
     (\<forall>p w a x y. at w p = Some a \<longrightarrow> Nseconds x < 1000000000 \<longrightarrow> Nseconds y < 1000000000 \<longrightarrow> fst (Chtimes os p x y w) = None \<longrightarrow>
        (\<exists>b. at (snd (Chtimes os p x y w)) p = Some b \<and> ASize b = ASize a \<and> AMode b = AMode a \<and> AAtime b = x \<and> AMtime b = y))"

lemma posix_attr_calls:
  assumes "posix_attrs os at"
  shows attr_look: "at (snd (Lstat os p w)) = at w"
    and attr_shown: "at w p = Some a \<Longrightarrow> fst (Lstat os p w) = Inr fi \<Longrightarrow> FiSys fi \<noteq> None \<Longrightarrow> shows_attrs fi a"
    and attr_truncate: "at w p = Some a \<Longrightarrow> Truncate os p n w = (None, w') \<Longrightarrow>
      \<exists>b. at w' p = Some b \<and> ASize b = n \<and> AMode b = AMode a \<and> AAtime b = AAtime a"
    and attr_chmod: "at w p = Some a \<Longrightarrow> Chmod os p m w = (None, w') \<Longrightarrow>
      \<exists>b. at w' p = Some b \<and> ASize b = ASize a \<and> AMode b = m AND ModePerm \<and> AAtime b = AAtime a \<and> AMtime b = AMtime a"
    and attr_chtimes: "at w p = Some a \<Longrightarrow> Chtimes os p x y w = (None, w') \<Longrightarrow> Nseconds x < 1000000000 \<Longrightarrow> Nseconds y < 1000000000 \<Longrightarrow>
      \<exists>b. at w' p = Some b \<and> ASize b = ASize a \<and> AMode b = AMode a \<and> AAtime b = x \<and> AMtime b = y"
proof -
  note c = assms [unfolded posix_attrs_def]
  show "at (snd (Lstat os p w)) = at w" using c by blast
  show "at w p = Some a \<Longrightarrow> fst (Lstat os p w) = Inr fi \<Longrightarrow> FiSys fi \<noteq> None \<Longrightarrow> shows_attrs fi a" using c by blast
  show "\<exists>b. at w' p = Some b \<and> ASize b = n \<and> AMode b = AMode a \<and> AAtime b = AAtime a"
    if "at w p = Some a" "Truncate os p n w = (None, w')"
    using c [THEN conjunct2, THEN conjunct2, THEN conjunct1, rule_format, OF that(1), of n] that(2) by simp
  show "\<exists>b. at w' p = Some b \<and> ASize b = ASize a \<and> AMode b = m AND ModePerm \<and> AAtime b = AAtime a \<and> AMtime b = AMtime a"
    if "at w p = Some a" "Chmod os p m w = (None, w')"
    using c [THEN conjunct2, THEN conjunct2, THEN conjunct2, THEN conjunct1, rule_format, OF that(1), of m] that(2) by simp
  show "\<exists>b. at w' p = Some b \<and> ASize b = ASize a \<and> AMode b = AMode a \<and> AAtime b = x \<and> AMtime b = y"
    if "at w p = Some a" "Chtimes os p x y w = (None, w')" "Nseconds x < 1000000000" "Nseconds y < 1000000000"
    using c [THEN conjunct2, THEN conjunct2, THEN conjunct2, THEN conjunct2, rule_format, OF that(1,3,4)] that(2) by simp
qed

lemma set_step_ok:
  "exec (set_step b call m) (s\<lparr>world := v\<rparr>) = Inr (NFS3_OK, t) \<Longrightarrow>
   \<exists>w. (if b then call v = (None, w) else w = v) \<and> exec m (s\<lparr>world := w\<rparr>) = Inr (NFS3_OK, t)"
  by (cases "call v") (auto simp: set_step_def bindR_Inr run_Inr ok_simps split: if_splits option.splits)

lemma attr_read:
  assumes "exec (getFileAttrFromPath os p fa) s = Inr ((fa', None), t)"
  shows "\<exists>fi. fst (Lstat os p (world s)) = Inr fi \<and> FiSys fi \<noteq> None \<and> fa' = fst (fill_fattr fi fa) \<and>
    t = s\<lparr>world := snd (Lstat os p (world s))\<rparr>"
proof -
  obtain r w where r: "Lstat os p (world s) = (r, w)" by (cases "Lstat os p (world s)")
  with assms obtain fi where fi: "r = Inr fi" "fill_fattr fi fa = (fa', None)" "t = s\<lparr>world := w\<rparr>"
    by (cases r) (auto simp: getFileAttrFromPath_def run_defs split: sum.splits)
  then have "FiSys fi \<noteq> None" by (auto simp: fill_fattr_def Let_def split: option.splits)
  with r fi show ?thesis by simp
qed

lemma on_writable_attr:
  assumes "exec (on_writable os h okw r body) s = Inr ((st, r'), t)" and "st \<noteq> NFS3ERR_STALE" and "st \<noteq> NFS3ERR_ROFS"
  shows "\<exists>p fi u. fhandleMap (backend s) h = Some p \<and> writeaccess (config (backend s)) \<and> fst (Lstat os p (world s)) = Inr fi \<and>
    FiSys fi \<noteq> None \<and> world u = snd (Lstat os p (world s)) \<and>
    exec (body p (fst (fill_fattr fi zero_fattr)) (set_before okw (fst (fill_fattr fi zero_fattr)) r)) u = Inr ((st, r'), t)"
proof -
  from assms obtain p where p: "fhandleMap (backend s) h = Some p"
    by (cases "fhandleMap (backend s) h") (auto simp: on_writable_def bindR_Inr run_Inr getValuefromHandle_def)
  with assms obtain fa u where u: "exec (getFileAttrFromPath os p zero_fattr) s = Inr ((fa, None), u)"
    and run: "exec (bindR (getBE (\<lambda>be. writeaccess (config be))) (\<lambda>wa. if \<not> wa
       then ret (NFS3ERR_ROFS, (set_before okw fa r)\<lparr>Resfail := (Resfail (set_before okw fa r))\<lparr>WAfter := follow fa\<rparr>\<rparr>)
       else body p fa (set_before okw fa r))) u = Inr ((st, r'), t)"
    by (auto simp: on_writable_def bindR_Inr run_Inr getValuefromHandle_def Let_def split: option.splits)
  from attr_read [OF u] obtain fi where "fst (Lstat os p (world s)) = Inr fi" "FiSys fi \<noteq> None"
    "fa = fst (fill_fattr fi zero_fattr)" "u = s\<lparr>world := snd (Lstat os p (world s))\<rparr>" by blast
  with p run assms(3) show ?thesis
    by (intro exI [of _ p] exI [of _ fi] exI [of _ u]) (auto simp: bindR_Inr run_Inr split: if_splits)
qed

text \<open>The file has the size, the mode and the times that were asked for, and what was not asked for is as before; the
  time of modification is only known where it was set, together with the other time or without a change of the size.\<close>

definition attributes_set :: "Sattr3 \<Rightarrow> attrs \<Rightarrow> attrs \<Rightarrow> bool" where
  "attributes_set sa a b \<longleftrightarrow>
     ASize b = (if Size_set (SaSize sa) then sint (SSize (SaSize sa)) else ASize a) \<and>
     AMode b = (if Mode_set (SaMode sa) then SMode (SaMode sa) AND ModePerm else AMode a) \<and>
     AAtime b = (if Time_set (SaAtime sa) \<noteq> DONT_CHANGE then STime (SaAtime sa) else AAtime a) \<and>
     (if Time_set (SaMtime sa) \<noteq> DONT_CHANGE then AMtime b = STime (SaMtime sa)
      else Size_set (SaSize sa) \<and> Time_set (SaAtime sa) = DONT_CHANGE \<or> AMtime b = AMtime a)"

definition times_valid :: "Sattr3 \<Rightarrow> bool" where
  "times_valid sa \<longleftrightarrow> (\<forall>x \<in> {SaAtime sa, SaMtime sa}. Time_set x \<noteq> DONT_CHANGE \<longrightarrow> Nseconds (STime x) < 1000000000)"

lemma set_attributes_ok:
  assumes P: "posix_attrs os at" and a: "at (world s) p = Some a" and v: "times_valid sa"
    and f: "FAtime f = AAtime a" "FMtime f = AMtime a" "Nseconds (AAtime a) < 1000000000" "Nseconds (AMtime a) < 1000000000"
    and run: "exec (set_attributes os p f sa) s = Inr (NFS3_OK, t)"
  shows "\<exists>b. at (world t) p = Some b \<and> attributes_set sa a b"
proof -
  let ?x = "if Time_set (SaAtime sa) \<noteq> DONT_CHANGE then STime (SaAtime sa) else FAtime f"
  let ?y = "if Time_set (SaMtime sa) \<noteq> DONT_CHANGE then STime (SaMtime sa) else FMtime f"
  let ?times = "Time_set (SaAtime sa) \<noteq> DONT_CHANGE \<or> Time_set (SaMtime sa) \<noteq> DONT_CHANGE"
  have "exec (set_attributes os p f sa) (s\<lparr>world := world s\<rparr>) = Inr (NFS3_OK, t)" using run by simp
  from set_step_ok [OF this [unfolded set_attributes_def Let_def]] obtain w1 where
    1: "if Size_set (SaSize sa) then Truncate os p (sint (SSize (SaSize sa))) (world s) = (None, w1) else w1 = world s"
    and r1: "exec (set_step (Mode_set (SaMode sa)) (Chmod os p (SMode (SaMode sa))) (set_step ?times (Chtimes os p ?x ?y) (ret NFS3_OK)))
      (s\<lparr>world := w1\<rparr>) = Inr (NFS3_OK, t)" by blast
  from set_step_ok [OF r1] obtain w2 where
    2: "if Mode_set (SaMode sa) then Chmod os p (SMode (SaMode sa)) w1 = (None, w2) else w2 = w1"
    and r2: "exec (set_step ?times (Chtimes os p ?x ?y) (ret NFS3_OK)) (s\<lparr>world := w2\<rparr>) = Inr (NFS3_OK, t)" by blast
  from set_step_ok [OF r2] obtain w3 where
    3: "if ?times then Chtimes os p ?x ?y w2 = (None, w3) else w3 = w2" and r3: "exec (ret NFS3_OK) (s\<lparr>world := w3\<rparr>) = Inr (NFS3_OK, t)" by blast
  from r3 have t: "world t = w3" by auto
  obtain a1 where a1: "at w1 p = Some a1" "ASize a1 = (if Size_set (SaSize sa) then sint (SSize (SaSize sa)) else ASize a)"
    "AMode a1 = AMode a" "AAtime a1 = AAtime a" "\<not> Size_set (SaSize sa) \<longrightarrow> AMtime a1 = AMtime a"
    using 1 a attr_truncate [OF P a, of "sint (SSize (SaSize sa))" w1] by (cases "Size_set (SaSize sa)") auto
  obtain a2 where a2: "at w2 p = Some a2" "ASize a2 = ASize a1"
    "AMode a2 = (if Mode_set (SaMode sa) then SMode (SaMode sa) AND ModePerm else AMode a)" "AAtime a2 = AAtime a" "AMtime a2 = AMtime a1"
    using 2 a1 attr_chmod [OF P a1(1), of "SMode (SaMode sa)" w2] by (cases "Mode_set (SaMode sa)") auto
  have "Nseconds ?x < 1000000000" "Nseconds ?y < 1000000000" using v f by (auto simp: times_valid_def)
  then have "\<exists>b. at w3 p = Some b \<and> ASize b = ASize a2 \<and> AMode b = AMode a2 \<and>
      (if ?times then AAtime b = ?x \<and> AMtime b = ?y else AAtime b = AAtime a2 \<and> AMtime b = AMtime a2)"
    using 3 a2(1) attr_chtimes [OF P a2(1), of ?x ?y w3] by (cases ?times) auto
  then obtain b where "at w3 p = Some b" "ASize b = ASize a2" "AMode b = AMode a2"
    "if ?times then AAtime b = ?x \<and> AMtime b = ?y else AAtime b = AAtime a2 \<and> AMtime b = AMtime a2" by blast
  with a1 a2 f t show ?thesis by (intro exI [of _ b]) (auto simp: attributes_set_def split: if_splits)
qed

text \<open>C29: A successful SETATTR has set what was asked for, and nothing else: on a file system that keeps the contract of the
  calls, the file of the handle has afterwards the size, the permission bits and the times of the request, and the old ones
  where the request has none (a change of the size alone may touch the time of modification).  The export was writable, and
  the guard, if there was one, had the seconds of the file's ctime.\<close>
theorem Setattr_sets:
  assumes "posix_attrs os at" and "fhandleMap (backend s) h = Some p" and "at (world s) p = Some a" and "times_valid sa"
    and "exec (Setattr os h sa guard r) s = Inr ((NFS3_OK, r'), t)"
  shows "writeaccess (config (backend s)) \<and> (Check guard \<longrightarrow> Seconds (Obj_ctime guard) = Seconds (ACtime a)) \<and>
    (\<exists>b. at (world t) p = Some b \<and> attributes_set sa a b)"
proof -
  from on_writable_attr [OF assms(5) [unfolded Setattr_def] ok_is_no_error(1,2)] assms(2) obtain fi u where
    fi: "writeaccess (config (backend s))" "fst (Lstat os p (world s)) = Inr fi" "FiSys fi \<noteq> None"
    and u: "world u = snd (Lstat os p (world s))"
    and run: "exec (if \<not> Check guard \<or> Seconds (Obj_ctime guard) = Seconds (FCtime (fst (fill_fattr fi zero_fattr)))
       then bindR (set_attributes os p (fst (fill_fattr fi zero_fattr)) sa) (\<lambda>status.
         ok_after os False p h (\<lambda>w. w) (\<lambda>f. f) status (set_before (\<lambda>f. f) (fst (fill_fattr fi zero_fattr)) r))
       else fail_after os False p h NFS3ERR_NOT_SYNC (set_before (\<lambda>f. f) (fst (fill_fattr fi zero_fattr)) r)) u = Inr ((NFS3_OK, r'), t)"
    by auto
  note shown = attr_shown [OF assms(1,3) fi(2,3), unfolded shows_attrs_def Let_def]
  from run have g: "\<not> Check guard \<or> Seconds (Obj_ctime guard) = Seconds (ACtime a)"
    using shown by (auto simp: fail_after_def bindR_Inr run_Inr ok_simps split: if_splits)
  with run shown obtain v where v: "exec (set_attributes os p (fst (fill_fattr fi zero_fattr)) sa) u = Inr (NFS3_OK, v)"
    and t: "world t = snd (Lstat os p (world v))"
    by (auto simp: bindR_Inr ok_after_def run_Inr split: if_splits dest!: poststat_world)
  have "at (world u) p = Some a" using assms(3) u attr_look [OF assms(1)] by simp
  from set_attributes_ok [OF assms(1) this assms(4) _ _ _ _ v] shown obtain b
    where "at (world v) p = Some b" "attributes_set sa a b" by auto
  with g fi(1) t attr_look [OF assms(1)] show ?thesis by auto
qed

text \<open>An operating system with one file, whose attributes are the world.\<close>

definition attr_os :: "attrs os" where
  "attr_os = \<lparr>
     Lstat = (\<lambda>p w. (Inr \<lparr>FiName = ''f'', FiSize = word_of_int (ASize w), FiMode = AMode w, FiSys = Some \<lparr>StNlink = 1, StUid = 7, StGid = 7,
       StBlocks = 1, StRdev = 0, StDev = 1, StIno = 4, AtimSec = ucast (Seconds (AAtime w)), AtimNsec = ucast (Nseconds (AAtime w)),
       MtimSec = ucast (Seconds (AMtime w)), MtimNsec = ucast (Nseconds (AMtime w)),
       CtimSec = ucast (Seconds (ACtime w)), CtimNsec = ucast (Nseconds (ACtime w))\<rparr>\<rparr>, w)),
     Statfs = (\<lambda>p w. (Inl (Errno ENOSYS), w)), OpenFile = (\<lambda>p flags perm w. (Inr 3, w)), Readdir = (\<lambda>f w. (Inr [], w)),
     ReadAt = (\<lambda>f n off w. (([], Some OsEOF), w)), WriteAt = (\<lambda>f data off w. ((0, None), w)), Fsync = (\<lambda>f w. (None, w)),
     CloseFile = (\<lambda>f w. (None, w)), Mkdir_sys = (\<lambda>p perm w. (Some (PathError (Errno EROFS)), w)),
     Rename_sys = (\<lambda>p q w. (Some (LinkError (Errno EROFS)), w)),
     Truncate = (\<lambda>p n w. if n < 0 then (Some (PathError (Errno EINVAL)), w) else (None, w\<lparr>ASize := n, AMtime := \<lparr>Seconds = 99, Nseconds = 0\<rparr>\<rparr>)),
     Chmod = (\<lambda>p m w. (None, w\<lparr>AMode := m AND ModePerm\<rparr>)), Chtimes = (\<lambda>p x y w. (None, w\<lparr>AAtime := x, AMtime := y\<rparr>)),
     Unlink = (\<lambda>p w. (Some (Errno EROFS), w)), Rmdir_sys = (\<lambda>p w. (Some (Errno EROFS), w)),
     Link_sys = (\<lambda>p q w. (Some (LinkError (Errno EROFS)), w)), Symlink_sys = (\<lambda>t p w. (Some (LinkError (Errno EROFS)), w)),
     Readlink_sys = (\<lambda>p w. (Inl (PathError (Errno EINVAL)), w)), Geteuid = 7, Getegid = 7\<rparr>"

definition attr_at :: "attrs \<Rightarrow> string \<Rightarrow> attrs option" where
  "attr_at w p = (if Nseconds (AAtime w) < 1000000000 \<and> Nseconds (AMtime w) < 1000000000 then Some w else None)"

lemma attr_posix: "posix_attrs attr_os attr_at"
proof -
  have cast: "ucast (ucast (x :: u32) :: u64) = x" for x by (rule bit_word_eqI) (simp add: bit_simps)
  have time: "\<lparr>Seconds = Seconds x, Nseconds = Nseconds x\<rparr> = x" for x :: Nfstime3 by (cases x) simp
  show ?thesis
    unfolding posix_attrs_def
    by (auto simp: attr_os_def attr_at_def shows_attrs_def Let_def fill_fattr_def cast time split: if_splits)
qed

definition attr_srv :: "attrs srv" where
  "attr_srv = \<lparr>backend = (newBackend 1)\<lparr>config := toy_config True, fhandleMap := [5 \<mapsto> ''/d/f'']\<rparr>,
     world = \<lparr>ASize = 9, AMode = 0x1A4, AAtime = \<lparr>Seconds = 1, Nseconds = 0\<rparr>, AMtime = \<lparr>Seconds = 2, Nseconds = 0\<rparr>, ACtime = \<lparr>Seconds = 3, Nseconds = 0\<rparr>\<rparr>\<rparr>"

text \<open>The size and the time of access are set, under a guard.\<close>

definition attr_request :: Sattr3 where
  "attr_request = \<lparr>SaMode = \<lparr>Mode_set = False, SMode = 0\<rparr>, SaUid = \<lparr>Id_set = False, SId = 0\<rparr>, SaGid = \<lparr>Id_set = False, SId = 0\<rparr>,
     SaSize = \<lparr>Size_set = True, SSize = 4\<rparr>, SaAtime = \<lparr>Time_set = 2, STime = \<lparr>Seconds = 7, Nseconds = 8\<rparr>\<rparr>,
     SaMtime = \<lparr>Time_set = 0, STime = \<lparr>Seconds = 0, Nseconds = 0\<rparr>\<rparr>\<rparr>"

theorem Setattr_sets_witness:
  "\<exists>r t b. exec (Setattr attr_os 5 attr_request \<lparr>Check = True, Obj_ctime = \<lparr>Seconds = 3, Nseconds = 1\<rparr>\<rparr> zero_wcc_res) attr_srv = Inr ((NFS3_OK, r), t) \<and>
     attr_at (world t) ''/d/f'' = Some b \<and> ASize b = 4 \<and> AAtime b = \<lparr>Seconds = 7, Nseconds = 8\<rparr> \<and> AMtime b = \<lparr>Seconds = 2, Nseconds = 0\<rparr>"
proof -
  let ?r = "exec (Setattr attr_os 5 attr_request \<lparr>Check = True, Obj_ctime = \<lparr>Seconds = 3, Nseconds = 1\<rparr>\<rparr> zero_wcc_res) attr_srv"
  have "map_option fst (reply_of ?r) = Some NFS3_OK" by code_simp
  then obtain r t where run: "?r = Inr ((NFS3_OK, r), t)" by (auto dest!: reply_of_Some)
  have "fhandleMap (backend attr_srv) 5 = Some ''/d/f''" "attr_at (world attr_srv) ''/d/f'' = Some (world attr_srv)" "times_valid attr_request"
    by (simp_all add: attr_srv_def attr_at_def times_valid_def attr_request_def DONT_CHANGE_def)
  from Setattr_sets [OF attr_posix this run] run show ?thesis
    by (auto simp: attributes_set_def attr_request_def attr_srv_def DONT_CHANGE_def)
qed

end
