(* ===== verification/Nfs_Limits.thy ===== *)
theory Nfs_Limits
  imports Nfs_Handles
begin

text \<open>
  Where the checks of the handlers end: the parent of the export path can be looked up in two steps, RMDIR takes
  any name, RENAME reports the wrong attributes of its second directory, and READDIR goes down on a
  directory whose parent cannot be read.
\<close>

section \<open>LOOKUP and the parent of the export path\<close>

lemma Lookup_config:
  assumes "exec (Lookup os h name r) s = Inr ((NFS3_OK, r'), t)"
  shows "config (backend t) = config (backend s)"
  using on_object_result [OF assms [unfolded Lookup_def] ok_is_no_error(1)]
  by (auto simp: bindR_Inr run_Inr Let_def ok_simps split: if_splits option.splits
      dest!: getFileAttr_backend registerHandle_result)

text \<open>C39: LOOKUP of \<open>..\<close> at the export path is turned into \<open>.\<close>, but not in the directory it gives then: the handle of
  \<open>.\<close> stands for the path \<^verbatim>\<open>root/.\<close>, which is not the export path as text, and \<open>..\<close> looked up there
  gives a handle for \<^verbatim>\<open>root/./..\<close>, the parent of the export path.\<close>
theorem lookup_leaves_export:
  assumes "fhandleMap (backend s) h = Some (exportPath (config (backend s)))"
    and "exec (Lookup os h ''..'' r) s = Inr ((NFS3_OK, r1), t)"
    and "of_le64 (LkObject (Resok r1)) = Inr h1"
    and "exec (Lookup os h1 ''..'' r') t = Inr ((NFS3_OK, r2), u)"
  shows "fhandleMap (backend t) h1 = Some (exportPath (config (backend s)) @ ''/.'') \<and>
    (\<exists>h2. LkObject (Resok r2) = le64 h2 \<and> fhandleMap (backend u) h2 = Some (exportPath (config (backend s)) @ ''/./..''))"
proof -
  from lookup_hands_out [OF assms(2)] assms(1,3)
  have t: "fhandleMap (backend t) h1 = Some (exportPath (config (backend s)) @ ''/.'')"
    by (auto simp: lookup_name_def)
  from lookup_hands_out [OF assms(4)] t show ?thesis by (auto simp: lookup_name_def Lookup_config [OF assms(2)])
qed

theorem lookup_leaves_export_witness:
  "\<exists>h u. fhandleMap (backend u) h = Some ''/d/./..'' \<and>
     (case exec (Lookup toy_os toy_root ''..'' zero_lookup) (toy_mounted True) of Inl _ \<Rightarrow> False
      | Inr ((_, r1), t) \<Rightarrow> (case of_le64 (LkObject (Resok r1)) of Inl _ \<Rightarrow> False
         | Inr h1 \<Rightarrow> \<exists>r2. exec (Lookup toy_os h1 ''..'' zero_lookup) t = Inr ((NFS3_OK, r2), u) \<and> LkObject (Resok r2) = le64 h))"
proof -
  let ?l = "exec (Lookup toy_os toy_root ''..'' zero_lookup) (toy_mounted True)"
  have "(case ?l of Inl _ \<Rightarrow> False | Inr ((st, r1), t) \<Rightarrow> st = NFS3_OK \<and> (case of_le64 (LkObject (Resok r1)) of Inl _ \<Rightarrow> False
      | Inr h1 \<Rightarrow> map_option fst (reply_of (exec (Lookup toy_os h1 ''..'' zero_lookup) t)) = Some NFS3_OK))" by code_simp
  then obtain r1 t where l: "?l = Inr ((NFS3_OK, r1), t)"
    and rest: "case of_le64 (LkObject (Resok r1)) of Inl _ \<Rightarrow> False
      | Inr h1 \<Rightarrow> map_option fst (reply_of (exec (Lookup toy_os h1 ''..'' zero_lookup) t)) = Some NFS3_OK"
    by (cases ?l) (auto split: prod.split_asm)
  from rest obtain h1 where h1: "of_le64 (LkObject (Resok r1)) = Inr h1"
    and "map_option fst (reply_of (exec (Lookup toy_os h1 ''..'' zero_lookup) t)) = Some NFS3_OK"
    by (cases "of_le64 (LkObject (Resok r1))") simp_all
  then obtain r2 u where "exec (Lookup toy_os h1 ''..'' zero_lookup) t = Inr ((NFS3_OK, r2), u)"
    by (auto dest!: reply_of_Some)
  note run = l h1 this
  from lookup_leaves_export [OF _ run] obtain h where "LkObject (Resok r2) = le64 h" "fhandleMap (backend u) h = Some ''/d/./..''"
    by (auto simp: toy_config_def)
  with run show ?thesis by auto
qed

section \<open>RMDIR and its guard\<close>

lemma rmdir_guard_True: "rmdir_guard name"
  by (cases name) (auto simp: rmdir_guard_def ContainsSlash_def)

lemma world_steps:
  "exec (getFileAttrFromPath os p fa) s = Inr (x, t) \<Longrightarrow> world t = snd (Lstat os p (world s))"
  "exec (poststat os clear p h a) s = Inr (y, t) \<Longrightarrow> world t = snd (Lstat os p (world s))"
  by (auto simp: poststat_def getFileAttrFromPath_def run_defs split: sum.splits prod.splits option.splits)

lemma read_attr:
  "Lstat os p (world s) = (Inr fi, w) \<Longrightarrow> FiSys fi \<noteq> None \<Longrightarrow>
   \<exists>fa'. exec (getFileAttrFromPath os p fa) s = Inr ((fa', None), s\<lparr>world := w\<rparr>)"
  by (auto simp: getFileAttrFromPath_def run_defs fill_fattr_def)

text \<open>C40: RMDIR of a directory that can be read, on a writable export, calls \<^verbatim>\<open>rmdir\<close> whatever the name is, with slashes
  or \<open>..\<close>: the world afterwards is the one left by looking at the directory, removing, and looking again.\<close>
theorem Rmdir_any_name:
  assumes "fhandleMap (backend s) h = Some dir" and "writeaccess (config (backend s))"
    and "Lstat os dir (world s) = (Inr fi, w)" and "FiSys fi \<noteq> None"
    and "exec (Rmdir os h name r) s = Inr (x, t)"
  shows "world t = snd (Lstat os dir (snd (Rmdir_sys os (dir @ ''/'' @ name) w)))"
proof -
  obtain fa where fa: "exec (getFileAttrFromPath os dir zero_fattr) s = Inr ((fa, None), s\<lparr>world := w\<rparr>)"
    using read_attr [OF assms(3,4)] by blast
  obtain e w' where e: "Rmdir_sys os (dir @ ''/'' @ name) w = (e, w')" by (cases "Rmdir_sys os (dir @ ''/'' @ name) w")
  show ?thesis
    using assms(1,2,5) fa e
    by (auto simp: Rmdir_def on_writable_def rmdir_guard_True bindR_Inr run_Inr getValuefromHandle_def Let_def ok_after_def fail_after_def
        split: option.splits dest!: world_steps(2))
qed

theorem Rmdir_any_name_witness:
  "\<exists>x t. exec (Rmdir toy_os toy_root ''../etc'' zero_wcc_res) (toy_mounted True) = Inr (x, t) \<and> Rmdired ''/d/../etc'' \<in> set (world t)"
proof -
  have "reply_of (exec (Rmdir toy_os toy_root ''../etc'' zero_wcc_res) (toy_mounted True)) \<noteq> None" by code_simp
  then obtain x t where run: "exec (Rmdir toy_os toy_root ''../etc'' zero_wcc_res) (toy_mounted True) = Inr (x, t)"
    by (auto dest!: reply_of_Some)
  from Rmdir_any_name [OF _ _ _ _ run, of "''/d''"] run show ?thesis
    by (simp add: toy_mounted_def toy_started_def toy_config_def toy_os_def toy_stat_def toy_mode_def)
qed

section \<open>RENAME and the attributes before\<close>

text \<open>RENAME reports the attributes of the directory it renames from as those of the other one before the
  operation, whatever these are.\<close>

lemma after_both_before:
  assumes "exec (after_both os d h d' h' r) s = Inr (r', t)"
  shows "WBefore (Fromdir_wcc r') = WBefore (Fromdir_wcc r) \<and> WBefore (Todir_wcc r') = WBefore (Todir_wcc r)"
  using assms by (auto simp: after_both_def bindR_Inr run_Inr)

lemma Rename_before:
  assumes "exec (Rename os h name h' name' r0) s = Inr ((NFS3_OK, r), t)"
  shows "WBefore (Todir_wcc (Resok r)) = WBefore (Fromdir_wcc (Resok r))"
  using assms
  by (auto simp: Rename_def bindR_Inr run_Inr getValuefromHandle_def Let_def ok_simps rename_to_only_def rename_from_only_def
      both_parts_def set_from_before_def set_to_before_def split: option.splits if_splits dest!: after_both_before)

section \<open>READDIR and a parent that cannot be read\<close>

text \<open>When the parent of a directory cannot be read and the directory itself can, the error of \<^verbatim>\<open>Lstat\<close> on \<open>..\<close> is lost and
  a nil \<^verbatim>\<open>FileInfo\<close> joins the entries; READDIR goes down when it comes to it.\<close>

lemma nil_parent:
  assumes "Lstat os (dir @ ''/..'') (world s) = (Inl e, w)" and "Lstat os (dir @ ''/.'') w = (Inr fi, w')" and "dir \<noteq> ''''"
  shows "exec (getDotAndDotDot os dir) s = Inr ((Some fi, None, False), s\<lparr>world := w'\<rparr>)"
  using assms by (simp add: getDotAndDotDot_def run_defs or_nil_def)

lemma nil_entry_panics:
  assumes "unat (cookie_sent cookie) = length fs"
  shows "readdir_page isRoot dot (fs @ None # gs) cookie maxc = Inl Panic"
  using assms by (simp add: readdir_page_def fi_name_def bindG_def)

end
