(* ===== verification/Nfs_Wire.thy ===== *)
theory Nfs_Wire
  imports Onc_Rpc Nfs_Readdir Nfs_Handles
begin

text \<open>
  Replies on the wire: what \<^verbatim>\<open>reflect\<close> shows of the READDIR result (\<open>rv_readdir\<close>, with the struct tags of
  \<^verbatim>\<open>nfs3/nfstypdef.go\<close>), the bytes RFC 1813 gives it (\<open>readdir_bytes\<close>), that the encoder writes them, and that
  they take no more room than the client asked for.
\<close>

section \<open>What reflection shows of the results\<close>

definition rv_time :: "Nfstime3 \<Rightarrow> rvalue" where
  "rv_time t = RStruct [(xtag '''', rv_u32 (Seconds t)), (xtag '''', rv_u32 (Nseconds t))]"

definition rv_specdata :: "Specdata3 \<Rightarrow> rvalue" where
  "rv_specdata d = RStruct [(xtag '''', rv_u32 (Specdata1 d)), (xtag '''', rv_u32 (Specdata2 d))]"

definition rv_fattr :: "Fattr3 \<Rightarrow> rvalue" where
  "rv_fattr a = RStruct [(xtag '''', rv_i32 (FType a)), (xtag '''', rv_u32 (FMode a)), (xtag '''', rv_u32 (Nlink a)),
     (xtag '''', rv_u32 (FUid a)), (xtag '''', rv_u32 (FGid a)), (xtag '''', rv_u64 (FSize a)), (xtag '''', rv_u64 (Used a)),
     (xtag '''', rv_specdata (Rdev a)), (xtag '''', rv_u64 (Fsid a)), (xtag '''', rv_u64 (Fileid a)),
     (xtag '''', rv_time (FAtime a)), (xtag '''', rv_time (FMtime a)), (xtag '''', rv_time (FCtime a))]"

definition rv_post :: "Post_op_attr \<Rightarrow> rvalue" where
  "rv_post p = RStruct [(xtag ''union'', RBool (Attributes_follow p)), (xtag ''unioncase=1'', rv_fattr (Attributes p))]"

text \<open>\<^verbatim>\<open>*Entry3\<close>, the entries chained by their field \<^verbatim>\<open>Nextentry\<close>.\<close>

fun rv_entries :: "Entry3 list \<Rightarrow> rvalue" where
  "rv_entries [] = RPtr (TNamed ''Entry3'') None"
| "rv_entries (e # es) = RPtr (TNamed ''Entry3'') (Some (RStruct [(xtag '''', rv_u64 (EFileid e)), (xtag '''', RString (EName e)),
     (xtag '''', rv_u64 (ECookie e)), (xtag ''optional'', rv_entries es)]))"

definition rv_dirlist :: "Dirlist3 \<Rightarrow> rvalue" where
  "rv_dirlist l = RStruct [(xtag ''optional'', rv_entries (Entries l)), (xtag '''', RBool (DEof l))]"

definition rv_readdirok :: "READDIR3resok \<Rightarrow> rvalue" where
  "rv_readdirok r = RStruct [(xtag '''', rv_post (RdDir_attributes r)),
     (xtag '''', RArray (TUint Uint8) (map rbyte (RdrCookieverf r))), (xtag '''', rv_dirlist (RdReply r))]"

definition rv_readdirfail :: "Post_op_attr \<Rightarrow> rvalue" where
  "rv_readdirfail p = RStruct [(xtag '''', rv_post p)]"

definition rv_readdir :: "READDIR3res \<Rightarrow> rvalue" where
  "rv_readdir r = RStruct [(xtag ''union'', rv_u32 (Status r)), (xtag ''unioncase=0'', rv_readdirok (Resok r)),
     (xtag ''unionnotcase=0'', rv_readdirfail (Resfail r))]"

section \<open>Their layout\<close>

definition time_bytes :: "Nfstime3 \<Rightarrow> bytes" where
  "time_bytes t = be32 (Seconds t) @ be32 (Nseconds t)"

definition fattr_bytes :: "Fattr3 \<Rightarrow> bytes" where
  "fattr_bytes a = be32 (FType a) @ be32 (FMode a) @ be32 (Nlink a) @ be32 (FUid a) @ be32 (FGid a) @ be64 (FSize a) @
     be64 (Used a) @ be32 (Specdata1 (Rdev a)) @ be32 (Specdata2 (Rdev a)) @ be64 (Fsid a) @ be64 (Fileid a) @
     time_bytes (FAtime a) @ time_bytes (FMtime a) @ time_bytes (FCtime a)"

definition bool_bytes :: "bool \<Rightarrow> bytes" where
  "bool_bytes b = be32 (if b then 1 else 0)"

definition post_bytes :: "Post_op_attr \<Rightarrow> bytes" where
  "post_bytes p = bool_bytes (Attributes_follow p) @ (if Attributes_follow p then fattr_bytes (Attributes p) else [])"

fun entries_bytes :: "Entry3 list \<Rightarrow> bytes" where
  "entries_bytes [] = bool_bytes False"
| "entries_bytes (e # es) = bool_bytes True @ be64 (EFileid e) @ opaque_bytes (string_bytes (EName e)) @ be64 (ECookie e) @ entries_bytes es"

definition readdir_bytes :: "READDIR3res \<Rightarrow> bytes" where
  "readdir_bytes r = be32 (Status r) @
     (if Status r = NFS3_OK
      then post_bytes (RdDir_attributes (Resok r)) @ RdrCookieverf (Resok r) @
           entries_bytes (Entries (RdReply (Resok r))) @ bool_bytes (DEof (RdReply (Resok r)))
      else post_bytes (Resfail r))"

section \<open>The encoder writes it\<close>

lemma enc_to_u64: "1 \<le> d \<Longrightarrow> enc_to G d (rv_u64 y) (be64 y)"
  by (rule enc_to_mono [OF enc_to_scalar(2)])

lemma enc_to_bool: "1 \<le> d \<Longrightarrow> enc_to G d (RBool b) (bool_bytes b)"
proof (rule enc_to_mono [of _ 1])
  have "encode G buffer_write e (RBool b) w = Inr (4, None, w @ bool_bytes b)" if "1 \<le> e" for e w
    using that by (cases e) (simp_all add: encode_kind_def Encode_buffer bool_bytes_def)
  then show "enc_to G 1 (RBool b) (bool_bytes b)" by (simp add: enc_to_def bool_bytes_def)
qed

lemma enc_to_string: "1 \<le> d \<Longrightarrow> enc_to G d (RString s) (opaque_bytes (string_bytes s))"
proof (rule enc_to_mono [of _ 1])
  have "encode G buffer_write e (RString s) w = Inr (length (opaque_bytes (string_bytes s)), None, w @ opaque_bytes (string_bytes s))"
    if "1 \<le> e" for e w
    using that pad_len_bounds(1) [of "length s"]
    by (cases e) (simp_all add: encode_kind_def EncodeString_def Encode_buffer EncodeFixedOpaque_buffer seqE_def opaque_bytes_def)
  then show "enc_to G 1 (RString s) (opaque_bytes (string_bytes s))" by (simp add: enc_to_def)
qed

lemma enc_to_verf: "1 \<le> d \<Longrightarrow> length v = 8 \<Longrightarrow> enc_to G d (RArray (TUint Uint8) (map rbyte v)) v"
proof (rule enc_to_mono [of _ 1])
  assume "length v = 8"
  moreover have "pad_len 8 = 8" by (simp add: pad_len_def)
  ultimately have "encode G buffer_write e (RArray (TUint Uint8) (map rbyte v)) w = Inr (length v, None, w @ v)" if "1 \<le> e" for e w
    using that by (cases e) (simp_all add: encode_kind_def encodeFixedArray_def EncodeFixedOpaque_buffer)
  then show "enc_to G 1 (RArray (TUint Uint8) (map rbyte v)) v" by (simp add: enc_to_def)
qed

lemma fields_to_optional:
  assumes "fields_to G d disc fs bs"
  shows "fields_to G d disc ((xtag ''optional'', RPtr T None) # fs) (bool_bytes False @ bs)"
    and "enc_to G d v b \<Longrightarrow> \<not> is_ptr v \<Longrightarrow>
      fields_to G d disc ((xtag ''optional'', RPtr T (Some v)) # fs) (bool_bytes True @ b @ bs)"
  using assms
  by (simp_all add: fields_to_def enc_to_def indirect_id Let_def encode_field_def encode_member_def seqE_def
      tag_Get_eq skip_case_def Encode_buffer bool_bytes_def)

lemma result_tags [simp]:
  "tag_Get ''unionnotcase=0'' ''union'' = ''''" "tag_Get ''unionnotcase=0'' ''optional'' = ''''"
  "tag_Get ''unionnotcase=0'' ''opaque'' = ''''" "skip_case ''unionnotcase=0'' d = (d = ''0'')"
  by (auto simp: skip_case_def tag_Get_eq)

lemma disc_results [simp]:
  "discriminant G (RBool b) = Inr (Some (if b then ''1'' else ''0''))"
  "discriminant G (rv_u32 x) = Inr (Some (Itoa (uint x)))" "Itoa (uint (x :: u32)) = ''0'' \<longleftrightarrow> x = 0"
proof -
  have "sint (ucast x :: u64) = uint x"
  proof -
    have "- (2 ^ 63) \<le> uint x" "uint x < 2 ^ 63"
      using uint_lt2p [of x] by (simp_all add: order_trans [of _ 0])
    then have "signed_take_bit 63 (uint x) = uint x" by (rule signed_take_bit_int_eq_self)
    moreover have "uint (ucast x :: u64) = uint x"
      using uint_lt2p [of x] by (simp add: unsigned_ucast_eq take_bit_int_eq_self)
    ultimately show ?thesis by (simp add: sint_uint)
  qed
  then show "discriminant G (rv_u32 x) = Inr (Some (Itoa (uint x)))" by (simp add: rv_u32_def)
qed (simp_all add: Itoa_eq_digits uint_0_iff)

lemma rv_nfs_not_ptr [simp]:
  "\<not> is_ptr (rv_time t)" "\<not> is_ptr (rv_specdata d)" "\<not> is_ptr (rv_fattr a)" "\<not> is_ptr (rv_post p)" "\<not> is_ptr (rv_dirlist l)"
  "\<not> is_ptr (rv_readdirok ro)" "\<not> is_ptr (rv_readdirfail p)" "\<not> is_ptr (rv_readdir r)"
  by (simp_all add: rv_time_def rv_specdata_def rv_fattr_def rv_post_def rv_dirlist_def rv_readdirok_def rv_readdirfail_def rv_readdir_def)

lemma enc_to_time: "2 \<le> d \<Longrightarrow> enc_to G d (rv_time t) (time_bytes t)"
  "2 \<le> d \<Longrightarrow> enc_to G d (rv_specdata sd) (be32 (Specdata1 sd) @ be32 (Specdata2 sd))"
proof -
  have "fields_to G 1 '''' [(xtag '''', rv_u32 (Seconds t)), (xtag '''', rv_u32 (Nseconds t))] (be32 (Seconds t) @ be32 (Nseconds t) @ [])"
    "fields_to G 1 '''' [(xtag '''', rv_u32 (Specdata1 sd)), (xtag '''', rv_u32 (Specdata2 sd))] (be32 (Specdata1 sd) @ be32 (Specdata2 sd) @ [])"
    by (intro fields_to_plain fields_to_Nil enc_to_scalar' rv_not_ptr; simp)+
  from this [THEN enc_to_struct] show "2 \<le> d \<Longrightarrow> enc_to G d (rv_time t) (time_bytes t)"
    "2 \<le> d \<Longrightarrow> enc_to G d (rv_specdata sd) (be32 (Specdata1 sd) @ be32 (Specdata2 sd))"
    by (simp_all add: rv_time_def rv_specdata_def time_bytes_def numeral_2_eq_2 enc_to_mono)
qed

lemma enc_to_fattr: "3 \<le> d \<Longrightarrow> enc_to G d (rv_fattr a) (fattr_bytes a)"
proof -
  have "fields_to G 2 '''' [(xtag '''', rv_i32 (FType a)), (xtag '''', rv_u32 (FMode a)), (xtag '''', rv_u32 (Nlink a)),
     (xtag '''', rv_u32 (FUid a)), (xtag '''', rv_u32 (FGid a)), (xtag '''', rv_u64 (FSize a)), (xtag '''', rv_u64 (Used a)),
     (xtag '''', rv_specdata (Rdev a)), (xtag '''', rv_u64 (Fsid a)), (xtag '''', rv_u64 (Fileid a)),
     (xtag '''', rv_time (FAtime a)), (xtag '''', rv_time (FMtime a)), (xtag '''', rv_time (FCtime a))]
    (be32 (FType a) @ be32 (FMode a) @ be32 (Nlink a) @ be32 (FUid a) @ be32 (FGid a) @ be64 (FSize a) @
     be64 (Used a) @ (be32 (Specdata1 (Rdev a)) @ be32 (Specdata2 (Rdev a))) @ be64 (Fsid a) @ be64 (Fileid a) @
     time_bytes (FAtime a) @ time_bytes (FMtime a) @ time_bytes (FCtime a) @ [])"
    by (intro fields_to_plain fields_to_Nil enc_to_scalar' enc_to_u64 enc_to_time rv_not_ptr rv_nfs_not_ptr) simp_all
  from enc_to_struct [OF this] show "3 \<le> d \<Longrightarrow> enc_to G d (rv_fattr a) (fattr_bytes a)"
    by (simp add: rv_fattr_def fattr_bytes_def numeral_2_eq_2 enc_to_mono)
qed

lemma enc_to_post: "4 \<le> d \<Longrightarrow> enc_to G d (rv_post p) (post_bytes p)"
proof -
  have "fields_to G 3 '''' [(xtag ''union'', RBool (Attributes_follow p)), (xtag ''unioncase=1'', rv_fattr (Attributes p))]
    (bool_bytes (Attributes_follow p) @ (if Attributes_follow p then fattr_bytes (Attributes p) else []) @ [])"
    by (intro fields_to_union [OF _ disc_results(1)] fields_to_case fields_to_Nil enc_to_bool enc_to_fattr rv_nfs_not_ptr) simp_all
  from enc_to_struct [OF this] show "4 \<le> d \<Longrightarrow> enc_to G d (rv_post p) (post_bytes p)"
    by (simp add: rv_post_def post_bytes_def numeral_3_eq_3 enc_to_mono)
qed

lemma fields_to_entries:
  "length es < d \<Longrightarrow> fields_to G d disc fs bs \<Longrightarrow> fields_to G d disc ((xtag ''optional'', rv_entries es) # fs) (entries_bytes es @ bs)"
proof (induction es arbitrary: d disc fs bs)
  case Nil
  from fields_to_optional(1) [OF Nil(2)] show ?case by simp
next
  case (Cons e es)
  then obtain d' where d: "d = Suc d'" "length es < d'" by (cases d) auto
  have "fields_to G d' '''' [(xtag '''', rv_u64 (EFileid e)), (xtag '''', RString (EName e)), (xtag '''', rv_u64 (ECookie e)),
      (xtag ''optional'', rv_entries es)]
    (be64 (EFileid e) @ opaque_bytes (string_bytes (EName e)) @ be64 (ECookie e) @ entries_bytes es @ [])"
    using d(2) by (intro fields_to_plain fields_to_Nil enc_to_u64 enc_to_string Cons.IH rv_not_ptr) simp_all
  from fields_to_optional(2) [OF Cons.prems(2) enc_to_struct [OF this, folded d(1)]] show ?case by simp
qed

lemma enc_to_dirlist: "length (Entries l) < d \<Longrightarrow> enc_to G (Suc d) (rv_dirlist l) (entries_bytes (Entries l) @ bool_bytes (DEof l))"
proof -
  assume "length (Entries l) < d"
  then have "fields_to G d '''' [(xtag ''optional'', rv_entries (Entries l)), (xtag '''', RBool (DEof l))]
      (entries_bytes (Entries l) @ bool_bytes (DEof l) @ [])"
    by (intro fields_to_entries fields_to_plain fields_to_Nil enc_to_bool) simp_all
  from enc_to_struct [OF this] show ?thesis by (simp add: rv_dirlist_def)
qed

lemma enc_to_readdirok:
  assumes "length (RdrCookieverf r) = 8" and "length (Entries (RdReply r)) < d" and "3 \<le> d"
  shows "enc_to G (Suc (Suc d)) (rv_readdirok r)
    (post_bytes (RdDir_attributes r) @ RdrCookieverf r @ entries_bytes (Entries (RdReply r)) @ bool_bytes (DEof (RdReply r)))"
proof -
  have "fields_to G (Suc d) '''' [(xtag '''', rv_post (RdDir_attributes r)),
      (xtag '''', RArray (TUint Uint8) (map rbyte (RdrCookieverf r))), (xtag '''', rv_dirlist (RdReply r))]
    (post_bytes (RdDir_attributes r) @ RdrCookieverf r @ (entries_bytes (Entries (RdReply r)) @ bool_bytes (DEof (RdReply r))) @ [])"
    using assms by (intro fields_to_plain fields_to_Nil enc_to_post enc_to_verf enc_to_dirlist rv_nfs_not_ptr) simp_all
  from enc_to_struct [OF this] show ?thesis by (simp add: rv_readdirok_def)
qed

lemma enc_to_readdirfail: "5 \<le> d \<Longrightarrow> enc_to G d (rv_readdirfail p) (post_bytes p)"
proof -
  have "fields_to G 4 '''' [(xtag '''', rv_post p)] (post_bytes p @ [])"
    by (intro fields_to_plain fields_to_Nil enc_to_post rv_nfs_not_ptr) simp_all
  from enc_to_struct [OF this] show "5 \<le> d \<Longrightarrow> enc_to G d (rv_readdirfail p) (post_bytes p)"
    by (simp add: rv_readdirfail_def enc_to_mono)
qed

lemma enc_to_readdir:
  assumes "length (RdrCookieverf (Resok r)) = 8" and "length (Entries (RdReply (Resok r))) < d" and "3 \<le> d"
  shows "enc_to G (Suc (Suc (Suc d))) (rv_readdir r) (readdir_bytes r)"
proof -
  have "fields_to G (Suc (Suc d)) '''' [(xtag ''union'', rv_u32 (Status r)), (xtag ''unioncase=0'', rv_readdirok (Resok r)),
      (xtag ''unionnotcase=0'', rv_readdirfail (Resfail r))]
    (be32 (Status r) @ (if Status r = 0 then post_bytes (RdDir_attributes (Resok r)) @ RdrCookieverf (Resok r) @
        entries_bytes (Entries (RdReply (Resok r))) @ bool_bytes (DEof (RdReply (Resok r))) else []) @
      (if Status r \<noteq> 0 then post_bytes (Resfail r) else []) @ [])"
    using assms
    by (intro fields_to_union [OF _ disc_results(2)] fields_to_case fields_to_Nil enc_to_scalar' enc_to_readdirok enc_to_readdirfail rv_nfs_not_ptr rv_not_ptr)
      simp_all
  from enc_to_struct [OF this] show ?thesis
    by (cases "Status r = 0") (simp_all add: rv_readdir_def readdir_bytes_def NFS3_OK_def)
qed

lemma vdepth_entries: "2 * length es < vdepth (rv_entries es)"
  by (induction es) (simp_all add: maxl_def)

lemma vdepth_readdir: "max 6 (length (Entries (RdReply (Resok r))) + 4) \<le> Suc (vdepth (rv_readdir r))"
  using vdepth_entries [of "Entries (RdReply (Resok r))"]
  by (auto simp: rv_readdir_def rv_readdirok_def rv_readdirfail_def rv_dirlist_def rv_post_def rv_fattr_def rv_time_def
      rv_specdata_def maxl_def le_max_iff_disj)

lemma Marshal_readdir:
  assumes "length (RdrCookieverf (Resok r)) = 8"
  shows "Marshal G buffer_write w (Some (RPtr T (Some (rv_readdir r)))) = Inr (length (readdir_bytes r), None, w @ readdir_bytes r)"
proof -
  define n where "n = length (Entries (RdReply (Resok r)))"
  have "enc_to G (Suc (Suc (Suc (max 3 (n + 1))))) (rv_readdir r) (readdir_bytes r)"
    by (rule enc_to_readdir [OF assms]) (simp_all add: n_def)
  moreover have "Suc (Suc (Suc (max 3 (n + 1)))) = max 6 (n + 4)" by simp
  ultimately have "enc_to G (max 6 (n + 4)) (rv_readdir r) (readdir_bytes r)" by (simp only:)
  then show ?thesis by (rule Marshal_ptr_enc_to) (use vdepth_readdir [of r] in \<open>simp_all add: n_def\<close>)
qed

section \<open>Their size\<close>

lemma pad_len_div: "pad_len n = (n + 3) div 4 * 4"
proof -
  define k r where "k = n div 4" and "r = n mod 4"
  then have n: "n = r + k * 4" and "r < 4" by simp_all
  then have "r = 0 \<or> r = 1 \<or> r = 2 \<or> r = 3" by arith
  moreover have "(r + k * 4) mod 4 = r mod 4" "(r + k * 4 + 3) div 4 = (r + 3) div 4 + k"
    by (simp_all add: add.assoc)
  ultimately show ?thesis unfolding pad_len_def n by auto
qed

lemma length_opaque: "length (opaque_bytes b) = 4 + (length b + 3) div 4 * 4"
  using pad_len_bounds(1) [of "length b"] by (simp add: opaque_bytes_def pad_len_div)

lemma length_entries: "length (entries_bytes es) = 4 + sum_list (map (\<lambda>e. overhead (EName e)) es)"
  by (induction es) (simp_all add: bool_bytes_def length_opaque overhead_def)

lemma length_readdir:
  assumes "Status r = NFS3_OK" and "Attributes_follow (RdDir_attributes (Resok r))" and "length (RdrCookieverf (Resok r)) = 8"
  shows "length (readdir_bytes r) = 4 + page_size (Entries (RdReply (Resok r)))"
  using assms by (simp add: readdir_bytes_def post_bytes_def fattr_bytes_def time_bytes_def length_entries bool_bytes_def page_size_def)

lemma overhead_small: "length name \<le> 255 \<Longrightarrow> overhead name \<le> 280"
proof -
  assume "length name \<le> 255"
  then have "(length name + 3) div 4 \<le> 64" by linarith
  then show ?thesis by (simp add: overhead_def)
qed

lemma readdir_loop_size:
  assumes "readdir_loop isRoot dot n maxc fs i sz = Inr (es, eof)" and "\<And>fi. Some fi \<in> set fs \<Longrightarrow> length (FiName fi) \<le> 255"
    and "unat sz + 280 < 2 ^ 32" and "unat maxc + 280 < 2 ^ 32"
  shows "es \<noteq> [] \<longrightarrow> unat sz + sum_list (map (\<lambda>e. overhead (EName e)) es) \<le> unat maxc"
  using assms(1-3)
proof (induction fs arbitrary: i sz es eof)
  case (Cons f fs)
  show ?case
  proof (cases f)
    case None
    with Cons.prems(1) show ?thesis by (simp add: fi_name_def)
  next
    case (Some fi)
    then have le: "overhead (FiName fi) \<le> 280" using Cons.prems(2) [of fi] by (simp add: overhead_small)
    have "entryOverhead (FiName fi) = of_nat (overhead (FiName fi))"
      by (simp only: entryOverhead_def ENTRY3SIZE_def overhead_def)
    with le have ov: "unat (entryOverhead (FiName fi)) = overhead (FiName fi)"
      by (simp add: unat_of_nat take_bit_nat_eq_self)
    have sz: "unat (sz + entryOverhead (FiName fi)) = unat sz + overhead (FiName fi)"
      using Cons.prems(3) le by (subst unat_add_lem [THEN iffD1]) (simp_all add: ov)
    show ?thesis
    proof (cases "sz + entryOverhead (FiName fi) > maxc")
      case True
      with Cons.prems(1) Some show ?thesis by (simp add: fi_name_def Let_def)
    next
      case False
      then have fits: "unat sz + overhead (FiName fi) \<le> unat maxc"
        by (simp add: word_less_nat_alt sz)
      with Cons.prems(1) Some False obtain es' entry where es: "es = entry # es'" "EName entry = FiName fi"
        and loop: "readdir_loop isRoot dot n maxc fs (i + 1) (sz + entryOverhead (FiName fi)) = Inr (es', eof)"
        by (auto simp: fi_name_def Let_def bindG_def split: sum.split_asm prod.split_asm if_split_asm)
      have "es' \<noteq> [] \<longrightarrow> unat (sz + entryOverhead (FiName fi)) + sum_list (map (\<lambda>e. overhead (EName e)) es') \<le> unat maxc"
        by (rule Cons.IH [OF loop]) (use Cons.prems(2) fits assms(4) in \<open>simp_all add: sz\<close>)
      with fits es show ?thesis by (cases "es' = []") (simp_all add: sz)
    qed
  qed
qed simp

lemma on_object_reply:
  assumes "exec (on_object os h get put r body) s = Inr ((NFS3_OK, r'), t)"
  shows "\<exists>p fa u. exec (body p (put (follow fa) r)) u = Inr ((NFS3_OK, r'), t)"
  using assms by (auto simp: on_object_def bindR_Inr run_Inr getValuefromHandle_def ok_simps split: option.splits prod.splits)

lemma dots_short:
  assumes "exec (getDotAndDotDot os dir) s = Inr ((dot, dotdot, failed), t)"
    and "\<forall>p w fi w'. Lstat os p w = (Inr fi, w') \<longrightarrow> length (FiName fi) \<le> 255"
    and "Some fi \<in> {dot, dotdot}"
  shows "length (FiName fi) \<le> 255"
proof -
  have "length (FiName fi) \<le> 255" if "fst (Lstat os p w) = Inr fi" for p w
    using assms(2) that by (cases "Lstat os p w") auto
  with assms(1,3) show ?thesis
    by (auto simp: getDotAndDotDot_def bindR_Inr run_Inr or_nil_def split: if_split_asm sum.split_asm)
qed

lemma readdir_open_result:
  assumes "exec (readdir_open os f dir h cookie maxc r0) s = Inr ((NFS3_OK, r), t)" and "Entries (RdReply (Resok r0)) = []"
    and "\<forall>f w fis w'. Readdir os f w = (Inr fis, w') \<longrightarrow> (\<forall>fi \<in> set fis. length (FiName fi) \<le> 255)"
    and "\<forall>p w fi w'. Lstat os p w = (Inr fi, w') \<longrightarrow> length (FiName fi) \<le> 255"
  shows "RdDir_attributes (Resok r) = RdDir_attributes (Resok r0) \<and> RdrCookieverf (Resok r) = RdrCookieverf (Resok r0) \<and>
    (\<exists>isRoot dot fs eof. (\<forall>fi. Some fi \<in> set fs \<longrightarrow> length (FiName fi) \<le> 255) \<and>
      readdir_page isRoot dot fs cookie maxc = Inr (Entries (RdReply (Resok r)), eof))"
proof -
  obtain y w where y: "Readdir os f (world s) = (y, w)" by (cases "Readdir os f (world s)")
  with assms(1) obtain fis where fis: "y = Inr fis"
    by (cases y) (auto simp: readdir_open_def bindR_Inr run_Inr ok_simps)
  with assms(1) y obtain dot dotdot failed u es eof where
    dots: "exec (getDotAndDotDot os dir) (s\<lparr>world := w\<rparr>) = Inr ((dot, dotdot, failed), u)"
    and page: "readdir_page (dir = exportPath (config (backend u))) dot (map Some fis @ (if failed then [] else [dot, dotdot])) cookie maxc =
      Inr (es, eof)"
    and r: "r = r0\<lparr>Resok := (Resok r0)\<lparr>RdReply := \<lparr>Entries = es, DEof = eof\<rparr>\<rparr>\<rparr>"
    by (auto simp: readdir_open_def bindR_Inr run_Inr Let_def assms(2))
  have "length (FiName fi) \<le> 255" if "Some fi \<in> set (map Some fis @ (if failed then [] else [dot, dotdot]))" for fi
    using that dots_short [OF dots assms(4), of fi] assms(3) y fis by (auto split: if_split_asm)
  then have "\<forall>fi. Some fi \<in> set (map Some fis @ (if failed then [] else [dot, dotdot])) \<longrightarrow> length (FiName fi) \<le> 255" by blast
  moreover have "readdir_page (dir = exportPath (config (backend u))) dot (map Some fis @ (if failed then [] else [dot, dotdot])) cookie maxc =
      Inr (Entries (RdReply (Resok r)), eof)" using page by (simp add: r)
  moreover have "RdDir_attributes (Resok r) = RdDir_attributes (Resok r0) \<and> RdrCookieverf (Resok r) = RdrCookieverf (Resok r0)"
    by (simp add: r)
  ultimately show ?thesis by blast
qed

lemma ReadDir_result:
  assumes "exec (ReadDir os h cookie maxc zero_readdir) s = Inr ((NFS3_OK, r), t)"
    and "\<forall>f w fis w'. Readdir os f w = (Inr fis, w') \<longrightarrow> (\<forall>fi \<in> set fis. length (FiName fi) \<le> 255)"
    and "\<forall>p w fi w'. Lstat os p w = (Inr fi, w') \<longrightarrow> length (FiName fi) \<le> 255"
  shows "Attributes_follow (RdDir_attributes (Resok r)) \<and> length (RdrCookieverf (Resok r)) = 8 \<and>
    (\<exists>isRoot dot fs eof. (\<forall>fi. Some fi \<in> set fs \<longrightarrow> length (FiName fi) \<le> 255) \<and>
      readdir_page isRoot dot fs cookie maxc = Inr (Entries (RdReply (Resok r)), eof))"
proof -
  from on_object_reply [OF assms(1) [unfolded ReadDir_def]] obtain p fa u where
    run: "exec (bindR (sys (OpenFile os p O_RDONLY 0)) (\<lambda>x. case x of
        Inr f \<Rightarrow> with_file os f (readdir_open os f p h cookie maxc (Resok_update (RdDir_attributes_update (\<lambda>_. follow fa)) zero_readdir))
      | Inl err \<Rightarrow> bindR (liftG (PathError_Errno err)) (\<lambda>e.
          bindR (poststat os False p h (Resfail (Resok_update (RdDir_attributes_update (\<lambda>_. follow fa)) zero_readdir))) (\<lambda>a.
          ret (getReadDirErr e, (Resok_update (RdDir_attributes_update (\<lambda>_. follow fa)) zero_readdir)\<lparr>Resfail := a\<rparr>))))) u =
      Inr ((NFS3_OK, r), t)" by blast
  obtain x w where x: "OpenFile os p O_RDONLY 0 (world u) = (x, w)" by (cases "OpenFile os p O_RDONLY 0 (world u)")
  with run obtain f where "exec (with_file os f (readdir_open os f p h cookie maxc
      (Resok_update (RdDir_attributes_update (\<lambda>_. follow fa)) zero_readdir))) (u\<lparr>world := w\<rparr>) = Inr ((NFS3_OK, r), t)"
    by (cases x) (auto simp: bindR_Inr run_Inr ok_simps)
  from with_file_result [OF this] obtain v where "exec (readdir_open os f p h cookie maxc
      (Resok_update (RdDir_attributes_update (\<lambda>_. follow fa)) zero_readdir)) (u\<lparr>world := w\<rparr>) = Inr ((NFS3_OK, r), v)" by blast
  from readdir_open_result [OF this _ assms(2,3)] show ?thesis
    by (simp add: zero_readdir_def zero_res_def follow_def)
qed

text \<open>C26: The reply to READDIR takes no more room than the client asked for: a successful one with entries is marshalled to
  at most \<^verbatim>\<open>count\<close> bytes behind the status word, counted as the encoder writes them, whatever directory the
  operating system shows (with names of at most 255 bytes, the limit of Linux).\<close>
theorem readdir_reply_fits:
  assumes "\<forall>f w fis w'. Readdir os f w = (Inr fis, w') \<longrightarrow> (\<forall>fi \<in> set fis. length (FiName fi) \<le> 255)"
    and "\<forall>p w fi w'. Lstat os p w = (Inr fi, w') \<longrightarrow> length (FiName fi) \<le> 255"
    and "exec (ReadDir os h cookie maxc zero_readdir) s = Inr ((NFS3_OK, r), t)" and "unat maxc + 280 < 2 ^ 32"
  shows "\<exists>b. Marshal G buffer_write [] (Some (RPtr T (Some (rv_readdir (r\<lparr>Status := NFS3_OK\<rparr>))))) = Inr (length b, None, b) \<and>
    length b = 4 + page_size (Entries (RdReply (Resok r))) \<and>
    (Entries (RdReply (Resok r)) \<noteq> [] \<longrightarrow> length b \<le> 4 + unat maxc)"
proof -
  from ReadDir_result [OF assms(3,1,2)] obtain isRoot dot fs eof
    where r: "Attributes_follow (RdDir_attributes (Resok r))" "length (RdrCookieverf (Resok r)) = 8"
      and fs: "\<And>fi. Some fi \<in> set fs \<Longrightarrow> length (FiName fi) \<le> 255"
      and page: "readdir_page isRoot dot fs cookie maxc = Inr (Entries (RdReply (Resok r)), eof)" by blast
  have "length (readdir_bytes (r\<lparr>Status := NFS3_OK\<rparr>)) = 4 + page_size (Entries (RdReply (Resok r)))"
    using r by (simp add: length_readdir)
  moreover have "Entries (RdReply (Resok r)) \<noteq> [] \<longrightarrow> page_size (Entries (RdReply (Resok r))) \<le> unat maxc"
    using readdir_loop_size [OF page [unfolded readdir_page_def] _ _ assms(4)] fs
    by (auto dest: in_set_dropD simp: page_size_def READDIRRESOKSIZE_def)
  ultimately show ?thesis
    using Marshal_readdir [of "r\<lparr>Status := NFS3_OK\<rparr>" G "[]" T] r by simp
qed

lemma toy_names: "toy_stat p = Inr fi \<Longrightarrow> length (FiName fi) \<le> 255"
  by (auto simp: toy_stat_def toy_mode_def split: if_split_asm)

theorem readdir_reply_fits_witness:
  "\<exists>r t b. exec (ReadDir toy_os toy_root 0 400 zero_readdir) (toy_mounted True) = Inr ((NFS3_OK, r), t) \<and>
     Marshal sample_env buffer_write [] (Some (RPtr (TNamed ''READDIR3res'') (Some (rv_readdir (r\<lparr>Status := NFS3_OK\<rparr>))))) =
       Inr (length b, None, b) \<and> Entries (RdReply (Resok r)) \<noteq> [] \<and> length b \<le> 404"
proof -
  let ?d = "exec (ReadDir toy_os toy_root 0 400 zero_readdir) (toy_mounted True)"
  have "(case ?d of Inr ((status, r), t) \<Rightarrow> status = NFS3_OK \<and> Entries (RdReply (Resok r)) \<noteq> [] | _ \<Rightarrow> False)" by code_simp
  then obtain r t where d: "?d = Inr ((NFS3_OK, r), t)" and ne: "Entries (RdReply (Resok r)) \<noteq> []"
    by (auto split: sum.split_asm prod.split_asm)
  have dir: "\<forall>f w fis w'. Readdir toy_os f w = (Inr fis, w') \<longrightarrow> (\<forall>fi \<in> set fis. length (FiName fi) \<le> 255)"
    by (auto simp: toy_os_def toy_stat_def toy_mode_def)
  have "\<forall>p w fi w'. Lstat toy_os p w = (Inr fi, w') \<longrightarrow> length (FiName fi) \<le> 255"
    by (auto simp: toy_os_def dest: toy_names)
  from readdir_reply_fits [OF dir this d, of sample_env "TNamed ''READDIR3res''"] d ne show ?thesis by auto
qed

end
