(* ===== verification/Nfs_Race.thy ===== *)
theory Nfs_Race
  imports Nfs_Handles
begin

text \<open>
  What the actions of two requests do to each other.  LOOKUP reads the attributes of a file and only then looks into the
  handle table; a silly rename of the same file in between moves the handle, and LOOKUP takes what it finds there
  for another file with the same hash.
\<close>

section \<open>Runs of one request among others\<close>

lemma exec_prefix:
  "exec m s = Inr (x, t) \<Longrightarrow> (pool_step os allowed env)\<^sup>*\<^sup>* (add_mset (r, bindR m f) M, s) (add_mset (r, f x) M, t)"
proof (induction m arbitrary: s)
  case (act u k)
  have "pool_step os allowed env (add_mset (r, bindR (act u k) f) M, s) (add_mset (r, bindR (k s) f) M, u s)"
    unfolding bindR.simps by (rule pool_step.action)
  also have "(pool_step os allowed env)\<^sup>*\<^sup>* (add_mset (r, bindR (k s) f) M, u s) (add_mset (r, f x) M, t)"
    using act by simp
  finally show ?case .
qed simp_all

lemma exec_crashes:
  "exec m s = Inl c \<Longrightarrow> \<exists>t. (pool_step os allowed env)\<^sup>*\<^sup>* (add_mset (r, m) M, s) (add_mset (r, crash c) M, t)"
proof (induction m arbitrary: s)
  case (act u k)
  from act.IH [of "k s" "u s"] act.prems
  obtain t where "(pool_step os allowed env)\<^sup>*\<^sup>* (add_mset (r, k s) M, u s) (add_mset (r, crash c) M, t)" by auto
  with pool_step.action [of os allowed env r u k M s] show ?case by (blast intro: converse_rtranclp_into_rtranclp)
qed auto

lemma pool_frame:
  assumes "pool_step os allowed env p q"
  shows "pool_step os allowed env (add_mset x (fst p), snd p) (add_mset x (fst q), snd q)"
  using assms by cases (auto simp: add_mset_commute [of x] intro: pool_step.intros)

lemma pool_beside:
  assumes "(pool_step os allowed env)\<^sup>*\<^sup>* (M, s) (N, t)"
  shows "(pool_step os allowed env)\<^sup>*\<^sup>* (add_mset x M, s) (add_mset x N, t)"
  using assms
proof (induction "(N, t)" arbitrary: N t rule: rtranclp_induct)
  case (step q)
  obtain M' s' where q: "q = (M', s')" by (cases q)
  from step(2) have "pool_step os allowed env (add_mset x M', s') (add_mset x N, t)"
    using pool_frame [of os allowed env "(M', s')" "(N, t)" x] by (simp add: q)
  with step(3) [OF q] show ?case by (rule rtranclp.rtrancl_into_rtrancl)
qed simp

section \<open>Files that stay what they are\<close>

text \<open>\<open>at w p\<close> is what \<^verbatim>\<open>Lstat\<close> reads of \<open>p\<close>, and reading changes nothing of it.\<close>

definition sees :: "'w os \<Rightarrow> ('w \<Rightarrow> string \<Rightarrow> Stat_t option) \<Rightarrow> bool" where
  "sees os at \<longleftrightarrow> (\<forall>p w. at (snd (Lstat os p w)) = at w \<and>
     (case fst (Lstat os p w) of Inl _ \<Rightarrow> at w p = None | Inr fi \<Rightarrow> at w p \<noteq> None \<and> FiSys fi = at w p))"

text \<open>When \<^verbatim>\<open>os.Rename\<close> of \<open>p\<close>, a file, to \<open>q\<close> succeeds, the file keeps its inode, and other paths stay.\<close>

definition moves_file :: "'w os \<Rightarrow> ('w \<Rightarrow> string \<Rightarrow> Stat_t option) \<Rightarrow> string \<Rightarrow> string \<Rightarrow> bool" where
  "moves_file os at p q \<longleftrightarrow> (\<forall>w st. at w p = Some st \<longrightarrow> fst (Rename_sys os p q w) = None \<longrightarrow>
     (let at' = at (snd (Rename_sys os p q w)) in
      map_option (\<lambda>st. (StIno st, StDev st)) (at' q) = Some (StIno st, StDev st) \<and>
      (\<forall>x. x \<noteq> p \<longrightarrow> x \<noteq> q \<longrightarrow> (at' x = None) = (at w x = None))))"

definition looked :: "'w os \<Rightarrow> string \<Rightarrow> 'w srv \<Rightarrow> 'w srv" where
  "looked os p s = s\<lparr>world := snd (Lstat os p (world s))\<rparr>"

lemma looked [simp]:
  "backend (looked os p s) = backend s" "sees os at \<Longrightarrow> at (world (looked os p s)) = at (world s)"
  by (simp_all add: looked_def sees_def)

lemma sees_attr:
  assumes "sees os at" and "at (world s) p = Some st"
  obtains fb where "exec (getFileAttrFromPath os p fa) s = Inr ((fb, None), looked os p s)"
    and "Fileid fb = StIno st" and "Fsid fb = StDev st"
proof -
  obtain r w where r: "Lstat os p (world s) = (r, w)" by (cases "Lstat os p (world s)")
  with assms obtain fi where "r = Inr fi" "FiSys fi = Some st"
    by (cases r) (auto simp: sees_def dest!: spec [of _ p] spec [of _ "world s"])
  with r that show thesis by (simp add: getFileAttrFromPath_def run_defs fill_fattr_def looked_def)
qed

lemma sees_poststat:
  assumes "sees os at" and "at (world s) p \<noteq> None"
  shows "\<exists>b. exec (poststat os clear p h a) s = Inr (b, looked os p s)"
proof -
  from assms(2) obtain st where "at (world s) p = Some st" by blast
  from sees_attr [OF assms(1) this, of "Attributes a"] obtain fb
    where "exec (getFileAttrFromPath os p (Attributes a)) s = Inr ((fb, None), looked os p s)" .
  then show ?thesis by (simp add: poststat_def exec_bindR)
qed

lemma sees_after_both:
  assumes "sees os at" and "at (world s) p \<noteq> None"
  shows "\<exists>r'. exec (after_both os p h p h r) s = Inr (r', looked os p (looked os p s))"
proof -
  obtain b where b: "exec (poststat os True p h (WAfter (Fromdir_wcc r))) s = Inr (b, looked os p s)"
    using sees_poststat [OF assms] by blast
  have "at (world (looked os p s)) p \<noteq> None" using assms by simp
  then obtain c where c: "exec (poststat os True p h (WAfter (Todir_wcc r))) (looked os p s) = Inr (c, looked os p (looked os p s))"
    using sees_poststat [OF assms(1)] by blast
  from b c show ?thesis by (simp add: after_both_def exec_bindR exec_steps)
qed

lemma taken_for_collision:
  assumes "sees os at" and "fhandleMap (backend s) (makeFHandle p (Fileid fa) (Fsid fa)) = Some q" and "q \<noteq> p"
    and "at (world s) q \<noteq> None"
  shows "exec (registerHandle os p fa) s = Inl Fatal"
proof -
  obtain r w where r: "Lstat os q (world s) = (r, w)" by (cases "Lstat os q (world s)")
  with assms(1,4) obtain fi where "r = Inr fi"
    by (cases r) (auto simp: sees_def dest!: spec [of _ q] spec [of _ "world s"])
  with r assms(2,3) show ?thesis by (simp add: registerHandle_def run_defs)
qed

section \<open>The two requests\<close>

text \<open>LOOKUP, up to where it turns to the handle table.\<close>

lemma Lookup_looks:
  assumes "sees os at" and "of_le64 (Dir a) = Inr d" and "fhandleMap (backend s) d = Some dir" and "plain_name (DName a)"
    and "at (world s) dir \<noteq> None" and "at (world s) (dir @ ''/'' @ DName a) = Some st"
  obtains fb f where "Fileid fb = StIno st" and "Fsid fb = StDev st"
    and "\<And>allowed env r M. (pool_step os allowed env)\<^sup>*\<^sup>* (add_mset (r, serve os (QLookup a)) M, s)
      (add_mset (r, bindR (registerHandle os (dir @ ''/'' @ DName a) fb) f) M, looked os (dir @ ''/'' @ DName a) (looked os dir s))"
proof -
  let ?p = "dir @ ''/'' @ DName a"
  from assms(5) obtain sd where "at (world s) dir = Some sd" by blast
  from sees_attr [OF assms(1) this, of zero_fattr] obtain fd
    where 1: "exec (getFileAttrFromPath os dir zero_fattr) s = Inr ((fd, None), looked os dir s)" .
  from assms(1,6) have "at (world (looked os dir s)) ?p = Some st" by simp
  from sees_attr [OF assms(1) this, of zero_fattr] obtain fb
    where 2: "exec (getFileAttrFromPath os ?p zero_fattr) (looked os dir s) = Inr ((fb, None), looked os ?p (looked os dir s))"
      "Fileid fb = StIno st" "Fsid fb = StDev st" .
  have name: "lookup_name c dir (DName a) = ?p" "DName a \<noteq> []" "\<not> ContainsSlash (DName a)" for c
    using assms(4) by (auto simp: lookup_name_def plain_name_def)
  have 0: "exec (getValuefromHandle d) s = Inr (Some dir, s)" using assms(3) by (simp add: run_defs)
  have 3: "exec (getBE config) (looked os dir s) = Inr (config (backend s), looked os dir s)" by (simp add: run_defs)
  have z: "Attributes (LkDir_attributes (Resok zero_lookup)) = zero_fattr" "Attributes (LkObj_attributes (Resok zero_lookup)) = zero_fattr"
    by (simp_all add: zero_lookup_def zero_res_def zero_post_def)
  show thesis
    apply (rule that [OF 2(2,3)])
    apply (simp add: mapR_def Nfsproc3_lookup_3_svc_def assms(2) handle_value with_status_def Lookup_def on_object_def bindR_assoc del: append_Cons)
    apply (rule rtranclp_trans, rule exec_prefix [OF 0])
    apply (simp add: bindR_assoc z)
    apply (rule rtranclp_trans, rule exec_prefix [OF 1])
    apply (simp add: bindR_assoc name)
    apply (rule rtranclp_trans, rule exec_prefix [OF 3])
    apply (simp add: bindR_assoc name Let_def z)
    apply (rule rtranclp_trans, rule exec_prefix, use 2 in simp)
    apply (simp add: bindR_assoc name)
    apply (rule rtranclp.rtrancl_refl)
    done
qed

lemma Rename_moves:
  assumes "sees os at" and "of_le64 (Dir a) = Inr d" and "Dir b = Dir a" and "fhandleMap (backend s) d = Some dir"
    and "writeaccess (config (backend s))" and "plain_name (DName a)" and "plain_name (DName b)" and "HasPrefix (DName b) ''.nfs''"
    and "at (world s) dir \<noteq> None" and "at (world s) (dir @ ''/'' @ DName a) = Some st"
    and "moves_file os at (dir @ ''/'' @ DName a) (dir @ ''/'' @ DName b)"
    and "\<forall>w. at w = at (world s) \<longrightarrow> fst (Rename_sys os (dir @ ''/'' @ DName a) (dir @ ''/'' @ DName b) w) = None"
    and "fhandleMap (backend s) (makeFHandle (dir @ ''/'' @ DName a) (StIno st) (StDev st)) = Some (dir @ ''/'' @ DName a)"
  obtains reply t where "exec (serve os (QRename \<lparr>RnFrom = a, RnTo = b\<rparr>)) s = Inr (reply, t)"
    and "fhandleMap (backend t) (makeFHandle (dir @ ''/'' @ DName a) (StIno st) (StDev st)) = Some (dir @ ''/'' @ DName b)"
    and "at (world t) (dir @ ''/'' @ DName b) \<noteq> None"
proof -
  let ?p = "dir @ ''/'' @ DName a" and ?q = "dir @ ''/'' @ DName b"
  let ?h = "makeFHandle ?p (StIno st) (StDev st)"
  from assms(9) obtain sd where sd: "at (world s) dir = Some sd" by blast
  from sees_attr [OF assms(1) sd, of zero_fattr] obtain f1
    where 1: "exec (getFileAttrFromPath os dir zero_fattr) s = Inr ((f1, None), looked os dir s)" .
  from assms(1) sd have "at (world (looked os dir s)) dir = Some sd" by simp
  from sees_attr [OF assms(1) this, of zero_fattr] obtain f2
    where 2: "exec (getFileAttrFromPath os dir zero_fattr) (looked os dir s) = Inr ((f2, None), looked os dir (looked os dir s))" .
  let ?s2 = "looked os dir (looked os dir s)"
  have at2: "at (world ?s2) = at (world s)" using assms(1) by simp
  define s3 where "s3 = ?s2\<lparr>world := snd (Rename_sys os ?p ?q (world ?s2))\<rparr>"
  have ok: "fst (Rename_sys os ?p ?q (world ?s2)) = None" using assms(12) at2 by blast
  then have q: "map_option (\<lambda>st. (StIno st, StDev st)) (at (world s3) ?q) = Some (StIno st, StDev st)" and dir: "at (world s3) dir \<noteq> None"
    using assms(11) [unfolded moves_file_def, rule_format, of "world ?s2" st] assms(9,10) at2
    by (auto simp: Let_def s3_def)
  have 3: "exec (sys (Rename_sys os ?p ?q)) ?s2 = Inr (None, s3)" using ok by (simp add: exec_steps s3_def split_def Let_def)
  from q obtain sq where sq: "at (world s3) ?q = Some sq" "StIno sq = StIno st" "StDev sq = StDev st" by auto
  from sees_attr [OF assms(1) sq(1), of f1] sq(2,3) obtain f4
    where 4: "exec (getFileAttrFromPath os ?q f1) s3 = Inr ((f4, None), looked os ?q s3)" "Fileid f4 = StIno st" "Fsid f4 = StDev st" by metis
  define u where "u = (looked os ?q s3)\<lparr>backend := (backend s)\<lparr>fhandleMap := (fhandleMap (backend s))(?h \<mapsto> ?q)\<rparr>\<rparr>"
  have "backend s3 = backend s" by (simp add: s3_def)
  then have silly: "exec (silly_rename os (DName b) ?p ?q f1) s3 = Inr ((), u)"
    using 4 assms(8,13) by (simp add: silly_rename_def run_defs u_def)
  have atu: "at (world u) = at (world s3)" using assms(1) by (simp add: u_def)
  with dir have "at (world u) dir \<noteq> None" by simp
  from sees_after_both [OF assms(1) this] obtain r'
    where both: "exec (after_both os dir d dir d (Resok (both_parts (set_to_before f1) (both_parts (set_from_before f1) zero_rename)))) u =
      Inr (r', looked os dir (looked os dir u))" by blast
  have "\<exists>reply. exec (serve os (QRename \<lparr>RnFrom = a, RnTo = b\<rparr>)) s = Inr (reply, looked os dir (looked os dir u))"
    using 1 2 3 assms(2-7) silly both
    by (simp add: mapR_def Nfsproc3_rename_3_svc_def handle_value with_status_def Rename_def exec_bindR
        exec_steps(1,4) getValuefromHandle_def Let_def)
  then show thesis using that atu assms(1) sq by (auto simp: u_def)
qed

text \<open>C9: LOOKUP and a silly rename of the same file, at the same time, can take the server down.  The handle of \<open>p\<close> is known;
  LOOKUP of \<open>p\<close> has read the attributes; RENAME gives \<open>p\<close> a name that begins with \<^verbatim>\<open>.nfs\<close> and moves the handle along;
  LOOKUP now finds the handle with another path, which exists, and ends the process with \<^verbatim>\<open>FNV1a collision\<close>,
  although no two paths have the same hash.  The file system is any that keeps the inode of a file it renames, in a state
  where it lets this file be renamed.\<close>
theorem lookup_races_silly_rename:
  fixes a b :: Diropargs3
  assumes "sees os at" and "moves_file os at (dir @ ''/'' @ DName a) (dir @ ''/'' @ DName b)"
    and may: "\<forall>w. at w = at (world s) \<longrightarrow> fst (Rename_sys os (dir @ ''/'' @ DName a) (dir @ ''/'' @ DName b) w) = None"
    and "of_le64 (Dir a) = Inr d" and "Dir b = Dir a" and "fhandleMap (backend s) d = Some dir" and "writeaccess (config (backend s))"
    and "plain_name (DName a)" and "plain_name (DName b)" and "HasPrefix (DName b) ''.nfs''" and "DName a \<noteq> DName b"
    and "at (world s) dir \<noteq> None" and "at (world s) (dir @ ''/'' @ DName a) = Some st"
    and "fhandleMap (backend s) (makeFHandle (dir @ ''/'' @ DName a) (StIno st) (StDev st)) = Some (dir @ ''/'' @ DName a)"
  shows "\<exists>t. (pool_step os (\<lambda>_. True) env)\<^sup>*\<^sup>* ({#}, s) ({#(QLookup a, crash Fatal)#}, t)"
proof -
  let ?step = "pool_step os (\<lambda>_. True) env" and ?p = "dir @ ''/'' @ DName a" and ?q = "dir @ ''/'' @ DName b"
  let ?ren = "QRename \<lparr>RnFrom = a, RnTo = b\<rparr>" and ?u = "looked os ?p (looked os dir s)"
  from Lookup_looks [OF assms(1,4,6,8,12,13)] obtain fb f where fb: "Fileid fb = StIno st" "Fsid fb = StDev st"
    and look: "?step\<^sup>*\<^sup>* ({#(QLookup a, serve os (QLookup a))#}, s) ({#(QLookup a, bindR (registerHandle os ?p fb) f)#}, ?u)" by metis
  from may assms(1) have may': "\<forall>w. at w = at (world ?u) \<longrightarrow> fst (Rename_sys os ?p ?q w) = None" by simp
  from assms(1,6,7,12-14) have "fhandleMap (backend ?u) d = Some dir" "writeaccess (config (backend ?u))" "at (world ?u) dir \<noteq> None"
    "at (world ?u) ?p = Some st" "fhandleMap (backend ?u) (makeFHandle ?p (StIno st) (StDev st)) = Some ?p" by simp_all
  from Rename_moves [OF assms(1,4,5) this(1,2) assms(8-10) this(3,4) assms(2) may' this(5)] obtain reply t
    where ren: "exec (serve os ?ren) ?u = Inr (reply, t)"
      and t: "fhandleMap (backend t) (makeFHandle ?p (StIno st) (StDev st)) = Some ?q" "at (world t) ?q \<noteq> None" .
  have "exec (registerHandle os ?p fb) t = Inl Fatal"
    using taken_for_collision [OF assms(1) _ _ t(2), of ?p fb] t(1) fb assms(11) by simp
  then have "exec (bindR (registerHandle os ?p fb) f) t = Inl Fatal" by (simp add: exec_bindR)
  from exec_crashes [OF this] obtain v
    where crash: "?step\<^sup>*\<^sup>* ({#(QLookup a, bindR (registerHandle os ?p fb) f)#}, t) ({#(QLookup a, crash Fatal)#}, v)" by blast
  have "?step ({#}, s) ({#(QLookup a, serve os (QLookup a))#}, s)" by (rule pool_step.arrive) simp
  also note look
  also have "?step ({#(QLookup a, bindR (registerHandle os ?p fb) f)#}, ?u)
      ({#(?ren, serve os ?ren), (QLookup a, bindR (registerHandle os ?p fb) f)#}, ?u)" by (rule pool_step.arrive) simp
  also note exec_runs [OF ren]
  also have "?step ({#(?ren, ret reply), (QLookup a, bindR (registerHandle os ?p fb) f)#}, t)
      ({#(QLookup a, bindR (registerHandle os ?p fb) f)#}, t)" by (rule pool_step.leave)
  also note crash
  finally show ?thesis by blast
qed

text \<open>The toy file system, where \<^verbatim>\<open>/d/f\<close> can be renamed to \<^verbatim>\<open>/d/.nfsf\<close>.\<close>

definition nfs_stat :: "string \<Rightarrow> event list \<Rightarrow> oserror + FileInfo" where
  "nfs_stat p w = (if Changed ''/d/.nfsf'' \<in> set w then
     (if p = ''/d/.nfsf'' then toy_stat ''/d/f'' else if p = ''/d/f'' then toy_stat ''/d/.nfsf'' else toy_stat p) else toy_stat p)"

definition nfs_os :: "event list os" where
  "nfs_os = toy_os\<lparr>Lstat := (\<lambda>p w. (nfs_stat p w, w @ [Looked p]))\<rparr>"

definition nfs_at :: "event list \<Rightarrow> string \<Rightarrow> Stat_t option" where
  "nfs_at w p = (case nfs_stat p w of Inl _ \<Rightarrow> None | Inr fi \<Rightarrow> FiSys fi)"

lemma nfs_sees: "sees nfs_os nfs_at"
  by (auto simp: sees_def nfs_os_def nfs_at_def nfs_stat_def toy_stat_def fun_eq_iff split: option.split)

lemma nfs_moves: "moves_file nfs_os nfs_at ''/d/f'' ''/d/.nfsf''"
  by (auto simp: moves_file_def nfs_os_def toy_os_def nfs_at_def nfs_stat_def toy_stat_def toy_mode_def Let_def split: option.split)

lemma nfs_may: "fst (Rename_sys nfs_os p q w) = None"
  by (simp add: nfs_os_def toy_os_def)

theorem lookup_races_silly_rename_witness:
  "\<exists>s t. exec (serve nfs_os (QLookup \<lparr>Dir = le64 toy_root, DName = ''f''\<rparr>)) (toy_mounted True) = Inr s \<and>
     (pool_step nfs_os (\<lambda>_. True) (\<lambda>_ _. False))\<^sup>*\<^sup>* ({#}, snd s) ({#(QLookup \<lparr>Dir = le64 toy_root, DName = ''f''\<rparr>, crash Fatal)#}, t)"
proof -
  let ?r = "exec (serve nfs_os (QLookup \<lparr>Dir = le64 toy_root, DName = ''f''\<rparr>)) (toy_mounted True)"
  have "case ?r of Inl _ \<Rightarrow> False | Inr (_, s) \<Rightarrow> fhandleMap (backend s) toy_root = Some ''/d'' \<and> writeaccess (config (backend s)) \<and>
      fhandleMap (backend s) (makeFHandle ''/d/f'' 4 1) = Some ''/d/f'' \<and>
      map_option StIno (nfs_at (world s) ''/d/f'') = Some 4 \<and> map_option StDev (nfs_at (world s) ''/d/f'') = Some 1 \<and>
      nfs_at (world s) ''/d'' \<noteq> None" by code_simp
  then obtain x s st where r: "?r = Inr (x, s)" and s: "fhandleMap (backend s) toy_root = Some ''/d''" "writeaccess (config (backend s))"
    "fhandleMap (backend s) (makeFHandle ''/d/f'' 4 1) = Some ''/d/f''" "nfs_at (world s) ''/d/f'' = Some st" "StIno st = 4" "StDev st = 1"
    "nfs_at (world s) ''/d'' \<noteq> None" by (auto split: sum.splits prod.splits)
  from lookup_races_silly_rename [OF nfs_sees, where dir = "''/d''" and a = "\<lparr>Dir = le64 toy_root, DName = ''f''\<rparr>"
      and b = "\<lparr>Dir = le64 toy_root, DName = ''.nfsf''\<rparr>" and d = toy_root and s = s and st = st and env = "\<lambda>_ _. False"] s nfs_moves nfs_may
  have "\<exists>t. (pool_step nfs_os (\<lambda>_. True) (\<lambda>_ _. False))\<^sup>*\<^sup>* ({#}, s) ({#(QLookup \<lparr>Dir = le64 toy_root, DName = ''f''\<rparr>, crash Fatal)#}, t)"
    by (simp add: plain_name_def ContainsSlash_def HasPrefix_def)
  with r show ?thesis by auto
qed

end
