(* ===== verification/Xdr_Sure.thy ===== *)
theory Xdr_Sure
  imports Xdr_Roundtrip
begin

text \<open>
  Which values the encoder is sure to write into a buffer: \<open>encodable\<close> asks for the things its error branches
  complain about (no nil pointer but in an optional field, a discriminant of a kind that has a number, no value of an
  unsupported kind), in the fields that are not left out.  \<open>Marshal_sure\<close> says that this is enough.
\<close>

fun encodable_fields :: "genv \<Rightarrow> (rvalue \<Rightarrow> bool) \<Rightarrow> string \<Rightarrow> (fieldinfo \<times> rvalue) list \<Rightarrow> bool" where
  "encodable_fields G c disc [] = True"
| "encodable_fields G c disc ((fi, vf) # fs) =
     (let tag = parseTag (ftag fi); u = indirect vf;
          d = (if tag_Get tag ''union'' = ''true'' \<and> \<not> seq_field tag u then discriminant G u else Inr (Some disc)) in
      if \<not> exported fi then encodable_fields G c disc fs
      else if tag_Get tag ''optional'' = ''true'' \<and> \<not> is_ptr vf then False
      else if tag_Get tag ''optional'' = ''true'' \<and> (case vf of RPtr T None \<Rightarrow> True | _ \<Rightarrow> False)
      then encodable_fields G c disc fs
      else (case d of
              Inr (Some s) \<Rightarrow> (seq_field tag u \<or> \<not> skip_case tag s \<longrightarrow> c vf) \<and> encodable_fields G c s fs
            | _ \<Rightarrow> False))"

lemma encodable_fields_cong [fundef_cong]:
  "fs = fs' \<Longrightarrow> (\<And>fv. fv \<in> set fs' \<Longrightarrow> c (snd fv) = c' (snd fv)) \<Longrightarrow>
     encodable_fields G c disc fs = encodable_fields G c' disc fs'"
proof (induction fs arbitrary: fs' disc)
  case (Cons fv fs)
  obtain fi vf where fv: "fv = (fi, vf)" by (cases fv)
  have fs': "fs' = (fi, vf) # fs" using Cons.prems(1) by (simp add: fv)
  have "c vf = c' vf" using Cons.prems(2) [of fv] by (simp add: fv fs')
  moreover have "encodable_fields G c disc fs = encodable_fields G c' disc fs" for disc
    by (rule Cons.IH [OF refl]) (use Cons.prems(2) in \<open>simp add: fs'\<close>)
  ultimately show ?case by (simp add: fv fs' Let_def split: sum.split option.split)
qed simp

fun encodable :: "genv \<Rightarrow> rvalue \<Rightarrow> bool" where
  "encodable G (RPtr T p) = (case p of None \<Rightarrow> False | Some u \<Rightarrow> encodable G u)"
| "encodable G (RArray E xs) = (\<forall>x \<in> set xs. encodable G x)"
| "encodable G (RSlice E xs sp) = (\<forall>x \<in> set xs. encodable G x)"
| "encodable G (RMap K V kvs) = (\<forall>kv \<in> set kvs. encodable G (fst kv) \<and> encodable G (snd kv))"
| "encodable G (RStruct fs) = encodable_fields G (encodable G) '''' fs"
| "encodable G (RIface p) = (case p of None \<Rightarrow> False | Some u \<Rightarrow> encodable G u)"
| "encodable G RInvalid = False"
| "encodable G RUnsupported = False"
| "encodable G _ = True"

section \<open>The encoder writes them\<close>

definition writes :: "(bytes \<Rightarrow> bytes eres go) \<Rightarrow> bool" where
  "writes f \<longleftrightarrow> (\<exists>b. \<forall>w. f w = Inr (length b, None, w @ b))"

lemma writes_done: "writes doneE"
  unfolding writes_def doneE_def by (rule exI [of _ "[]"]) simp

lemma writes_seq [intro]: "writes f \<Longrightarrow> writes g \<Longrightarrow> writes (\<lambda>w. seqE (f w) g)"
  unfolding writes_def
proof (elim exE)
  fix a b assume "\<forall>w. f w = Inr (length a, None, w @ a)" "\<forall>w. g w = Inr (length b, None, w @ b)"
  then show "\<exists>c. \<forall>w. seqE (f w) g = Inr (length c, None, w @ c)"
    by (intro exI [of _ "a @ b"]) (simp add: seqE_def)
qed

lemma writes_buffer:
  "writes (EncodeInt buffer_write i)" "writes (EncodeUint buffer_write u)" "writes (EncodeBool buffer_write bo)"
  "writes (EncodeHyper buffer_write h)" "writes (EncodeUhyper buffer_write uh)" "writes (EncodeFloat buffer_write fl)"
  "writes (EncodeDouble buffer_write db)"
proof -
  have four: "writes f" if "\<And>w. f w = Inr (4, None, w @ be32 x)" for f x
    using that unfolding writes_def by (intro exI [of _ "be32 x"]) simp
  have eight: "writes f" if "\<And>w. f w = Inr (8, None, w @ be64 x)" for f x
    using that unfolding writes_def by (intro exI [of _ "be64 x"]) simp
  show "writes (EncodeInt buffer_write i)" "writes (EncodeUint buffer_write u)" "writes (EncodeBool buffer_write bo)"
    "writes (EncodeHyper buffer_write h)" "writes (EncodeUhyper buffer_write uh)" "writes (EncodeFloat buffer_write fl)"
    "writes (EncodeDouble buffer_write db)"
    by (rule four eight, simp add: Encode_buffer)+
qed

lemma writes_opaque: "writes (EncodeFixedOpaque buffer_write b)"
  unfolding writes_def
  by (rule exI [of _ "b @ replicate (pad_len (length b) - length b) 0"])
    (use pad_len_bounds(1) [of "length b"] in \<open>simp add: EncodeFixedOpaque_buffer\<close>)

lemma writes_opaques [intro]: "writes (EncodeOpaque buffer_write bs)" "writes (EncodeString buffer_write s)"
  unfolding EncodeOpaque_def [abs_def] EncodeString_def [abs_def] by (intro writes_seq writes_buffer writes_opaque)+

lemma writes_cong: "(\<And>w. f w = g w) \<Longrightarrow> writes g \<Longrightarrow> writes f"
  by (simp add: writes_def)

lemma writes_elems: "(\<And>x. x \<in> set xs \<Longrightarrow> writes (enc x)) \<Longrightarrow> writes (encode_elems enc xs)"
proof (induction xs)
  case Nil
  show ?case by (rule writes_cong [OF _ writes_done]) simp
next
  case (Cons x xs)
  show ?case by (rule writes_cong [OF encode_elems.simps(2)]) (intro writes_seq Cons; simp add: Cons.prems)
qed

lemma writes_pairs:
  "(\<And>kv. kv \<in> set kvs \<Longrightarrow> writes (enc (fst kv)) \<and> writes (enc (snd kv))) \<Longrightarrow> writes (encode_pairs enc kvs)"
proof (induction kvs)
  case Nil
  show ?case by (rule writes_cong [OF _ writes_done]) simp
next
  case (Cons kv kvs)
  show ?case by (rule writes_cong [OF encode_pairs.simps(2)]) (intro writes_seq Cons; simp add: Cons.prems)
qed

lemma writes_arrays:
  assumes "\<And>x. x \<in> set xs \<Longrightarrow> writes (enc x)"
  shows "writes (encodeFixedArray buffer_write enc E xs io)" "writes (encodeArray buffer_write enc E xs io)"
proof -
  show fixed: "writes (encodeFixedArray buffer_write enc E xs io)"
    using writes_opaque writes_elems [OF assms]
    by (rule_tac writes_cong [of _ "if \<not> io \<and> E = TUint Uint8 then EncodeFixedOpaque buffer_write (map byte_of xs)
        else encode_elems enc xs"]) (simp_all add: encodeFixedArray_def)
  show "writes (encodeArray buffer_write enc E xs io)"
    unfolding encodeArray_def [abs_def] by (intro writes_seq writes_buffer fixed)
qed

section \<open>Fields\<close>

lemma encodable_indirect: "encodable G v \<Longrightarrow> encodable G (indirect v) \<and> indirect v \<noteq> RInvalid"
proof (induction v rule: indirect.induct)
  case (1 T v)
  then show ?case by simp
qed simp_all

lemma writes_field:
  assumes d: "(if tag_Get tag ''union'' = ''true'' \<and> \<not> seq_field tag u then discriminant G u else Inr (Some disc)) =
      Inr (Some s)"
    and enc: "seq_field tag u \<or> \<not> skip_case tag s \<Longrightarrow> writes (enc u)"
    and sub: "\<And>x E xs sp. seq_field tag u \<Longrightarrow> u = RSlice E xs sp \<or> u = RArray E xs \<Longrightarrow> x \<in> set xs \<Longrightarrow> writes (enc x)"
    and cont: "writes (cont s)"
  shows "writes (encode_field G buffer_write enc tag disc u cont)"
proof (cases "seq_field tag u")
  case True
  with d have s: "s = disc" by simp
  consider (slice) E xs sp where "u = RSlice E xs sp" | (array) E xs where "u = RArray E xs"
    using True by (cases u) (simp_all add: seq_field_def)
  then show ?thesis
  proof cases
    case slice
    have "writes (\<lambda>w. seqE (encodeArray buffer_write enc E xs True w) (cont disc))"
      using cont sub [OF True] unfolding s by (intro writes_seq writes_arrays) (auto simp: slice)
    then show ?thesis by (rule writes_cong [rotated]) (use True in \<open>simp add: encode_field_def slice seq_field_def\<close>)
  next
    case array
    have "writes (\<lambda>w. seqE (encodeFixedArray buffer_write enc E xs True w) (cont disc))"
      using cont sub [OF True] unfolding s by (intro writes_seq writes_arrays) (auto simp: array)
    then show ?thesis by (rule writes_cong [rotated]) (use True in \<open>simp add: encode_field_def array seq_field_def\<close>)
  qed
next
  case False
  have "writes (if skip_case tag s then cont s else (\<lambda>w. seqE (enc u w) (cont s)))"
    using cont enc by (simp add: writes_seq)
  moreover have "encode_field G buffer_write enc tag disc u cont w =
      (if skip_case tag s then cont s else (\<lambda>w. seqE (enc u w) (cont s))) w" for w
  proof -
    have "encode_field G buffer_write enc tag disc u cont w = encode_member G enc tag disc u cont w"
      using False by (cases u) (simp_all add: encode_field_def seq_field_def)
    also have "\<dots> = (if skip_case tag s then cont s else (\<lambda>w. seqE (enc u w) (cont s))) w"
      using d False by (simp add: encode_member_def split: if_splits)
    finally show ?thesis .
  qed
  ultimately show ?thesis by (rule writes_cong [rotated])
qed

lemma writes_fields:
  assumes IH: "\<And>x. encodable G x \<Longrightarrow> vdepth x \<le> d \<Longrightarrow> writes (enc x)"
  shows "\<forall>fv \<in> set fs. vdepth (snd fv) \<le> d \<Longrightarrow> encodable_fields G (encodable G) disc fs \<Longrightarrow>
    writes (encode_fields G buffer_write enc disc fs)"
proof (induction fs arbitrary: disc)
  case Nil
  show ?case by (rule writes_cong [OF _ writes_done]) simp
next
  case (Cons fv fs)
  obtain fi vf where fv: "fv = (fi, vf)" by (cases fv)
  define tag where "tag = parseTag (ftag fi)"
  define u where "u = indirect vf"
  have IHfs: "encodable_fields G (encodable G) disc' fs \<Longrightarrow> writes (encode_fields G buffer_write enc disc' fs)" for disc'
    using Cons by simp
  let ?cont = "\<lambda>disc. encode_fields G buffer_write enc disc fs"
  let ?opt = "tag_Get tag ''optional'' = ''true''"
  show ?case
  proof (cases "exported fi")
    case False
    with Cons.prems(2) have "writes (?cont disc)" by (intro IHfs) (simp add: fv Let_def)
    then show ?thesis by (rule writes_cong [rotated]) (simp add: fv False)
  next
    case exp: True
    have field: "writes (encode_field G buffer_write enc tag disc u ?cont)"
      if ok: "\<not> (?opt \<and> (case vf of RPtr T None \<Rightarrow> True | _ \<Rightarrow> False))"
    proof -
      obtain s where s: "(if tag_Get tag ''union'' = ''true'' \<and> \<not> seq_field tag u then discriminant G u
          else Inr (Some disc)) = Inr (Some s)"
        and e: "seq_field tag u \<or> \<not> skip_case tag s \<longrightarrow> encodable G vf" and c: "encodable_fields G (encodable G) s fs"
        using Cons.prems(2) exp ok
        by (auto simp: fv Let_def tag_def [symmetric] u_def [symmetric] split: if_splits sum.splits option.splits)
      have du: "vdepth u \<le> d" using Cons.prems(1) vdepth_indirect [of vf] by (simp add: fv u_def)
      show ?thesis
      proof (rule writes_field [OF s])
        show "writes (enc u)" if "seq_field tag u \<or> \<not> skip_case tag s"
          using encodable_indirect [of G vf] e that du by (intro IH) (auto simp: u_def)
        show "writes (enc x)" if "seq_field tag u" "u = RSlice E xs sp \<or> u = RArray E xs" "x \<in> set xs" for x E xs sp
          using encodable_indirect [of G vf] e that du vdepth_children(1) [of x xs E] vdepth_children(2) [of x xs E sp]
          by (intro IH) (auto simp: u_def simp del: vdepth.simps)
        show "writes (?cont s)" by (rule IHfs [OF c])
      qed
    qed
    show ?thesis
    proof (cases ?opt)
      case False
      with field have "writes (encode_field G buffer_write enc tag disc u ?cont)" by simp
      then show ?thesis
        by (rule writes_cong [rotated]) (use False in \<open>simp add: fv exp tag_def u_def Let_def\<close>)
    next
      case True
      with Cons.prems(2) exp obtain T p where p: "vf = RPtr T p"
        by (cases vf) (auto simp: fv Let_def tag_def [symmetric])
      have "writes (if p = None then ?cont disc else encode_field G buffer_write enc tag disc u ?cont)"
      proof (cases p)
        case None
        with Cons.prems(2) exp True have "writes (?cont disc)"
          by (intro IHfs) (simp add: fv Let_def tag_def [symmetric] p)
        with None show ?thesis by simp
      qed (use field p in simp)
      from writes_seq [OF writes_buffer(3) [of "p \<noteq> None"] this] show ?thesis
        by (rule writes_cong [rotated])
          (cases p; use True in \<open>simp add: fv exp p tag_def [symmetric] u_def Let_def\<close>)
    qed
  qed
qed

section \<open>Values\<close>

lemma writes_kind:
  assumes IH: "\<And>x. encodable G x \<Longrightarrow> vdepth x \<le> d \<Longrightarrow> writes (enc x)"
    and u: "encodable G u" "vdepth u \<le> Suc d" "\<not> is_ptr u"
  shows "writes (encode_kind G buffer_write enc u)"
proof (cases u)
  case (RArray E xs)
  have sub: "x \<in> set xs \<Longrightarrow> vdepth x \<le> d" for x
    using vdepth_children(1) [of x xs E] u(2) unfolding RArray by (meson less_Suc_eq_le less_le_trans)
  have "writes (encodeFixedArray buffer_write enc E xs False)"
    using u sub by (intro writes_arrays IH) (simp_all add: RArray)
  then show ?thesis by (rule writes_cong [rotated]) (simp add: RArray encode_kind_def)
next
  case (RSlice E xs sp)
  have sub: "x \<in> set xs \<Longrightarrow> vdepth x \<le> d" for x
    using vdepth_children(2) [of x xs E sp] u(2) unfolding RSlice by (meson less_Suc_eq_le less_le_trans)
  have "writes (encodeArray buffer_write enc E xs False)"
    using u sub by (intro writes_arrays IH) (simp_all add: RSlice)
  then show ?thesis by (rule writes_cong [rotated]) (simp add: RSlice encode_kind_def)
next
  case (RMap K V kvs)
  have sub: "kv \<in> set kvs \<Longrightarrow> vdepth (fst kv) \<le> d \<and> vdepth (snd kv) \<le> d" for kv
    using vdepth_children(3) [of kv kvs K V] u(2) unfolding RMap by (meson less_Suc_eq_le less_le_trans)
  have "writes (encode_pairs enc kvs)"
    using u sub by (intro writes_pairs conjI IH) (simp_all add: RMap)
  then have "writes (encodeMap buffer_write enc kvs)"
    unfolding encodeMap_def [abs_def] by (intro writes_seq writes_buffer)
  then show ?thesis by (rule writes_cong [rotated]) (simp add: RMap encode_kind_def)
next
  case (RStruct fs)
  have "fv \<in> set fs \<Longrightarrow> vdepth (snd fv) \<le> d" for fv
    using vdepth_children(4) [of fv fs] u(2) unfolding RStruct by (meson less_Suc_eq_le less_le_trans)
  then have "writes (encode_fields G buffer_write enc '''' fs)"
    using u by (intro writes_fields [of G d] IH) (simp_all add: RStruct)
  then show ?thesis by (rule writes_cong [rotated]) (simp add: RStruct encode_kind_def encodeStruct_def)
next
  case (RIface p)
  with u obtain v where v: "p = Some v" "encodable G v" "vdepth v \<le> d" by (auto split: option.splits)
  then have "writes (enc (indirect v))"
    using encodable_indirect [of G v] vdepth_indirect [of v] by (intro IH) auto
  then show ?thesis by (rule writes_cong [rotated]) (simp add: RIface v encode_kind_def encodeInterface_def)
next
  case (RInt k x)
  show ?thesis by (cases "k = Int64") (simp_all add: RInt encode_kind_def [abs_def] writes_buffer)
next
  case (RUint k x)
  show ?thesis by (cases "k = Uint64") (simp_all add: RUint encode_kind_def [abs_def] writes_buffer)
qed (use u in \<open>auto simp: encode_kind_def [abs_def] writes_buffer intro!: writes_opaques\<close>)

lemma writes_encode: "encodable G v \<Longrightarrow> vdepth v \<le> d \<Longrightarrow> writes (encode G buffer_write d v)"
proof (induction d arbitrary: v)
  case 0
  then show ?case using vdepth_pos [of v] by simp
next
  case (Suc d)
  have "writes (encode_kind G buffer_write (encode G buffer_write d) (indirect v))"
    using encodable_indirect [OF Suc.prems(1)] vdepth_indirect [of v] Suc.prems(2) indirect_not_ptr [of v]
    by (intro writes_kind [of G d] Suc.IH) auto
  then show ?case by (rule writes_cong [rotated]) (use Suc.prems(1) in auto)
qed

lemma encodable_not_nil: "encodable G v \<Longrightarrow> \<not> nil_below v"
  by (induction v rule: nil_below.induct) simp_all

lemma Marshal_sure:
  assumes "encodable G v"
  shows "\<exists>b. \<forall>w. Marshal G buffer_write w (Some v) = Inr (length b, None, w @ b)"
proof -
  have "writes (encode G buffer_write (vdepth v) (indirect v))"
    using encodable_indirect [OF assms] vdepth_indirect [of v] by (intro writes_encode) simp_all
  then show ?thesis using encodable_not_nil [OF assms] by (simp add: Marshal_def Encode_def writes_def)
qed

section \<open>Depth and type\<close>

lemma maxl_le: "(\<And>x. x \<in> set xs \<Longrightarrow> f x \<le> k) \<Longrightarrow> maxl (map f xs) \<le> k"
  by (induction xs) (simp_all add: maxl_def)

lemma typed_depth: "has_type G T v \<Longrightarrow> plain T \<Longrightarrow> vdepth v \<le> tdepth T"
proof (induction v arbitrary: T)
  case (RArray E xs)
  then show ?case by (auto intro!: maxl_le)
next
  case (RSlice E xs sp)
  then show ?case by (auto intro!: maxl_le simp: resolve_plain)
next
  case (RPtr E p)
  then show ?case by (auto simp: resolve_plain split: option.splits)
next
  case (RMap K V kvs)
  have "max (vdepth (fst kv)) (vdepth (snd kv)) \<le> max (tdepth K) (tdepth V)" if "kv \<in> set kvs" for kv
    using RMap.IH(1) [OF that, of "fst kv" K] RMap.IH(2) [OF that, of "snd kv" V] RMap.prems that
    by (cases kv) (fastforce simp: resolve_plain)
  then show ?case using RMap.prems by (auto intro!: maxl_le)
next
  case (RStruct fs)
  then obtain fts where T: "T = TStruct fts" "\<forall>ft \<in> set fts. plain (snd ft)"
    and fs: "list_all2 (\<lambda>ft fv. fst ft = fst fv \<and> has_type G (snd ft) (snd fv)) fts fs"
    by (auto split: gotype.splits)
  have "vdepth (snd fv) \<le> maxl (map (\<lambda>ft. tdepth (snd ft)) fts)" if "fv \<in> set fs" for fv
  proof -
    from that obtain i where i: "i < length fs" "fv = fs ! i" by (auto simp: in_set_conv_nth)
    define ft where "ft = fts ! i"
    have ft: "ft \<in> set fts" "has_type G (snd ft) (snd fv)"
      using list_all2_nthD2 [OF fs i(1)] list_all2_lengthD [OF fs] i by (simp_all add: ft_def)
    then have "vdepth (snd fv) \<le> tdepth (snd ft)" using RStruct.IH [OF that, of "snd fv"] T(2) by (cases fv) simp
    then show ?thesis using maxl_ge [OF ft(1), of "\<lambda>ft. tdepth (snd ft)"] by simp
  qed
  then show ?case by (auto simp: T(1) intro!: maxl_le)
qed auto

end
