(* ===== verification/Pmap_Client.thy ===== *)
theory Pmap_Client
  imports Onc_Rpc
begin

text \<open>
  \<^verbatim>\<open>portmapper/portmapClient.go\<close>: how the server registers itself with the port mapper of the machine.  The
  network is a parameter: what \<^verbatim>\<open>net.Dial\<close> says, what a write on the connection does, what arrives until the
  peer closes it.  \<open>rpc_Call\<close> is what \<^verbatim>\<open>net/rpc\<close> does with the client codec for the one call a client makes.
\<close>

section \<open>Constants and data\<close>

definition PMAP_PORT :: int where "PMAP_PORT = 111"
definition PMAP_PROGRAM :: u32 where "PMAP_PROGRAM = 100000"
definition PMAP_VER :: u32 where "PMAP_VER = 2"
definition PMAP_ADDR :: string where "PMAP_ADDR = ''127.0.0.1''"
definition IPPROTO_TCP :: u32 where "IPPROTO_TCP = 6"
definition IPPROTO_UDP :: u32 where "IPPROTO_UDP = 17"

record Mapping =
  MapProgram :: u32
  MapVersion :: u32
  MapProtocol :: u32
  MapPort :: u32

definition PmapProcList :: "string list" where
  "PmapProcList =
     [''PmapProc.PmapProc2_null'', ''PmapProc.PmapProc2_set'', ''PmapProc.PmapProc2_unset'',
      ''PmapProc.PmapProc2_getport'', ''PmapProc.PmapProc2_dump'', ''PmapProc.PmapProc2_callit'']"

definition procTableClient :: "ProcEntry list" where
  "procTableClient = [\<lparr>PProgram = PMAP_PROGRAM, PVersion = PMAP_VER, ProcList = PmapProcList\<rparr>]"

definition PMAPPROC_NULL :: u32 where "PMAPPROC_NULL = 0"
definition PMAPPROC_SET :: u32 where "PMAPPROC_SET = 1"
definition PMAPPROC_UNSET :: u32 where "PMAPPROC_UNSET = 2"
definition PMAPPROC_GETPORT :: u32 where "PMAPPROC_GETPORT = 3"
definition PMAPPROC_DUMP :: u32 where "PMAPPROC_DUMP = 4"
definition PMAPPROC_CALLIT :: u32 where "PMAPPROC_CALLIT = 5"

text \<open>What \<^verbatim>\<open>reflect\<close> shows of a \<^verbatim>\<open>Mapping\<close>, and the bytes RFC 1833 gives it.\<close>

definition Mapping_type :: gotype where
  "Mapping_type = TStruct [(xtag '''', TU32), (xtag '''', TU32), (xtag '''', TU32), (xtag '''', TU32)]"

definition rv_mapping :: "Mapping \<Rightarrow> rvalue" where
  "rv_mapping m = RStruct [(xtag '''', rv_u32 (MapProgram m)), (xtag '''', rv_u32 (MapVersion m)),
     (xtag '''', rv_u32 (MapProtocol m)), (xtag '''', rv_u32 (MapPort m))]"

definition mapping_bytes :: "Mapping \<Rightarrow> bytes" where
  "mapping_bytes m = be32 (MapProgram m) @ be32 (MapVersion m) @ be32 (MapProtocol m) @ be32 (MapPort m)"

section \<open>One call over a connection\<close>

text \<open>The network: a connection to the peer dialled last, its writer, and the bytes the peer sends after a
  request has been written.\<close>

record 'n net =
  Dial :: "string \<Rightarrow> string \<Rightarrow> 'n \<Rightarrow> bool \<times> 'n"
  Conn_write :: "'n writer"
  Conn_read :: "'n \<Rightarrow> bytes \<times> 'n"

text \<open>The error of a call: the request could not be written, no response, or one whose body is malformed
  (\<^verbatim>\<open>"reading body "\<close>), or no connection.\<close>

datatype callerr = SendErr rpcerr | HeaderErr rpcerr | BodyErr rpcerr | NotConnected string

text \<open>A response header takes at least four bytes off the input, so reading responses ends.\<close>

lemma read_fragments_shrinks:
  "fst (read_fragments grow buf bcap conn) = Inr r \<Longrightarrow> length (snd (read_fragments grow buf bcap conn)) < length conn"
proof (induction conn arbitrary: buf bcap rule: measure_induct_rule [where f = length])
  case (less conn)
  have shrinks: "length (drop k (drop 4 conn)) < length conn" if "length (take 4 conn) = 4" for k
    using that by simp
  then show ?case using less.prems
    by (subst read_fragments.simps, subst (asm) (2) read_fragments.simps)
      (auto simp: Let_def ReadFull_def fragment_size_check_dead_uint intro: less_trans [OF less.IH] 
        simp del: drop_drop take_drop length_drop length_take split: if_split_asm)
qed

lemma ReadResponseHeader_shrinks:
  assumes "ReadResponseHeader G grow r0 c = Inr (resp, None, c')"
  shows "length (cl_in c') < length (cl_in c)"
proof -
  obtain y rest where y: "ReadFullRecord grow (cl_in c) = (y, rest)" by fastforce
  with assms obtain rcd where "y = Inr rcd" and "cl_in c' = rest"
    by (cases y) (auto simp: ReadResponseHeader_def bindG_eq_Inr Let_def split: option.split_asm)
  with y read_fragments_shrinks [of grow "[]" maxRecordSize "cl_in c" rcd] show ?thesis by (simp add: ReadFullRecord_def)
qed

text \<open>
  The loop that reads responses, until the one of the pending call: its sequence number is the 0 of the
  first call of a client.  Responses to other calls are skipped.
\<close>

definition zero_response :: rpcResponse where
  "zero_response = \<lparr>RServiceMethod = '''', RSeq = 0, Error = ''''\<rparr>"

definition body_depth :: nat where
  "body_depth = 4"

function await :: "genv \<Rightarrow> (nat \<Rightarrow> nat \<Rightarrow> nat) \<Rightarrow> rvalue \<Rightarrow> 'w clientCodec \<Rightarrow> (rvalue \<times> callerr option) go" where
  "await G grow reply c =
     (case ReadResponseHeader G grow zero_response c of
        Inl crash \<Rightarrow> Inl crash
      | Inr (resp, Some e, c1) \<Rightarrow> Inr (reply, Some (HeaderErr e))
      | Inr (resp, None, c1) \<Rightarrow>
          if RSeq resp \<noteq> 0 then await G grow reply c1
          else bindG (ReadResponseBody G body_depth (Some reply) c1) (\<lambda>(res, err, c2).
            Inr (case res of Some v \<Rightarrow> v | None \<Rightarrow> reply, map_option BodyErr err)))"
  by pat_completeness auto
termination
  by (relation "measure (\<lambda>(G, grow, reply, c). length (cl_in c))") (auto dest: ReadResponseHeader_shrinks)

declare await.simps [simp del]

definition rpc_Call ::
  "genv \<Rightarrow> (nat \<Rightarrow> nat \<Rightarrow> nat) \<Rightarrow> 'n net \<Rightarrow> ProcEntry list \<Rightarrow> string \<Rightarrow> rvalue \<Rightarrow> rvalue \<Rightarrow> 'n \<Rightarrow> (rvalue \<times> callerr option \<times> 'n) go" where
  "rpc_Call G grow net table method args reply n =
     bindG (WriteRequest G (Conn_write net) \<lparr>ServiceMethod = method, Seq = 0\<rparr> (Some args) (NewClientCodec [] n table))
       (\<lambda>(err, cl). case err of
          Some e \<Rightarrow> Inr (reply, Some (SendErr e), cl_out cl)
        | None \<Rightarrow>
            (case Conn_read net (cl_out cl) of (bs, n1) \<Rightarrow>
               bindG (await G grow reply (cl\<lparr>cl_in := bs\<rparr>)) (\<lambda>(r, err). Inr (r, err, n1))))"

section \<open>The calls of the client\<close>

definition pmap_address :: string where
  "pmap_address = PMAP_ADDR @ '':'' @ Itoa PMAP_PORT"

text \<open>\<^verbatim>\<open>var result bool\<close>, and what it holds after the call.\<close>

definition result_ptr :: rvalue where
  "result_ptr = RPtr TBool (Some (RBool False))"

fun result_of :: "rvalue \<Rightarrow> bool" where
  "result_of (RPtr T (Some (RBool b))) = b"
| "result_of _ = False"

definition getNewPmapRpcClient :: "'n net \<Rightarrow> 'n \<Rightarrow> string option \<times> 'n" where
  "getNewPmapRpcClient net n =
     (case Dial net ''tcp'' pmap_address n of (connected, n1) \<Rightarrow>
        (if connected then None
         else Some (''could not connect to rpcbind service at '' @ PMAP_ADDR @ '': '' @ Itoa PMAP_PORT), n1))"

definition pmap_call :: "genv \<Rightarrow> (nat \<Rightarrow> nat \<Rightarrow> nat) \<Rightarrow> 'n net \<Rightarrow> string \<Rightarrow> Mapping \<Rightarrow> 'n \<Rightarrow> (bool \<times> callerr option \<times> 'n) go" where
  "pmap_call G grow net method m n =
     (case getNewPmapRpcClient net n of (err, n1) \<Rightarrow> (case err of
        Some e \<Rightarrow> Inr (False, Some (NotConnected e), n1)
      | None \<Rightarrow> bindG (rpc_Call G grow net procTableClient method (RPtr Mapping_type (Some (rv_mapping m))) result_ptr n1)
          (\<lambda>(r, err, n2). Inr (result_of r, err, n2))))"

definition PmapSet :: "genv \<Rightarrow> (nat \<Rightarrow> nat \<Rightarrow> nat) \<Rightarrow> 'n net \<Rightarrow> u32 \<Rightarrow> u32 \<Rightarrow> u32 \<Rightarrow> 'n \<Rightarrow> (bool \<times> callerr option \<times> 'n) go" where
  "PmapSet G grow net programNumber programVersion port =
     pmap_call G grow net ''PmapProc.PmapProc2_set''
       \<lparr>MapProgram = programNumber, MapVersion = programVersion, MapProtocol = IPPROTO_TCP, MapPort = port\<rparr>"

definition PmapUnset :: "genv \<Rightarrow> (nat \<Rightarrow> nat \<Rightarrow> nat) \<Rightarrow> 'n net \<Rightarrow> u32 \<Rightarrow> u32 \<Rightarrow> 'n \<Rightarrow> (bool \<times> callerr option \<times> 'n) go" where
  "PmapUnset G grow net programNumber programVersion =
     pmap_call G grow net ''PmapProc.PmapProc2_unset''
       \<lparr>MapProgram = programNumber, MapVersion = programVersion, MapProtocol = 0, MapPort = 0\<rparr>"

section \<open>What goes over the wire\<close>

lemma enc_to_mapping: "enc_to G 2 (rv_mapping m) (mapping_bytes m)"
proof -
  have "fields_to G 1 '''' [(xtag '''', rv_u32 (MapProgram m)), (xtag '''', rv_u32 (MapVersion m)),
      (xtag '''', rv_u32 (MapProtocol m)), (xtag '''', rv_u32 (MapPort m))]
     (be32 (MapProgram m) @ be32 (MapVersion m) @ be32 (MapProtocol m) @ be32 (MapPort m) @ [])"
    by (intro fields_to_plain fields_to_Nil enc_to_scalar' rv_not_ptr) simp_all
  from enc_to_struct [OF this] show ?thesis by (simp add: rv_mapping_def mapping_bytes_def numeral_2_eq_2)
qed

text \<open>The record of a call of procedure \<open>j\<close> of the port mapper.\<close>

definition pmap_request :: "nat \<Rightarrow> Mapping \<Rightarrow> bytes" where
  "pmap_request j m = fragment True (msg_bytes (call_msg 0 (procTableClient ! 0) j) @ mapping_bytes m)"

lemma length_mapping: "length (mapping_bytes m) = 16"
  by (simp add: mapping_bytes_def)

lemma length_pmap_request: "length (pmap_request j m) = 60"
  by (simp add: pmap_request_def fragment_def length_call length_mapping)

lemma WriteRequest_pmap:
  assumes "find_method method procTableClient 0 None = Some (0, j)"
  shows "WriteRequest G conn \<lparr>ServiceMethod = method, Seq = 0\<rparr> (Some (RPtr Mapping_type (Some (rv_mapping m))))
      (NewClientCodec [] n procTableClient) =
    (case conn (pmap_request j m) n of (k, err, n1) \<Rightarrow> Inr (map_option WriteErr err, NewClientCodec [] n1 procTableClient))"
proof -
  have v: "2 \<le> Suc (vdepth (rv_mapping m))" using vdepth_pos [of "rv_mapping m"] by simp
  define payload where "payload = msg_bytes (call_msg 0 (procTableClient ! 0) j) @ mapping_bytes m"
  have len: "length payload < 2 ^ 31" by (simp add: payload_def length_call length_mapping)
  have p: "Marshal G buffer_write (msg_bytes (call_msg 0 (procTableClient ! 0) j))
      (Some (RPtr TIface (Some (RIface (Some (RPtr Mapping_type (Some (rv_mapping m)))))))) = Inr (16, None, payload)"
    using Marshal_iface_enc_to [OF enc_to_mapping v, of G "msg_bytes (call_msg 0 (procTableClient ! 0) j)" Mapping_type]
    by (simp add: payload_def length_mapping rv_mapping_def)
  have r: "pmap_request j m = be32 (createFragmentHeader (of_nat (length payload)) True) @ payload"
    by (simp add: pmap_request_def payload_def fragment_def)
  show ?thesis
    unfolding r using assms
    by (auto simp: WriteRequest_def NewClientCodec_def Marshal_msg_ptr p one_fragment [OF len]
        split: prod.split option.split)
qed

text \<open>The port mapper's answer to a call, with the boolean result.\<close>

definition pmap_reply :: "bool \<Rightarrow> bytes" where
  "pmap_reply b = fragment True (msg_bytes (base_reply 0) @ be32 (if b then 1 else 0))"

lemma Unmarshal_bool:
  assumes "env_ok G"
  shows "Unmarshal G body_depth (be32 (if b then 1 else 0)) (Some (RPtr TIface (Some (RIface (Some result_ptr))))) =
     Inr (Some (RPtr TIface (Some (RIface (Some (RPtr TBool (Some (RBool b))))))), 4, None, [])"
proof -
  have "encode_kind G buffer_write (encode G buffer_write 0) (indirect (RBool b)) [] = Inr (4, None, be32 (if b then 1 else 0))"
    by (simp add: encode_kind_def Encode_buffer)
  from iface_rt [OF assms _ _ _ _ _ this, of TBool 0 1] have
    "\<forall>rest. UnmarshalLimited G 4 (be32 (if b then 1 else 0) @ rest)
       (Some (RPtr TIface (Some (RIface (Some (RPtr TBool (Some (newval G TBool)))))))) 0 =
      Inr (Some (RPtr TIface (Some (RIface (Some (RPtr TBool (Some (canon G (RBool b)))))))), 4, None, rest)"
    by (auto simp: resolve_def numeral_eq_Suc)
  from spec [OF this, of "[]"] show ?thesis
    by (simp add: Unmarshal_def UnmarshalLimited_def body_depth_def result_ptr_def newval_def resolve_def)
qed

lemma await_reply:
  assumes "env_ok G" and "cl_in c = pmap_reply b @ rest"
  shows "await G grow result_ptr c = Inr (RPtr TBool (Some (RBool b)), None)"
proof -
  let ?p = "msg_bytes (base_reply 0) @ be32 (if b then 1 else 0)"
  have len: "length ?p < 2 ^ 31" "length ?p \<le> maxRecordSize" by (simp_all add: length_reply maxRecordSize_def)
  have read: "ReadFullRecord grow (pmap_reply b @ rest) = (Inr ?p, rest)"
    using len by (simp add: pmap_reply_def ReadFullRecord_def read_fragment)
  have head: "decode_header G ?p = Inr (base_reply 0, None, be32 (if b then 1 else 0))"
    using decode_header_msg [OF assms(1) sent_base(3)] by (simp add: sent_base(1))
  have "Xid (base_reply 0) = 0" by (simp add: base_reply_def)
  then show ?thesis
    using read head sent_base(2) [of 0]
    by (subst await.simps)
      (simp add: assms(2) ReadResponseHeader_def ReadResponseBody_def Unmarshal_bool [OF assms(1)] zero_response_def)
qed

section \<open>A port mapper that keeps its contract\<close>

text \<open>
  What the port mapper promises (RFC 1833, version 2 of the protocol), over the table \<open>regs\<close> it keeps of the ports by
  program, version and protocol: SET enters a mapping unless there is one already, and says whether it did;
  UNSET removes the mappings of a program and version for every protocol.
\<close>

type_synonym registrations = "u32 \<times> u32 \<times> u32 \<Rightarrow> u32 option"

definition map_key :: "Mapping \<Rightarrow> u32 \<times> u32 \<times> u32" where
  "map_key m = (MapProgram m, MapVersion m, MapProtocol m)"

definition after_set :: "Mapping \<Rightarrow> registrations \<Rightarrow> registrations" where
  "after_set m T = (if T (map_key m) = None then T(map_key m \<mapsto> MapPort m) else T)"

definition after_unset :: "u32 \<Rightarrow> u32 \<Rightarrow> registrations \<Rightarrow> registrations" where
  "after_unset prog vers T = (\<lambda>(p, v, q). if p = prog \<and> v = vers then None else T (p, v, q))"

definition rpcbind :: "'n net \<Rightarrow> ('n \<Rightarrow> registrations) \<Rightarrow> bool" where
  "rpcbind net regs \<longleftrightarrow>
     (\<forall>n. fst (Dial net ''tcp'' pmap_address n) \<and> regs (snd (Dial net ''tcp'' pmap_address n)) = regs n) \<and>
     (\<forall>m n. \<exists>k n1 n2. Conn_write net (pmap_request (unat PMAPPROC_SET) m) n = (k, None, n1) \<and>
        Conn_read net n1 = (pmap_reply (regs n (map_key m) = None), n2) \<and> regs n2 = after_set m (regs n)) \<and>
     (\<forall>m n. \<exists>k n1 n2 b. Conn_write net (pmap_request (unat PMAPPROC_UNSET) m) n = (k, None, n1) \<and>
        Conn_read net n1 = (pmap_reply b, n2) \<and> regs n2 = after_unset (MapProgram m) (MapVersion m) (regs n))"

lemma pmap_call_run:
  assumes "env_ok G" and "find_method method procTableClient 0 None = Some (0, j)"
    and "Dial net ''tcp'' pmap_address n = (True, n0)" and "Conn_write net (pmap_request j m) n0 = (k, None, n1)"
    and "Conn_read net n1 = (pmap_reply b, n2)"
  shows "pmap_call G grow net method m n = Inr (b, None, n2)"
proof -
  let ?cl = "(NewClientCodec [] n1 procTableClient)\<lparr>cl_in := pmap_reply b\<rparr>"
  have "await G grow result_ptr ?cl = Inr (RPtr TBool (Some (RBool b)), None)"
    by (rule await_reply [OF assms(1)]) simp
  moreover have "cl_out (NewClientCodec [] n1 procTableClient) = n1" by (simp add: NewClientCodec_def)
  ultimately show ?thesis
    using assms(3-5)
    by (simp add: pmap_call_def getNewPmapRpcClient_def rpc_Call_def WriteRequest_pmap [OF assms(2)])
qed

lemma pmap_methods:
  "find_method ''PmapProc.PmapProc2_set'' procTableClient 0 None = Some (0, unat PMAPPROC_SET)"
  "find_method ''PmapProc.PmapProc2_unset'' procTableClient 0 None = Some (0, unat PMAPPROC_UNSET)"
  by (simp_all add: procTableClient_def PmapProcList_def PMAPPROC_SET_def PMAPPROC_UNSET_def)

lemma pmap_calls:
  assumes "env_ok G" and "rpcbind net regs"
  shows "(\<exists>n1. PmapSet G grow net prog vers port n = Inr (regs n (prog, vers, IPPROTO_TCP) = None, None, n1) \<and>
      regs n1 = (if regs n (prog, vers, IPPROTO_TCP) = None then (regs n)((prog, vers, IPPROTO_TCP) \<mapsto> port) else regs n)) \<and>
    (\<exists>b n2. PmapUnset G grow net prog vers n = Inr (b, None, n2) \<and> regs n2 = after_unset prog vers (regs n))"
proof -
  obtain n0 where n0: "Dial net ''tcp'' pmap_address n = (True, n0)" "regs n0 = regs n"
    using assms(2) by (cases "Dial net ''tcp'' pmap_address n") (auto simp: rpcbind_def dest!: spec [of _ n])
  define m where "m = \<lparr>MapProgram = prog, MapVersion = vers, MapProtocol = IPPROTO_TCP, MapPort = port\<rparr>"
  define m' where "m' = \<lparr>MapProgram = prog, MapVersion = vers, MapProtocol = 0, MapPort = 0\<rparr>"
  from assms(2) obtain k n1 n2 where set_m: "Conn_write net (pmap_request (unat PMAPPROC_SET) m) n0 = (k, None, n1)"
    "Conn_read net n1 = (pmap_reply (regs n0 (map_key m) = None), n2)" "regs n2 = after_set m (regs n0)"
    unfolding rpcbind_def by blast
  from assms(2) obtain k' n1' n2' b where unset_m: "Conn_write net (pmap_request (unat PMAPPROC_UNSET) m') n0 = (k', None, n1')"
    "Conn_read net n1' = (pmap_reply b, n2')" "regs n2' = after_unset (MapProgram m') (MapVersion m') (regs n0)"
    unfolding rpcbind_def by blast
  from pmap_call_run [OF assms(1) pmap_methods(1) n0(1) set_m(1,2), of grow]
    pmap_call_run [OF assms(1) pmap_methods(2) n0(1) unset_m(1,2), of grow] set_m(3) unset_m(3) n0(2)
  show ?thesis by (simp add: PmapSet_def PmapUnset_def m_def m'_def map_key_def after_set_def)
qed

text \<open>C28: \<^verbatim>\<open>PmapSet\<close> and \<^verbatim>\<open>PmapUnset\<close> against a port mapper that keeps its contract: the call comes back without an error, the
  answer of the port mapper is the result, and the mapping is entered (unless there was one) or removed.  So
  the request bytes, the procedure numbers and the decoding of the answer are what the protocol asks for.\<close>

theorem pmap_calls_correct:
  assumes "env_ok G" and "rpcbind net regs"
  shows "(\<exists>n1. PmapSet G grow net prog vers port n = Inr (regs n (prog, vers, IPPROTO_TCP) = None, None, n1) \<and>
      regs n1 = (if regs n (prog, vers, IPPROTO_TCP) = None then (regs n)((prog, vers, IPPROTO_TCP) \<mapsto> port) else regs n)) \<and>
    (\<exists>b n2. PmapUnset G grow net prog vers n = Inr (b, None, n2) \<and> regs n2 = after_unset prog vers (regs n))"
  using pmap_calls [OF assms] .

text \<open>A port mapper for the concrete runs: a list of mappings and the answer to the last request.\<close>

type_synonym pm_state = "((u32 \<times> u32 \<times> u32) \<times> u32) list \<times> bytes"

definition word_at :: "nat \<Rightarrow> bytes \<Rightarrow> u32" where
  "word_at k bs = of_be32 (take 4 (drop k bs))"

definition toy_pmap :: "bytes \<Rightarrow> pm_state \<Rightarrow> nat \<times> ioerror option \<times> pm_state" where
  "toy_pmap bs st =
     (let tab = fst st; prog = word_at 44 bs; vers = word_at 48 bs; key = (prog, vers, word_at 52 bs) in
      (length bs, None,
       if word_at 24 bs = PMAPPROC_SET then
         (if map_of tab key = None then (key, word_at 56 bs) # tab else tab, pmap_reply (map_of tab key = None))
       else (filter (\<lambda>((p, v, q), port). \<not> (p = prog \<and> v = vers)) tab, pmap_reply True)))"

definition toy_net :: "pm_state net" where
  "toy_net = \<lparr>Dial = (\<lambda>_ _ st. (True, st)), Conn_write = toy_pmap, Conn_read = (\<lambda>st. (snd st, (fst st, [])))\<rparr>"

definition toy_regs :: "pm_state \<Rightarrow> registrations" where
  "toy_regs st = map_of (fst st)"

lemma map_of_filter_keys: "map_of (filter (\<lambda>(k, x). P k) xs) k = (if P k then map_of xs k else None)"
  by (induction xs) auto

lemma word_at_request:
  "word_at 24 (pmap_request j m) = of_nat j" "word_at 44 (pmap_request j m) = MapProgram m"
  "word_at 48 (pmap_request j m) = MapVersion m" "word_at 52 (pmap_request j m) = MapProtocol m"
  "word_at 56 (pmap_request j m) = MapPort m"
  by (simp_all add: word_at_def pmap_request_def fragment_def msg_bytes_def call_msg_def call_bytes_def zero_call_def
      auth_bytes_zero mapping_bytes_def)

lemma toy_rpcbind: "rpcbind toy_net toy_regs"
proof -
  have "map_of (filter (\<lambda>((p, v, q), port). \<not> (p = prog \<and> v = vers)) tab) = after_unset prog vers (map_of tab)" for prog vers tab
    using map_of_filter_keys [of "\<lambda>(p, v, q). \<not> (p = prog \<and> v = vers)" tab]
    by (auto simp: after_unset_def fun_eq_iff split_def)
  then show ?thesis
    by (auto simp: rpcbind_def toy_net_def toy_regs_def toy_pmap_def Let_def word_at_request map_key_def after_set_def
        PMAPPROC_SET_def PMAPPROC_UNSET_def fun_eq_iff)
qed

theorem pmap_calls_correct_witness:
  "\<exists>n1. PmapSet sample_env grow_double toy_net 100003 3 2049 ([], []) = Inr (True, None, n1) \<and>
     toy_regs n1 (100003, 3, 6) = Some 2049"
  using pmap_calls_correct [OF sample_ok(1) toy_rpcbind, of grow_double 100003 3 2049 "([], [])"]
  by (auto simp: toy_regs_def IPPROTO_TCP_def)

end
