(* ===== verification/Gonfs_Main.thy ===== *)
theory Gonfs_Main
  imports Pmap_Client Nfs_System
begin

text \<open>
  \<^verbatim>\<open>main.go\<close>: the flags, the checks and registrations before the server listens, the table the server codec
  dispatches with (with the program and procedure numbers of \<^verbatim>\<open>nfs3/nfstypdef.go\<close>), and what happens with an
  accepted connection.  What the process asks the system for outside the backend (\<open>shell\<close>) is a parameter; the
  messages it prints before \<^verbatim>\<open>os.Exit(1)\<close> are the values of \<open>exit\<close>.
\<close>

section \<open>Program and procedure numbers\<close>

definition MOUNT_PROGRAM :: u32 where "MOUNT_PROGRAM = 100005"
definition MOUNT_V3 :: u32 where "MOUNT_V3 = 3"
definition MOUNT3_NULL :: u32 where "MOUNT3_NULL = 0"
definition MOUNT3_MNT :: u32 where "MOUNT3_MNT = 1"
definition MOUNT3_DUMP :: u32 where "MOUNT3_DUMP = 2"
definition MOUNT3_UMNT :: u32 where "MOUNT3_UMNT = 3"
definition MOUNT3_UMNTALL :: u32 where "MOUNT3_UMNTALL = 4"
definition MOUNT3_EXPORT :: u32 where "MOUNT3_EXPORT = 5"

definition NFS_PROGRAM :: u32 where "NFS_PROGRAM = 100003"
definition NFS_V3 :: u32 where "NFS_V3 = 3"
definition NFS3_NULL :: u32 where "NFS3_NULL = 0"
definition NFS3_GETATTR :: u32 where "NFS3_GETATTR = 1"
definition NFS3_SETATTR :: u32 where "NFS3_SETATTR = 2"
definition NFS3_LOOKUP :: u32 where "NFS3_LOOKUP = 3"
definition NFS3_ACCESS :: u32 where "NFS3_ACCESS = 4"
definition NFS3_READLINK :: u32 where "NFS3_READLINK = 5"
definition NFS3_READ :: u32 where "NFS3_READ = 6"
definition NFS3_WRITE :: u32 where "NFS3_WRITE = 7"
definition NFS3_CREATE :: u32 where "NFS3_CREATE = 8"
definition NFS3_MKDIR :: u32 where "NFS3_MKDIR = 9"
definition NFS3_SYMLINK :: u32 where "NFS3_SYMLINK = 10"
definition NFSPROC3_MKNOD :: u32 where "NFSPROC3_MKNOD = 11"
definition NFS3_REMOVE :: u32 where "NFS3_REMOVE = 12"
definition NFS3_RMDIR :: u32 where "NFS3_RMDIR = 13"
definition FS3_RENAME :: u32 where "FS3_RENAME = 14"
definition NFS3_LINK :: u32 where "NFS3_LINK = 15"
definition NFS3_READDIR :: u32 where "NFS3_READDIR = 16"
definition NFS3_READDIRPLUS :: u32 where "NFS3_READDIRPLUS = 17"
definition NFS3_FSSTAT :: u32 where "NFS3_FSSTAT = 18"
definition NFS3_FSINFO :: u32 where "NFS3_FSINFO = 19"
definition NFS3_PATHCONF :: u32 where "NFS3_PATHCONF = 20"
definition NFS3_COMMIT :: u32 where "NFS3_COMMIT = 21"

lemmas programs = MOUNT_PROGRAM_def MOUNT_V3_def NFS_PROGRAM_def NFS_V3_def

lemmas procedures = MOUNT3_NULL_def MOUNT3_MNT_def MOUNT3_DUMP_def MOUNT3_UMNT_def MOUNT3_UMNTALL_def MOUNT3_EXPORT_def
  NFS3_NULL_def NFS3_GETATTR_def NFS3_SETATTR_def NFS3_LOOKUP_def NFS3_ACCESS_def NFS3_READLINK_def NFS3_READ_def
  NFS3_WRITE_def NFS3_CREATE_def NFS3_MKDIR_def NFS3_SYMLINK_def NFSPROC3_MKNOD_def NFS3_REMOVE_def NFS3_RMDIR_def
  FS3_RENAME_def NFS3_LINK_def NFS3_READDIR_def NFS3_READDIRPLUS_def NFS3_FSSTAT_def NFS3_FSINFO_def NFS3_PATHCONF_def
  NFS3_COMMIT_def

text \<open>The program and the number of a request's procedure; those that do nothing have a name instead of arguments.\<close>

fun proc_number :: "nfs_request \<Rightarrow> (u32 \<times> u32) option" where
  "proc_number (QVoid m) =
     (if m = ''NfsProc.Mountproc_null_3_svc'' then Some (MOUNT_PROGRAM, MOUNT3_NULL)
      else if m = ''NfsProc.Mountproc_dump_3_svc'' then Some (MOUNT_PROGRAM, MOUNT3_DUMP)
      else if m = ''NfsProc.Mountproc_umntall_3_svc'' then Some (MOUNT_PROGRAM, MOUNT3_UMNTALL)
      else if m = ''NfsProc.Nfsproc3_null_3_svc'' then Some (NFS_PROGRAM, NFS3_NULL) else None)"
| "proc_number (QGetattr a) = Some (NFS_PROGRAM, NFS3_GETATTR)"
| "proc_number (QSetattr a) = Some (NFS_PROGRAM, NFS3_SETATTR)"
| "proc_number (QLookup a) = Some (NFS_PROGRAM, NFS3_LOOKUP)"
| "proc_number (QAccess a) = Some (NFS_PROGRAM, NFS3_ACCESS)"
| "proc_number (QReadlink a) = Some (NFS_PROGRAM, NFS3_READLINK)"
| "proc_number (QRead a) = Some (NFS_PROGRAM, NFS3_READ)"
| "proc_number (QWrite a) = Some (NFS_PROGRAM, NFS3_WRITE)"
| "proc_number (QCreate a) = Some (NFS_PROGRAM, NFS3_CREATE)"
| "proc_number (QMkdir a) = Some (NFS_PROGRAM, NFS3_MKDIR)"
| "proc_number (QSymlink a) = Some (NFS_PROGRAM, NFS3_SYMLINK)"
| "proc_number (QMknod a) = Some (NFS_PROGRAM, NFSPROC3_MKNOD)"
| "proc_number (QRemove a) = Some (NFS_PROGRAM, NFS3_REMOVE)"
| "proc_number (QRmdir a) = Some (NFS_PROGRAM, NFS3_RMDIR)"
| "proc_number (QRename a) = Some (NFS_PROGRAM, FS3_RENAME)"
| "proc_number (QLink a) = Some (NFS_PROGRAM, NFS3_LINK)"
| "proc_number (QReaddir a) = Some (NFS_PROGRAM, NFS3_READDIR)"
| "proc_number (QReaddirplus a) = Some (NFS_PROGRAM, NFS3_READDIRPLUS)"
| "proc_number (QFsstat a) = Some (NFS_PROGRAM, NFS3_FSSTAT)"
| "proc_number (QFsinfo a) = Some (NFS_PROGRAM, NFS3_FSINFO)"
| "proc_number (QPathconf a) = Some (NFS_PROGRAM, NFS3_PATHCONF)"
| "proc_number (QCommit a) = Some (NFS_PROGRAM, NFS3_COMMIT)"
| "proc_number (QMnt a) = Some (MOUNT_PROGRAM, MOUNT3_MNT)"
| "proc_number (QUmnt a) = Some (MOUNT_PROGRAM, MOUNT3_UMNT)"
| "proc_number QExport = Some (MOUNT_PROGRAM, MOUNT3_EXPORT)"

section \<open>The table of the server\<close>

definition procTableServer :: "ProcEntry list" where
  "procTableServer = [\<lparr>PProgram = NFS_PROGRAM, PVersion = NFS_V3, ProcList = Nfs3ProcList\<rparr>,
     \<lparr>PProgram = MOUNT_PROGRAM, PVersion = MOUNT_V3, ProcList = Mount3ProcList\<rparr>]"

lemma dispatch_server:
  assumes "RPCVersion c = RPCProtocolVersion" and "Flavor (Cred c) \<in> {AuthNone, AuthSys}" and "Version c = 3"
  shows "dispatch procTableServer c =
    (if Program c = NFS_PROGRAM then
       (if unat (Procedure c) < length Nfs3ProcList then (Nfs3ProcList ! unat (Procedure c), Some 0) else (''NfsProc.ProcUnavail'', Some 0))
     else if Program c = MOUNT_PROGRAM then
       (if unat (Procedure c) < length Mount3ProcList then (Mount3ProcList ! unat (Procedure c), Some 1) else (''NfsProc.ProcUnavail'', Some 1))
     else (''NfsProc.ProgUnavail'', None))"
proof -
  have "length Nfs3ProcList = 22" "length Mount3ProcList = 6" by (simp_all add: Nfs3ProcList_def Mount3ProcList_def)
  with assms show ?thesis by (auto simp: dispatch_def procTableServer_def programs)
qed

text \<open>C17: The server dispatches by the numbers of the protocol: a call of version 2 of RPC with credentials of flavour NONE or
  SYS, for version 3 of the NFS or the MOUNT program, reaches the method that serves the procedure with that number;
  a number beyond the last procedure is answered with ProcUnavail, another version of a served program with
  ProgMismatch and another program with ProgUnavail.\<close>

theorem procedures_dispatched:
  assumes "RPCVersion c = RPCProtocolVersion" and "Flavor (Cred c) \<in> {AuthNone, AuthSys}"
  shows "(Version c = 3 \<and> proc_number req = Some (Program c, Procedure c) \<longrightarrow> fst (dispatch procTableServer c) = method_name req) \<and>
    (Version c = 3 \<and> Program c = NFS_PROGRAM \<and> 22 \<le> Procedure c \<or> Version c = 3 \<and> Program c = MOUNT_PROGRAM \<and> 6 \<le> Procedure c \<longrightarrow>
      fst (dispatch procTableServer c) = ''NfsProc.ProcUnavail'') \<and>
    (Version c \<noteq> 3 \<and> Program c \<in> {NFS_PROGRAM, MOUNT_PROGRAM} \<longrightarrow> fst (dispatch procTableServer c) = ''NfsProc.ProgMismatch'') \<and>
    (Program c \<notin> {NFS_PROGRAM, MOUNT_PROGRAM} \<longrightarrow> fst (dispatch procTableServer c) = ''NfsProc.ProgUnavail'')"
proof (intro conjI impI)
  assume a: "Version c = 3 \<and> proc_number req = Some (Program c, Procedure c)"
  then have "Program c = fst (the (proc_number req))" "Procedure c = snd (the (proc_number req))" by simp_all
  with a dispatch_server [OF assms] show "fst (dispatch procTableServer c) = method_name req"
    by (cases req) (auto simp: programs procedures Nfs3ProcList_def Mount3ProcList_def split: if_split_asm)
next
  assume a: "Version c = 3 \<and> Program c = NFS_PROGRAM \<and> 22 \<le> Procedure c \<or> Version c = 3 \<and> Program c = MOUNT_PROGRAM \<and> 6 \<le> Procedure c"
  have "length Nfs3ProcList = 22" "length Mount3ProcList = 6" by (simp_all add: Nfs3ProcList_def Mount3ProcList_def)
  with a dispatch_server [OF assms] show "fst (dispatch procTableServer c) = ''NfsProc.ProcUnavail''"
    by (auto simp: programs word_le_nat_alt)
qed (use assms in \<open>auto simp: dispatch_def procTableServer_def programs\<close>)

theorem procedures_dispatched_witness:
  "fst (dispatch procTableServer (zero_call\<lparr>RPCVersion := 2, Program := 100003, Version := 3, Procedure := 16\<rparr>)) =
     ''NfsProc.Nfsproc3_readdir_3_svc'' \<and>
   fst (dispatch procTableServer (zero_call\<lparr>RPCVersion := 2, Program := 100005, Version := 3, Procedure := 6\<rparr>)) =
     ''NfsProc.ProcUnavail'' \<and>
   fst (dispatch procTableServer (zero_call\<lparr>RPCVersion := 2, Program := 100003, Version := 4, Procedure := 1\<rparr>)) =
     ''NfsProc.ProgMismatch''"
  using procedures_dispatched [of "zero_call\<lparr>RPCVersion := 2, Program := 100003, Version := 3, Procedure := 16\<rparr>"
      "QReaddir \<lparr>RdDir = [], RdCookie = 0, RdCookieverf = [], RdCount = 0\<rparr>"]
    procedures_dispatched [of "zero_call\<lparr>RPCVersion := 2, Program := 100005, Version := 3, Procedure := 6\<rparr>"]
    procedures_dispatched [of "zero_call\<lparr>RPCVersion := 2, Program := 100003, Version := 4, Procedure := 1\<rparr>"]
  by (simp add: RPCProtocolVersion_def zero_call_def zero_auth_def AuthNone_def programs procedures)

section \<open>Starting\<close>

text \<open>The flags with their defaults.\<close>

record flags =
  F_nfsport :: u64
  F_pmapregister :: bool
  F_listenAddr :: string
  F_allowAddr :: string
  F_writeaccess :: bool
  F_exportPath :: string
  F_logFile :: string

definition default_flags :: flags where
  "default_flags = \<lparr>F_nfsport = 40389, F_pmapregister = True, F_listenAddr = ''0.0.0.0'', F_allowAddr = ''127.0.0.1/24'',
     F_writeaccess = True, F_exportPath = '''', F_logFile = ''''\<rparr>"

text \<open>
  What \<^verbatim>\<open>main\<close> asks of the system: the working directory, a network from its text (\<^verbatim>\<open>net.ParseCIDR\<close>) and whether an
  address lies in it, opening the log file, listening, the time and whether the current user is known.
\<close>

record ('c, 'n, 'w) shell =
  Getwd :: "string option"
  ParseCIDR :: "string \<Rightarrow> 'c option"
  Contains :: "'c \<Rightarrow> string \<Rightarrow> bool"
  OpenLog :: "string \<Rightarrow> 'w \<Rightarrow> bool \<times> 'w"
  Listen :: "string \<Rightarrow> string \<Rightarrow> 'n \<Rightarrow> bool \<times> 'n"
  Now :: u64
  CurrentUser :: bool

datatype exit = NoExportPath | InsideExport | NoWorkingDir | BadAllowAddr | UnsetFailed callerr | SetFailed callerr
  | NoLogFile | ConfigFailed string | ListenFailed

text \<open>The registration: the two programs in turn, the old mapping removed and the new one entered.  The port mapper's
  answer is not looked at, only whether the call failed.\<close>

definition pmap_replace ::
  "genv \<Rightarrow> (nat \<Rightarrow> nat \<Rightarrow> nat) \<Rightarrow> 'n net \<Rightarrow> u32 \<Rightarrow> u32 \<Rightarrow> u32 \<Rightarrow> 'n \<Rightarrow> (exit option \<times> 'n) go" where
  "pmap_replace G grow net prog vers port n =
     bindG (PmapUnset G grow net prog vers n) (\<lambda>(_, err, n1). case err of
       Some e \<Rightarrow> Inr (Some (UnsetFailed e), n1)
     | None \<Rightarrow> bindG (PmapSet G grow net prog vers port n1) (\<lambda>(_, err, n2). Inr (map_option SetFailed err, n2)))"

definition pmap_register ::
  "genv \<Rightarrow> (nat \<Rightarrow> nat \<Rightarrow> nat) \<Rightarrow> 'n net \<Rightarrow> u64 \<Rightarrow> 'n \<Rightarrow> (exit option \<times> 'n) go" where
  "pmap_register G grow net nfsport n =
     bindG (pmap_replace G grow net MOUNT_PROGRAM MOUNT_V3 (ucast nfsport) n) (\<lambda>(err, n1). case err of
       Some e \<Rightarrow> Inr (Some e, n1)
     | None \<Rightarrow> pmap_replace G grow net NFS_PROGRAM NFS_V3 (ucast nfsport) n1)"

text \<open>
  \<^verbatim>\<open>main\<close> up to the loop: an exit, or the allowed network and the server as it starts.  When the current user is not
  known the error is printed and the nil user is dereferenced.
\<close>

definition startup ::
  "genv \<Rightarrow> (nat \<Rightarrow> nat \<Rightarrow> nat) \<Rightarrow> 'n net \<Rightarrow> 'w os \<Rightarrow> ('c, 'n, 'w) shell \<Rightarrow> flags \<Rightarrow> 'n \<Rightarrow> 'w \<Rightarrow> ((exit + 'c \<times> 'w srv) \<times> 'n) go" where
  "startup G grow net os sh fl n w =
     (if F_exportPath fl = '''' then Inr (Inl NoExportPath, n)
      else case Getwd sh of
        None \<Rightarrow> Inr (Inl NoWorkingDir, n)
      | Some currWorkingDir \<Rightarrow>
          if HasPrefix currWorkingDir (F_exportPath fl) then Inr (Inl InsideExport, n)
          else case ParseCIDR sh (F_allowAddr fl) of
            None \<Rightarrow> Inr (Inl BadAllowAddr, n)
          | Some allowedIpNetwork \<Rightarrow>
              bindG (if F_pmapregister fl then pmap_register G grow net (F_nfsport fl) n else Inr (None, n)) (\<lambda>(err, n1). case err of
                Some e \<Rightarrow> Inr (Inl e, n1)
              | None \<Rightarrow>
                  (case (if F_logFile fl \<noteq> '''' then OpenLog sh (F_logFile fl) w else (True, w)) of (opened, w1) \<Rightarrow>
                     if \<not> opened then Inr (Inl NoLogFile, n1)
                     else bindG (exec (BackendConfigSetup os (F_exportPath fl) (F_allowAddr fl) (F_writeaccess fl))
                         \<lparr>backend = newBackend (Now sh), world = w1\<rparr>) (\<lambda>(err, s). case err of
                       Some e \<Rightarrow> Inr (Inl (ConfigFailed e), n1)
                     | None \<Rightarrow>
                         (case Listen sh ''tcp'' (F_listenAddr fl @ '':'' @ Itoa (sint (F_nfsport fl))) n1 of (listening, n2) \<Rightarrow>
                            if \<not> listening then Inr (Inl ListenFailed, n2)
                            else if CurrentUser sh then Inr (Inr (allowedIpNetwork, s), n2)
                            else Inl Panic)))))"

text \<open>A connection that was accepted from \<open>ip\<close>: a codec over it, when the address is allowed; otherwise the
  connection is left alone, and open.\<close>

definition accepted_conn :: "('c, 'n, 'w) shell \<Rightarrow> 'c \<Rightarrow> string \<Rightarrow> bytes \<Rightarrow> 'o \<Rightarrow> 'o serverCodec option" where
  "accepted_conn sh allowedIpNetwork ip inp out =
     (if Contains sh allowedIpNetwork ip then Some (NewServerCodec inp out procTableServer) else None)"

lemma startup_Inr:
  assumes "startup G grow net os sh fl n w = Inr (Inr (cidr, s), n')"
  shows "F_exportPath fl \<noteq> '''' \<and> (\<exists>cwd. Getwd sh = Some cwd \<and> \<not> HasPrefix cwd (F_exportPath fl)) \<and>
    ParseCIDR sh (F_allowAddr fl) = Some cidr \<and>
    (\<exists>n1. (if F_pmapregister fl then pmap_register G grow net (F_nfsport fl) n else Inr (None, n)) = Inr (None, n1) \<and>
      Listen sh ''tcp'' (F_listenAddr fl @ '':'' @ Itoa (sint (F_nfsport fl))) n1 = (True, n')) \<and>
    (\<exists>w1. (w1 = w \<or> OpenLog sh (F_logFile fl) w = (True, w1)) \<and>
      started os (F_exportPath fl) (F_allowAddr fl) (F_writeaccess fl) (Now sh) w1 s)"
  using assms
  by (auto simp: startup_def started_def bindG_eq_Inr split: if_split_asm option.split_asm prod.split_asm)

text \<open>When \<^verbatim>\<open>main\<close> gets to its loop, the export path is not empty, the working directory does not begin with it, the
  allowed network is the one the flag names, and the server is as after \<^verbatim>\<open>BackendConfigSetup\<close>: the handle table is empty,
  the configuration has the flags' path, addresses and write access, and every run from there stays in the export.\<close>

lemma startup_sound:
  assumes "startup G grow net os sh fl n w = Inr (Inr (cidr, s), n')"
    and "\<forall>w1. OpenLog sh (F_logFile fl) w = (True, w1) \<longrightarrow> P w1" and "P w"
    and "reads_keep os (F_exportPath fl) P" and "F_writeaccess fl \<longrightarrow> updates_keep os (F_exportPath fl) P" and "env_keeps env P"
    and "(pool_step os (\<lambda>_. True) env)\<^sup>*\<^sup>* ({#}, s) (M, t)"
  shows "F_exportPath fl \<noteq> '''' \<and> (\<exists>cwd. Getwd sh = Some cwd \<and> \<not> HasPrefix cwd (F_exportPath fl)) \<and>
    ParseCIDR sh (F_allowAddr fl) = Some cidr \<and> fhandleMap (backend s) = Map.empty \<and>
    exportPath (config (backend s)) = F_exportPath fl \<and> writeaccess (config (backend s)) = F_writeaccess fl \<and>
    P (world t) \<and> config (backend t) = config (backend s) \<and>
    (\<forall>h p. fhandleMap (backend t) h = Some p \<longrightarrow> confined (F_exportPath fl) p)"
proof -
  from startup_Inr [OF assms(1)] obtain w1 where w1: "w1 = w \<or> OpenLog sh (F_logFile fl) w = (True, w1)"
    and st: "started os (F_exportPath fl) (F_allowAddr fl) (F_writeaccess fl) (Now sh) w1 s" by blast
  with assms(2,3) have P: "P w1" by auto
  from started_config [OF st assms(4) P] run_inv [OF st assms(4,5,6) P assms(7)] startup_Inr [OF assms(1)]
  show ?thesis by (auto simp: srv_inv_def)
qed

lemma pmap_replace_run:
  assumes "env_ok G" and "rpcbind net regs"
  shows "\<exists>m1. pmap_replace G grow net prog vers port m = Inr (None, m1) \<and>
    regs m1 = (after_unset prog vers (regs m))((prog, vers, IPPROTO_TCP) \<mapsto> port)"
proof -
  obtain b m1 where m1: "PmapUnset G grow net prog vers m = Inr (b, None, m1)" "regs m1 = after_unset prog vers (regs m)"
    using pmap_calls [OF assms, of grow prog vers _ m] by blast
  obtain m2 where "PmapSet G grow net prog vers port m1 = Inr (regs m1 (prog, vers, IPPROTO_TCP) = None, None, m2)"
    "regs m2 = (if regs m1 (prog, vers, IPPROTO_TCP) = None then (regs m1)((prog, vers, IPPROTO_TCP) \<mapsto> port) else regs m1)"
    using pmap_calls [OF assms, of grow prog vers port m1] by blast
  with m1 show ?thesis by (simp add: pmap_replace_def after_unset_def)
qed

lemma pmap_register_run:
  assumes "env_ok G" and "rpcbind net regs"
  shows "\<exists>n1. pmap_register G grow net port n = Inr (None, n1) \<and>
    regs n1 = (after_unset NFS_PROGRAM NFS_V3 ((after_unset MOUNT_PROGRAM MOUNT_V3 (regs n))((MOUNT_PROGRAM, MOUNT_V3, IPPROTO_TCP) \<mapsto> ucast port)))
      ((NFS_PROGRAM, NFS_V3, IPPROTO_TCP) \<mapsto> ucast port)"
proof -
  obtain m1 where m1: "pmap_replace G grow net MOUNT_PROGRAM MOUNT_V3 (ucast port) n = Inr (None, m1)"
    "regs m1 = (after_unset MOUNT_PROGRAM MOUNT_V3 (regs n))((MOUNT_PROGRAM, MOUNT_V3, IPPROTO_TCP) \<mapsto> ucast port)"
    using pmap_replace_run [OF assms] by blast
  with pmap_replace_run [OF assms, of grow NFS_PROGRAM NFS_V3 "ucast port" m1] show ?thesis
    by (auto simp: pmap_register_def)
qed

text \<open>C18: A server that got to its loop with \<^verbatim>\<open>-pmapregister\<close> is registered: against a port mapper that keeps its contract the
  table has the server's port for version 3 of both programs over TCP, whatever was registered before, and the other
  programs' mappings are as they were.  The order counts: a mapping that was there before would make SET fail, and
  nothing looks at its answer.\<close>

theorem startup_registers:
  assumes "env_ok G" and "rpcbind net regs" and "F_pmapregister fl"
    and "\<And>addr n n1 ok. Listen sh ''tcp'' addr n = (ok, n1) \<Longrightarrow> regs n1 = regs n"
    and "startup G grow net os sh fl n w = Inr (Inr (cidr, s), n')"
  shows "regs n' (NFS_PROGRAM, NFS_V3, IPPROTO_TCP) = Some (ucast (F_nfsport fl)) \<and>
    regs n' (MOUNT_PROGRAM, MOUNT_V3, IPPROTO_TCP) = Some (ucast (F_nfsport fl)) \<and>
    (\<forall>p v q. p \<notin> {NFS_PROGRAM, MOUNT_PROGRAM} \<longrightarrow> regs n' (p, v, q) = regs n (p, v, q))"
proof -
  from startup_Inr [OF assms(5)] assms(3) obtain n1 where n1: "pmap_register G grow net (F_nfsport fl) n = Inr (None, n1)"
    and l: "Listen sh ''tcp'' (F_listenAddr fl @ '':'' @ Itoa (sint (F_nfsport fl))) n1 = (True, n')" by auto
  with pmap_register_run [OF assms(1,2), of grow "F_nfsport fl" n] assms(4) [OF l] show ?thesis
    by (simp add: after_unset_def programs)
qed

text \<open>A start for the concrete runs.\<close>

definition toy_shell :: "(unit, pm_state, event list) shell" where
  "toy_shell = \<lparr>Getwd = Some ''/home'', ParseCIDR = (\<lambda>s. Some ()), Contains = (\<lambda>_ _. True), OpenLog = (\<lambda>_ w. (True, w)),
     Listen = (\<lambda>_ _ n. (True, n)), Now = 1, CurrentUser = True\<rparr>"

definition toy_flags :: flags where
  "toy_flags = default_flags\<lparr>F_exportPath := ''/d'', F_allowAddr := ''all''\<rparr>"

lemma toy_startup:
  "\<exists>n'. startup sample_env grow_double toy_net toy_os toy_shell toy_flags ([((100003, 3, 6), 2049)], []) [] =
     Inr (Inr ((), toy_started True), n')"
proof -
  obtain n1 where "pmap_register sample_env grow_double toy_net 40389 ([((100003, 3, 6), 2049)], []) = Inr (None, n1)"
    using pmap_register_run [OF sample_ok(1) toy_rpcbind] by blast
  moreover have "\<not> HasPrefix ''/home'' ''/d''" by (simp add: HasPrefix_def)
  ultimately show ?thesis
    using toy_starts [of True]
    by (intro exI [of _ n1]) (simp add: startup_def toy_shell_def toy_flags_def default_flags_def started_def)
qed

theorem startup_registers_witness:
  "\<exists>n'. startup sample_env grow_double toy_net toy_os toy_shell toy_flags ([((100003, 3, 6), 2049)], []) [] =
     Inr (Inr ((), toy_started True), n') \<and> toy_regs n' (100003, 3, 6) = Some 40389"
proof -
  obtain n' where n': "startup sample_env grow_double toy_net toy_os toy_shell toy_flags ([((100003, 3, 6), 2049)], []) [] =
     Inr (Inr ((), toy_started True), n')" using toy_startup by blast
  from startup_registers [OF sample_ok(1) toy_rpcbind _ _ n'] n' show ?thesis
    by (auto simp: toy_shell_def toy_flags_def default_flags_def programs IPPROTO_TCP_def)
qed

text \<open>The prefix check is one of strings: a working directory beside the export counts as inside it.\<close>

lemma prefix_refuses_sibling:
  "F_exportPath fl = ''/data'' \<Longrightarrow> Getwd sh = Some ''/data2/home'' \<Longrightarrow> startup G grow net os sh fl n w = Inr (Inl InsideExport, n)"
  by (simp add: startup_def HasPrefix_def)

end
