(* ===== verification/Nfs_Args.thy ===== *)
theory Nfs_Args
  imports Xdr_Sure Nfs_Wire Gonfs_Main
begin

text \<open>
  The arguments of the procedures on the wire: what \<^verbatim>\<open>reflect\<close> shows of the argument types of
  \<^verbatim>\<open>nfs3/nfstypdef.go\<close> (their descriptors with the struct tags, the conversions between the records and
  \<open>rvalue\<close>), and the table \<^verbatim>\<open>net/rpc\<close> builds of the methods of \<^verbatim>\<open>nfs3/nfsprocdef.go\<close>: the type of the argument
  of each method and the request it makes of a decoded value.
\<close>

section \<open>The struct tags\<close>

lemma arg_tags [simp]:
  "tag_Get ''unionnotcase=2'' ''union'' = ''''" "tag_Get ''unionnotcase=2'' ''optional'' = ''''"
  "tag_Get ''unionnotcase=2'' ''opaque'' = ''''" "skip_case ''unionnotcase=2'' d = (d = ''2'')"
  "tag_Get ''unioncase=3'' ''union'' = ''''" "tag_Get ''unioncase=3'' ''optional'' = ''''"
  "tag_Get ''unioncase=3'' ''opaque'' = ''''" "skip_case ''unioncase=3'' d = (d \<noteq> '''' \<and> d \<noteq> ''3'')"
  "tag_Get ''unioncase=4'' ''union'' = ''''" "tag_Get ''unioncase=4'' ''optional'' = ''''"
  "tag_Get ''unioncase=4'' ''opaque'' = ''''" "skip_case ''unioncase=4'' d = (d \<noteq> '''' \<and> d \<noteq> ''4'')"
  "tag_Get ''unioncase=6'' ''union'' = ''''" "tag_Get ''unioncase=6'' ''optional'' = ''''"
  "tag_Get ''unioncase=6'' ''opaque'' = ''''" "skip_case ''unioncase=6'' d = (d \<noteq> '''' \<and> d \<noteq> ''6'')"
  "tag_Get ''unioncase=7'' ''union'' = ''''" "tag_Get ''unioncase=7'' ''optional'' = ''''"
  "tag_Get ''unioncase=7'' ''opaque'' = ''''" "skip_case ''unioncase=7'' d = (d \<noteq> '''' \<and> d \<noteq> ''7'')"
  by (auto simp: skip_case_def tag_Get_eq)

lemma arg_case_tagged [simp]:
  "case_tagged ''unionnotcase=2''" "case_tagged ''unioncase=3''" "case_tagged ''unioncase=4''"
  "case_tagged ''unioncase=6''" "case_tagged ''unioncase=7''"
  by (simp_all add: case_tagged_def tag_Get_eq)

lemma Itoa_more [simp]: "Itoa 6 = ''6''" "Itoa 7 = ''7''"
  by code_simp+

lemma Itoa_eq [simp]:
  "Itoa i = ''0'' \<longleftrightarrow> i = 0" "Itoa i = ''1'' \<longleftrightarrow> i = 1" "Itoa i = ''2'' \<longleftrightarrow> i = 2"
  "Itoa i = ''3'' \<longleftrightarrow> i = 3" "Itoa i = ''4'' \<longleftrightarrow> i = 4" "Itoa i = ''6'' \<longleftrightarrow> i = 6"
  "Itoa i = ''7'' \<longleftrightarrow> i = 7"
  using Itoa_inj [of i 0] Itoa_inj [of i 1] Itoa_inj [of i 2] Itoa_inj [of i 3] Itoa_inj [of i 4] Itoa_inj [of i 6]
    Itoa_inj [of i 7] by simp_all

section \<open>The types\<close>

definition Nfs_fh3_type :: gotype where "Nfs_fh3_type = TStruct [(xtag '''', TBytes)]"

definition Nfstime3_type :: gotype where "Nfstime3_type = TStruct [(xtag '''', TU32), (xtag '''', TU32)]"

definition Specdata3_type :: gotype where "Specdata3_type = TStruct [(xtag '''', TU32), (xtag '''', TU32)]"

definition Diropargs3_type :: gotype where "Diropargs3_type = TStruct [(xtag '''', Nfs_fh3_type), (xtag '''', TString)]"

text \<open>\<^verbatim>\<open>Set_mode3\<close>, \<^verbatim>\<open>Set_uid3\<close> and \<^verbatim>\<open>Set_gid3\<close>; \<^verbatim>\<open>Set_atime\<close> and \<^verbatim>\<open>Set_mtime\<close>\<close>

definition Set_u32_type :: gotype where "Set_u32_type = TStruct [(xtag ''union'', TBool), (xtag ''unioncase=1'', TU32)]"

definition Set_size3_type :: gotype where "Set_size3_type = TStruct [(xtag ''union'', TBool), (xtag ''unioncase=1'', TU64)]"

definition Set_time_type :: gotype where
  "Set_time_type = TStruct [(xtag ''union'', TU32), (xtag ''unioncase=2'', Nfstime3_type)]"

definition Sattr3_type :: gotype where
  "Sattr3_type = TStruct [(xtag '''', Set_u32_type), (xtag '''', Set_u32_type), (xtag '''', Set_u32_type),
     (xtag '''', Set_size3_type), (xtag '''', Set_time_type), (xtag '''', Set_time_type)]"

definition Sattrguard3_type :: gotype where
  "Sattrguard3_type = TStruct [(xtag ''union'', TBool), (xtag ''unioncase=1'', Nfstime3_type)]"

abbreviation TVerf :: gotype where "TVerf \<equiv> TArray 8 (TUint Uint8)"

definition Createhow3_type :: gotype where
  "Createhow3_type = TStruct [(xtag ''union'', TI32), (xtag ''unioncase=2'', TVerf), (xtag ''unionnotcase=2'', Sattr3_type)]"

definition Symlinkdata3_type :: gotype where
  "Symlinkdata3_type = TStruct [(xtag '''', Sattr3_type), (xtag '''', TString)]"

definition Devicedata3_type :: gotype where
  "Devicedata3_type = TStruct [(xtag '''', Sattr3_type), (xtag '''', Specdata3_type)]"

definition Mknoddata3_type :: gotype where
  "Mknoddata3_type = TStruct [(xtag ''union'', TI32), (xtag ''unioncase=3'', Devicedata3_type),
     (xtag ''unioncase=4'', Devicedata3_type), (xtag ''unioncase=6'', Sattr3_type), (xtag ''unioncase=7'', Sattr3_type)]"

text \<open>The argument types; a structure with the one field of type \<open>Nfs_fh3\<close> or \<open>Diropargs3\<close> is \<open>FH3args_type\<close> or
  \<open>DIROP3args_type\<close>.\<close>

definition FH3args_type :: gotype where "FH3args_type = TStruct [(xtag '''', Nfs_fh3_type)]"

definition DIROP3args_type :: gotype where "DIROP3args_type = TStruct [(xtag '''', Diropargs3_type)]"

definition SETATTR3args_type :: gotype where
  "SETATTR3args_type = TStruct [(xtag '''', Nfs_fh3_type), (xtag '''', Sattr3_type), (xtag '''', Sattrguard3_type)]"

definition ACCESS3args_type :: gotype where
  "ACCESS3args_type = TStruct [(xtag '''', Nfs_fh3_type), (xtag '''', TU32)]"

definition READ3args_type :: gotype where
  "READ3args_type = TStruct [(xtag '''', Nfs_fh3_type), (xtag '''', TU64), (xtag '''', TU32)]"

definition COMMIT3args_type :: gotype where
  "COMMIT3args_type = TStruct [(xtag '''', Nfs_fh3_type), (xtag '''', TU64), (xtag '''', TU32)]"

definition WRITE3args_type :: gotype where
  "WRITE3args_type = TStruct [(xtag '''', Nfs_fh3_type), (xtag '''', TU64), (xtag '''', TU32), (xtag '''', TI32), (xtag '''', TBytes)]"

definition CREATE3args_type :: gotype where
  "CREATE3args_type = TStruct [(xtag '''', Diropargs3_type), (xtag '''', Createhow3_type)]"

definition MKDIR3args_type :: gotype where
  "MKDIR3args_type = TStruct [(xtag '''', Diropargs3_type), (xtag '''', Sattr3_type)]"

definition SYMLINK3args_type :: gotype where
  "SYMLINK3args_type = TStruct [(xtag '''', Diropargs3_type), (xtag '''', Symlinkdata3_type)]"

definition MKNOD3args_type :: gotype where
  "MKNOD3args_type = TStruct [(xtag '''', Diropargs3_type), (xtag '''', Mknoddata3_type)]"

definition RENAME3args_type :: gotype where
  "RENAME3args_type = TStruct [(xtag '''', Diropargs3_type), (xtag '''', Diropargs3_type)]"

definition LINK3args_type :: gotype where
  "LINK3args_type = TStruct [(xtag '''', Nfs_fh3_type), (xtag '''', Diropargs3_type)]"

definition READDIR3args_type :: gotype where
  "READDIR3args_type = TStruct [(xtag '''', Nfs_fh3_type), (xtag '''', TU64), (xtag '''', TVerf), (xtag '''', TU32)]"

definition READDIRPLUS3args_type :: gotype where
  "READDIRPLUS3args_type = TStruct [(xtag '''', Nfs_fh3_type), (xtag '''', TU64), (xtag '''', TVerf), (xtag '''', TU32), (xtag '''', TU32)]"

text \<open>\<^verbatim>\<open>Void\<close>, the argument of the methods that need none\<close>

definition Void_type :: gotype where "Void_type = TStruct []"

lemmas arg_types = Nfs_fh3_type_def Nfstime3_type_def Specdata3_type_def Diropargs3_type_def Set_u32_type_def
  Set_size3_type_def Set_time_type_def Sattr3_type_def Sattrguard3_type_def Createhow3_type_def Symlinkdata3_type_def
  Devicedata3_type_def Mknoddata3_type_def FH3args_type_def DIROP3args_type_def SETATTR3args_type_def ACCESS3args_type_def
  READ3args_type_def COMMIT3args_type_def WRITE3args_type_def CREATE3args_type_def MKDIR3args_type_def SYMLINK3args_type_def MKNOD3args_type_def
  RENAME3args_type_def LINK3args_type_def READDIR3args_type_def READDIRPLUS3args_type_def Void_type_def

section \<open>From records to values\<close>

definition rv_fh :: "Nfs_fh3 \<Rightarrow> rvalue" where "rv_fh h = RStruct [(xtag '''', rv_bytes h)]"

definition rv_dirop :: "Diropargs3 \<Rightarrow> rvalue" where
  "rv_dirop d = RStruct [(xtag '''', rv_fh (Dir d)), (xtag '''', RString (DName d))]"

definition rv_set_u32 :: "bool \<Rightarrow> u32 \<Rightarrow> rvalue" where
  "rv_set_u32 b x = RStruct [(xtag ''union'', RBool b), (xtag ''unioncase=1'', rv_u32 x)]"

definition rv_set_size :: "Set_size3 \<Rightarrow> rvalue" where
  "rv_set_size s = RStruct [(xtag ''union'', RBool (Size_set s)), (xtag ''unioncase=1'', rv_u64 (SSize s))]"

definition rv_set_time :: "Set_time \<Rightarrow> rvalue" where
  "rv_set_time s = RStruct [(xtag ''union'', rv_u32 (Time_set s)), (xtag ''unioncase=2'', rv_time (STime s))]"

definition rv_sattr :: "Sattr3 \<Rightarrow> rvalue" where
  "rv_sattr s = RStruct [(xtag '''', rv_set_u32 (Mode_set (SaMode s)) (SMode (SaMode s))),
     (xtag '''', rv_set_u32 (Id_set (SaUid s)) (SId (SaUid s))), (xtag '''', rv_set_u32 (Id_set (SaGid s)) (SId (SaGid s))),
     (xtag '''', rv_set_size (SaSize s)), (xtag '''', rv_set_time (SaAtime s)), (xtag '''', rv_set_time (SaMtime s))]"

definition rv_guard :: "Sattrguard3 \<Rightarrow> rvalue" where
  "rv_guard g = RStruct [(xtag ''union'', RBool (Check g)), (xtag ''unioncase=1'', rv_time (Obj_ctime g))]"

definition rv_verf :: "bytes \<Rightarrow> rvalue" where "rv_verf b = RArray (TUint Uint8) (map rbyte b)"

definition rv_createhow :: "Createhow3 \<Rightarrow> rvalue" where
  "rv_createhow h = RStruct [(xtag ''union'', rv_i32 (CMode h)), (xtag ''unioncase=2'', rv_verf (CVerf h)),
     (xtag ''unionnotcase=2'', rv_sattr (CObj_attributes h))]"

definition rv_symlinkdata :: "Symlinkdata3 \<Rightarrow> rvalue" where
  "rv_symlinkdata d = RStruct [(xtag '''', rv_sattr (SdAttributes d)), (xtag '''', RString (SdData d))]"

definition rv_devicedata :: "Devicedata3 \<Rightarrow> rvalue" where
  "rv_devicedata d = RStruct [(xtag '''', rv_sattr (Dev_attributes d)), (xtag '''', rv_specdata (DSpec d))]"

definition rv_mknoddata :: "Mknoddata3 \<Rightarrow> rvalue" where
  "rv_mknoddata d = RStruct [(xtag ''union'', rv_i32 (MnType d)), (xtag ''unioncase=3'', rv_devicedata (Device1 d)),
     (xtag ''unioncase=4'', rv_devicedata (Device2 d)), (xtag ''unioncase=6'', rv_sattr (Pipe_attributes1 d)),
     (xtag ''unioncase=7'', rv_sattr (Pipe_attributes2 d))]"

fun rv_args :: "nfs_request \<Rightarrow> rvalue" where
  "rv_args (QVoid m) = RStruct []"
| "rv_args (QGetattr h) = RStruct [(xtag '''', rv_fh h)]"
| "rv_args (QSetattr a) = RStruct [(xtag '''', rv_fh (SObject a)), (xtag '''', rv_sattr (New_attributes a)), (xtag '''', rv_guard (Guard a))]"
| "rv_args (QLookup d) = RStruct [(xtag '''', rv_dirop d)]"
| "rv_args (QAccess a) = RStruct [(xtag '''', rv_fh (AObject a)), (xtag '''', rv_u32 (AAccess a))]"
| "rv_args (QReadlink h) = RStruct [(xtag '''', rv_fh h)]"
| "rv_args (QRead a) = RStruct [(xtag '''', rv_fh (RFile a)), (xtag '''', rv_u64 (ROffset a)), (xtag '''', rv_u32 (RCount a))]"
| "rv_args (QWrite a) = RStruct [(xtag '''', rv_fh (WFile a)), (xtag '''', rv_u64 (WOffset a)), (xtag '''', rv_u32 (WCount a)),
     (xtag '''', rv_i32 (WStable a)), (xtag '''', rv_bytes (WData a))]"
| "rv_args (QCreate a) = RStruct [(xtag '''', rv_dirop (Where a)), (xtag '''', rv_createhow (How a))]"
| "rv_args (QMkdir a) = RStruct [(xtag '''', rv_dirop (MkWhere a)), (xtag '''', rv_sattr (MkAttributes a))]"
| "rv_args (QSymlink a) = RStruct [(xtag '''', rv_dirop (SlWhere a)), (xtag '''', rv_symlinkdata (SlSymlink a))]"
| "rv_args (QMknod a) = RStruct [(xtag '''', rv_dirop (MnWhere a)), (xtag '''', rv_mknoddata (MnWhat a))]"
| "rv_args (QRemove d) = RStruct [(xtag '''', rv_dirop d)]"
| "rv_args (QRmdir d) = RStruct [(xtag '''', rv_dirop d)]"
| "rv_args (QRename a) = RStruct [(xtag '''', rv_dirop (RnFrom a)), (xtag '''', rv_dirop (RnTo a))]"
| "rv_args (QLink a) = RStruct [(xtag '''', rv_fh (LnFile a)), (xtag '''', rv_dirop (LnLink a))]"
| "rv_args (QReaddir a) = RStruct [(xtag '''', rv_fh (RdDir a)), (xtag '''', rv_u64 (RdCookie a)), (xtag '''', rv_verf (RdCookieverf a)),
     (xtag '''', rv_u32 (RdCount a))]"
| "rv_args (QReaddirplus a) = RStruct [(xtag '''', rv_fh (RpDir a)), (xtag '''', rv_u64 (RpCookie a)), (xtag '''', rv_verf (RpCookieverf a)),
     (xtag '''', rv_u32 (RpDircount a)), (xtag '''', rv_u32 (RpMaxcount a))]"
| "rv_args (QFsstat h) = RStruct [(xtag '''', rv_fh h)]"
| "rv_args (QFsinfo h) = RStruct [(xtag '''', rv_fh h)]"
| "rv_args (QPathconf h) = RStruct [(xtag '''', rv_fh h)]"
| "rv_args (QCommit a) = RStruct [(xtag '''', rv_fh (CoFile a)), (xtag '''', rv_u64 (CoOffset a)), (xtag '''', rv_u32 (CoCount a))]"
| "rv_args (QMnt s) = RString s"
| "rv_args (QUmnt s) = RString s"
| "rv_args QExport = RStruct []"

lemmas rv_arg_defs = rv_fh_def rv_dirop_def rv_set_u32_def rv_set_size_def rv_set_time_def rv_sattr_def rv_guard_def rv_verf_def
  rv_createhow_def rv_symlinkdata_def rv_devicedata_def rv_mknoddata_def rv_time_def rv_specdata_def

section \<open>From values to records\<close>

definition un_fh :: "rvalue \<Rightarrow> Nfs_fh3" where "un_fh v = un_bytes (un_field 0 v)"

definition un_time :: "rvalue \<Rightarrow> Nfstime3" where
  "un_time v = \<lparr>Seconds = un_u32 (un_field 0 v), Nseconds = un_u32 (un_field 1 v)\<rparr>"

definition un_specdata :: "rvalue \<Rightarrow> Specdata3" where
  "un_specdata v = \<lparr>Specdata1 = un_u32 (un_field 0 v), Specdata2 = un_u32 (un_field 1 v)\<rparr>"

definition un_dirop :: "rvalue \<Rightarrow> Diropargs3" where
  "un_dirop v = \<lparr>Dir = un_fh (un_field 0 v), DName = un_string (un_field 1 v)\<rparr>"

definition un_set_id :: "rvalue \<Rightarrow> Set_id3" where
  "un_set_id v = \<lparr>Id_set = un_bool (un_field 0 v), SId = un_u32 (un_field 1 v)\<rparr>"

definition un_set_time :: "rvalue \<Rightarrow> Set_time" where
  "un_set_time v = \<lparr>Time_set = un_u32 (un_field 0 v), STime = un_time (un_field 1 v)\<rparr>"

definition un_sattr :: "rvalue \<Rightarrow> Sattr3" where
  "un_sattr v = \<lparr>SaMode = \<lparr>Mode_set = un_bool (un_field 0 (un_field 0 v)), SMode = un_u32 (un_field 1 (un_field 0 v))\<rparr>,
     SaUid = un_set_id (un_field 1 v), SaGid = un_set_id (un_field 2 v),
     SaSize = \<lparr>Size_set = un_bool (un_field 0 (un_field 3 v)), SSize = un_u64 (un_field 1 (un_field 3 v))\<rparr>,
     SaAtime = un_set_time (un_field 4 v), SaMtime = un_set_time (un_field 5 v)\<rparr>"

definition un_guard :: "rvalue \<Rightarrow> Sattrguard3" where
  "un_guard v = \<lparr>Check = un_bool (un_field 0 v), Obj_ctime = un_time (un_field 1 v)\<rparr>"

fun un_verf :: "rvalue \<Rightarrow> bytes" where
  "un_verf (RArray E xs) = map byte_of xs"
| "un_verf _ = []"

definition un_createhow :: "rvalue \<Rightarrow> Createhow3" where
  "un_createhow v = \<lparr>CMode = un_i32 (un_field 0 v), CVerf = un_verf (un_field 1 v), CObj_attributes = un_sattr (un_field 2 v)\<rparr>"

definition un_devicedata :: "rvalue \<Rightarrow> Devicedata3" where
  "un_devicedata v = \<lparr>Dev_attributes = un_sattr (un_field 0 v), DSpec = un_specdata (un_field 1 v)\<rparr>"

definition un_mknoddata :: "rvalue \<Rightarrow> Mknoddata3" where
  "un_mknoddata v = \<lparr>MnType = un_i32 (un_field 0 v), Device1 = un_devicedata (un_field 1 v), Device2 = un_devicedata (un_field 2 v),
     Pipe_attributes1 = un_sattr (un_field 3 v), Pipe_attributes2 = un_sattr (un_field 4 v)\<rparr>"

lemmas un_arg_defs = un_fh_def un_time_def un_specdata_def un_dirop_def un_set_id_def un_set_time_def un_sattr_def un_guard_def
  un_createhow_def un_devicedata_def un_mknoddata_def

text \<open>The methods that take arguments: the type that is decoded and the request the decoded value makes.\<close>

definition nfs_methods :: "(string \<times> gotype \<times> (rvalue \<Rightarrow> nfs_request)) list" where
  "nfs_methods =
     [(''NfsProc.Nfsproc3_getattr_3_svc'', FH3args_type, \<lambda>v. QGetattr (un_fh (un_field 0 v))),
      (''NfsProc.Nfsproc3_setattr_3_svc'', SETATTR3args_type, \<lambda>v. QSetattr \<lparr>SObject = un_fh (un_field 0 v),
         New_attributes = un_sattr (un_field 1 v), Guard = un_guard (un_field 2 v)\<rparr>),
      (''NfsProc.Nfsproc3_lookup_3_svc'', DIROP3args_type, \<lambda>v. QLookup (un_dirop (un_field 0 v))),
      (''NfsProc.Nfsproc3_access_3_svc'', ACCESS3args_type, \<lambda>v. QAccess \<lparr>AObject = un_fh (un_field 0 v), AAccess = un_u32 (un_field 1 v)\<rparr>),
      (''NfsProc.Nfsproc3_readlink_3_svc'', FH3args_type, \<lambda>v. QReadlink (un_fh (un_field 0 v))),
      (''NfsProc.Nfsproc3_read_3_svc'', READ3args_type, \<lambda>v. QRead \<lparr>RFile = un_fh (un_field 0 v), ROffset = un_u64 (un_field 1 v),
         RCount = un_u32 (un_field 2 v)\<rparr>),
      (''NfsProc.Nfsproc3_write_3_svc'', WRITE3args_type, \<lambda>v. QWrite \<lparr>WFile = un_fh (un_field 0 v), WOffset = un_u64 (un_field 1 v),
         WCount = un_u32 (un_field 2 v), WStable = un_i32 (un_field 3 v), WData = un_bytes (un_field 4 v)\<rparr>),
      (''NfsProc.Nfsproc3_create_3_svc'', CREATE3args_type, \<lambda>v. QCreate \<lparr>Where = un_dirop (un_field 0 v), How = un_createhow (un_field 1 v)\<rparr>),
      (''NfsProc.Nfsproc3_mkdir_3_svc'', MKDIR3args_type, \<lambda>v. QMkdir \<lparr>MkWhere = un_dirop (un_field 0 v), MkAttributes = un_sattr (un_field 1 v)\<rparr>),
      (''NfsProc.Nfsproc3_symlink_3_svc'', SYMLINK3args_type, \<lambda>v. QSymlink \<lparr>SlWhere = un_dirop (un_field 0 v),
         SlSymlink = \<lparr>SdAttributes = un_sattr (un_field 0 (un_field 1 v)), SdData = un_string (un_field 1 (un_field 1 v))\<rparr>\<rparr>),
      (''NfsProc.Nfsproc3_mknod_3_svc'', MKNOD3args_type, \<lambda>v. QMknod \<lparr>MnWhere = un_dirop (un_field 0 v), MnWhat = un_mknoddata (un_field 1 v)\<rparr>),
      (''NfsProc.Nfsproc3_remove_3_svc'', DIROP3args_type, \<lambda>v. QRemove (un_dirop (un_field 0 v))),
      (''NfsProc.Nfsproc3_rmdir_3_svc'', DIROP3args_type, \<lambda>v. QRmdir (un_dirop (un_field 0 v))),
      (''NfsProc.Nfsproc3_rename_3_svc'', RENAME3args_type, \<lambda>v. QRename \<lparr>RnFrom = un_dirop (un_field 0 v), RnTo = un_dirop (un_field 1 v)\<rparr>),
      (''NfsProc.Nfsproc3_link_3_svc'', LINK3args_type, \<lambda>v. QLink \<lparr>LnFile = un_fh (un_field 0 v), LnLink = un_dirop (un_field 1 v)\<rparr>),
      (''NfsProc.Nfsproc3_readdir_3_svc'', READDIR3args_type, \<lambda>v. QReaddir \<lparr>RdDir = un_fh (un_field 0 v), RdCookie = un_u64 (un_field 1 v),
         RdCookieverf = un_verf (un_field 2 v), RdCount = un_u32 (un_field 3 v)\<rparr>),
      (''NfsProc.Nfsproc3_readdirplus_3_svc'', READDIRPLUS3args_type, \<lambda>v. QReaddirplus \<lparr>RpDir = un_fh (un_field 0 v), RpCookie = un_u64 (un_field 1 v),
         RpCookieverf = un_verf (un_field 2 v), RpDircount = un_u32 (un_field 3 v), RpMaxcount = un_u32 (un_field 4 v)\<rparr>),
      (''NfsProc.Nfsproc3_fsstat_3_svc'', FH3args_type, \<lambda>v. QFsstat (un_fh (un_field 0 v))),
      (''NfsProc.Nfsproc3_fsinfo_3_svc'', FH3args_type, \<lambda>v. QFsinfo (un_fh (un_field 0 v))),
      (''NfsProc.Nfsproc3_pathconf_3_svc'', FH3args_type, \<lambda>v. QPathconf (un_fh (un_field 0 v))),
      (''NfsProc.Nfsproc3_commit_3_svc'', COMMIT3args_type, \<lambda>v. QCommit \<lparr>CoFile = un_fh (un_field 0 v), CoOffset = un_u64 (un_field 1 v),
         CoCount = un_u32 (un_field 2 v)\<rparr>),
      (''NfsProc.Mountproc_mnt_3_svc'', TString, \<lambda>v. QMnt (un_string v)),
      (''NfsProc.Mountproc_umnt_3_svc'', TString, \<lambda>v. QUmnt (un_string v)),
      (''NfsProc.Mountproc_export_3_svc'', Void_type, \<lambda>v. QExport)]"

definition method_entry :: "string \<Rightarrow> gotype \<times> (rvalue \<Rightarrow> nfs_request)" where
  "method_entry m = (case map_of nfs_methods m of Some e \<Rightarrow> e | None \<Rightarrow> (Void_type, \<lambda>v. QVoid m))"

section \<open>Requests a client can send\<close>

text \<open>
  Values XDR carries unchanged: a union arm that is not selected is zero, verifiers have eight bytes, and strings and
  opaque data have a length the decoder takes.
\<close>

definition len31 :: "'a list \<Rightarrow> bool" where
  "len31 xs \<longleftrightarrow> length xs \<le> 2147483644"

definition zero_set_time :: Set_time where "zero_set_time = \<lparr>Time_set = 0, STime = zero_time\<rparr>"

definition zero_sattr :: Sattr3 where
  "zero_sattr = \<lparr>SaMode = \<lparr>Mode_set = False, SMode = 0\<rparr>, SaUid = \<lparr>Id_set = False, SId = 0\<rparr>,
     SaGid = \<lparr>Id_set = False, SId = 0\<rparr>, SaSize = \<lparr>Size_set = False, SSize = 0\<rparr>,
     SaAtime = zero_set_time, SaMtime = zero_set_time\<rparr>"

definition zero_devicedata :: Devicedata3 where
  "zero_devicedata = \<lparr>Dev_attributes = zero_sattr, DSpec = \<lparr>Specdata1 = 0, Specdata2 = 0\<rparr>\<rparr>"

definition dirop_ok :: "Diropargs3 \<Rightarrow> bool" where
  "dirop_ok d \<longleftrightarrow> len31 (Dir d) \<and> len31 (DName d)"

definition set_time_ok :: "Set_time \<Rightarrow> bool" where
  "set_time_ok t \<longleftrightarrow> Time_set t = SET_TO_CLIENT_TIME \<or> STime t = zero_time"

definition sattr_ok :: "Sattr3 \<Rightarrow> bool" where
  "sattr_ok s \<longleftrightarrow> (Mode_set (SaMode s) \<or> SMode (SaMode s) = 0) \<and> (Id_set (SaUid s) \<or> SId (SaUid s) = 0) \<and>
     (Id_set (SaGid s) \<or> SId (SaGid s) = 0) \<and> (Size_set (SaSize s) \<or> SSize (SaSize s) = 0) \<and>
     set_time_ok (SaAtime s) \<and> set_time_ok (SaMtime s)"

definition guard_ok :: "Sattrguard3 \<Rightarrow> bool" where
  "guard_ok g \<longleftrightarrow> Check g \<or> Obj_ctime g = zero_time"

definition createhow_ok :: "Createhow3 \<Rightarrow> bool" where
  "createhow_ok h \<longleftrightarrow>
     (if CMode h = EXCLUSIVE then length (CVerf h) = 8 \<and> CObj_attributes h = zero_sattr
      else CVerf h = replicate 8 0 \<and> sattr_ok (CObj_attributes h))"

definition mknoddata_ok :: "Mknoddata3 \<Rightarrow> bool" where
  "mknoddata_ok d \<longleftrightarrow>
     (if MnType d = NF3BLK then sattr_ok (Dev_attributes (Device1 d)) else Device1 d = zero_devicedata) \<and>
     (if MnType d = NF3CHR then sattr_ok (Dev_attributes (Device2 d)) else Device2 d = zero_devicedata) \<and>
     (if MnType d = NF3SOCK then sattr_ok (Pipe_attributes1 d) else Pipe_attributes1 d = zero_sattr) \<and>
     (if MnType d = NF3FIFO then sattr_ok (Pipe_attributes2 d) else Pipe_attributes2 d = zero_sattr)"

fun request_ok :: "nfs_request \<Rightarrow> bool" where
  "request_ok (QVoid m) = (map_of nfs_methods m = None)"
| "request_ok (QGetattr h) = len31 h"
| "request_ok (QSetattr a) = (len31 (SObject a) \<and> sattr_ok (New_attributes a) \<and> guard_ok (Guard a))"
| "request_ok (QLookup d) = dirop_ok d"
| "request_ok (QAccess a) = len31 (AObject a)"
| "request_ok (QReadlink h) = len31 h"
| "request_ok (QRead a) = len31 (RFile a)"
| "request_ok (QWrite a) = (len31 (WFile a) \<and> len31 (WData a))"
| "request_ok (QCreate a) = (dirop_ok (Where a) \<and> createhow_ok (How a))"
| "request_ok (QMkdir a) = (dirop_ok (MkWhere a) \<and> sattr_ok (MkAttributes a))"
| "request_ok (QSymlink a) = (dirop_ok (SlWhere a) \<and> sattr_ok (SdAttributes (SlSymlink a)) \<and> len31 (SdData (SlSymlink a)))"
| "request_ok (QMknod a) = (dirop_ok (MnWhere a) \<and> mknoddata_ok (MnWhat a))"
| "request_ok (QRemove d) = dirop_ok d"
| "request_ok (QRmdir d) = dirop_ok d"
| "request_ok (QRename a) = (dirop_ok (RnFrom a) \<and> dirop_ok (RnTo a))"
| "request_ok (QLink a) = (len31 (LnFile a) \<and> dirop_ok (LnLink a))"
| "request_ok (QReaddir a) = (len31 (RdDir a) \<and> length (RdCookieverf a) = 8)"
| "request_ok (QReaddirplus a) = (len31 (RpDir a) \<and> length (RpCookieverf a) = 8)"
| "request_ok (QFsstat h) = len31 h"
| "request_ok (QFsinfo h) = len31 h"
| "request_ok (QPathconf h) = len31 h"
| "request_ok (QCommit a) = len31 (CoFile a)"
| "request_ok (QMnt s) = len31 s"
| "request_ok (QUmnt s) = len31 s"
| "request_ok QExport = True"

section \<open>Their values\<close>

lemma un_rv_args [simp]:
  "un_fh (rv_fh h) = h" "un_time (rv_time t) = t" "un_specdata (rv_specdata sd) = sd" "un_dirop (rv_dirop d) = d"
  "un_set_time (rv_set_time st) = st" "un_sattr (rv_sattr s) = s" "un_guard (rv_guard g) = g" "un_verf (rv_verf b) = b"
  "un_createhow (rv_createhow hw) = hw" "un_devicedata (rv_devicedata dd) = dd" "un_mknoddata (rv_mknoddata mk) = mk"
proof -
  show f: "un_fh (rv_fh h) = h" for h by (simp add: un_fh_def rv_fh_def)
  show t: "un_time (rv_time t) = t" for t by (simp add: un_time_def rv_time_def)
  show sp: "un_specdata (rv_specdata sd) = sd" for sd by (simp add: un_specdata_def rv_specdata_def)
  show "un_dirop (rv_dirop d) = d" by (simp add: un_dirop_def rv_dirop_def f)
  show st: "un_set_time (rv_set_time st) = st" for st by (simp add: un_set_time_def rv_set_time_def t)
  show sa: "un_sattr (rv_sattr s) = s" for s
    by (simp add: un_sattr_def rv_sattr_def un_set_id_def rv_set_u32_def rv_set_size_def st)
  show "un_guard (rv_guard g) = g" by (simp add: un_guard_def rv_guard_def t)
  show v: "un_verf (rv_verf b) = b" for b by (simp add: rv_verf_def)
  show "un_createhow (rv_createhow hw) = hw" by (simp add: un_createhow_def rv_createhow_def v sa)
  show dd: "un_devicedata (rv_devicedata dd) = dd" for dd by (simp add: un_devicedata_def rv_devicedata_def sa sp)
  show "un_mknoddata (rv_mknoddata mk) = mk" by (simp add: un_mknoddata_def rv_mknoddata_def dd sa)
qed

lemma rv_arg_types [simp]:
  "type_of (rv_u32 x) = TU32" "type_of (rv_u64 y) = TU64" "type_of (rv_i32 z) = TI32" "type_of (rv_bytes b) = TBytes"
  "type_of (rv_time t) = Nfstime3_type" "type_of (rv_specdata sd) = Specdata3_type" "type_of (rv_sattr s) = Sattr3_type"
  "type_of (rv_devicedata dd) = Devicedata3_type" "type_of (rv_verf v) = TArray (length v) (TUint Uint8)"
  by (simp_all add: rv_u32_def rv_u64_def rv_i32_def rv_bytes_def rv_arg_defs arg_types)

lemma rv_arg_zeros [simp]:
  "zero Nfstime3_type = rv_time zero_time" "zero Specdata3_type = rv_specdata \<lparr>Specdata1 = 0, Specdata2 = 0\<rparr>"
  "zero Sattr3_type = rv_sattr zero_sattr" "zero Devicedata3_type = rv_devicedata zero_devicedata"
  "RUint Uint32 0 = rv_u32 0" "RUint Uint64 0 = rv_u64 0" "RArray (TUint Uint8) (replicate n (RUint Uint8 0)) = rv_verf (replicate n 0)"
  by (simp_all add: arg_types rv_arg_defs zero_sattr_def zero_time_def zero_set_time_def zero_devicedata_def rv_u32_def rv_u64_def rbyte_def)

lemma canon_args [simp]:
  "canon G (rv_fh h) = rv_fh h" "canon G (rv_time t) = rv_time t" "canon G (rv_specdata sd) = rv_specdata sd"
  "canon G (rv_dirop d) = rv_dirop d" "canon G (rv_verf v) = rv_verf v"
  "b \<or> x = 0 \<Longrightarrow> canon G (rv_set_u32 b x) = rv_set_u32 b x"
  "Size_set s \<or> SSize s = 0 \<Longrightarrow> canon G (rv_set_size s) = rv_set_size s"
  "set_time_ok st \<Longrightarrow> canon G (rv_set_time st) = rv_set_time st"
  "guard_ok g \<Longrightarrow> canon G (rv_guard g) = rv_guard g"
  by (auto simp: rv_fh_def rv_time_def rv_specdata_def rv_dirop_def rv_verf_def rv_set_u32_def rv_set_size_def rv_set_time_def
      rv_guard_def canon_step set_time_ok_def guard_ok_def SET_TO_CLIENT_TIME_def rbyte_def zero_time_def)

lemma indirect_args [simp]:
  "indirect (rv_fh h) = rv_fh h" "indirect (rv_time t) = rv_time t" "indirect (rv_specdata sd) = rv_specdata sd"
  "indirect (rv_dirop d) = rv_dirop d" "indirect (rv_verf v) = rv_verf v" "indirect (rv_set_u32 b x) = rv_set_u32 b x"
  "indirect (rv_set_size ss) = rv_set_size ss" "indirect (rv_set_time st) = rv_set_time st" "indirect (rv_guard g) = rv_guard g"
  "indirect (rv_sattr s) = rv_sattr s" "indirect (rv_createhow hw) = rv_createhow hw" "indirect (rv_symlinkdata sy) = rv_symlinkdata sy"
  "indirect (rv_devicedata dd) = rv_devicedata dd" "indirect (rv_mknoddata mk) = rv_mknoddata mk"
  by (simp_all add: rv_arg_defs)

lemma canon_sattr [simp]: "sattr_ok s \<Longrightarrow> canon G (rv_sattr s) = rv_sattr s"
  by (simp add: rv_sattr_def canon_step sattr_ok_def)

lemma zero_sattr_ok [simp]: "sattr_ok zero_sattr"
  by (simp add: sattr_ok_def zero_sattr_def zero_set_time_def set_time_ok_def)

lemma zero_devicedata_ok [simp]: "sattr_ok (Dev_attributes zero_devicedata)"
  by (simp add: zero_devicedata_def)

lemma sint_eq_num [simp]:
  "sint (x :: 32 word) = 2 \<longleftrightarrow> x = 2" "sint x = 3 \<longleftrightarrow> x = 3" "sint x = 4 \<longleftrightarrow> x = 4"
  "sint x = 6 \<longleftrightarrow> x = 6" "sint x = 7 \<longleftrightarrow> x = 7"
proof -
  have "sint x = sint y \<longleftrightarrow> x = y" for y :: "32 word" by (metis word_eq_iff_signed)
  from this [of 2] this [of 3] this [of 4] this [of 6] this [of 7]
  show "sint x = 2 \<longleftrightarrow> x = 2" "sint x = 3 \<longleftrightarrow> x = 3" "sint x = 4 \<longleftrightarrow> x = 4" "sint x = 6 \<longleftrightarrow> x = 6" "sint x = 7 \<longleftrightarrow> x = 7"
    by simp_all
qed

lemma canon_args_more [simp]:
  "sattr_ok (SdAttributes sy) \<Longrightarrow> canon G (rv_symlinkdata sy) = rv_symlinkdata sy"
  "sattr_ok (Dev_attributes dd) \<Longrightarrow> canon G (rv_devicedata dd) = rv_devicedata dd"
  "createhow_ok hw \<Longrightarrow> canon G (rv_createhow hw) = rv_createhow hw"
  by (auto simp: rv_symlinkdata_def rv_devicedata_def rv_createhow_def canon_step createhow_ok_def EXCLUSIVE_def)

lemma canon_mknod [simp]: "mknoddata_ok mk \<Longrightarrow> canon G (rv_mknoddata mk) = rv_mknoddata mk"
  by (auto simp: rv_mknoddata_def canon_step mknoddata_ok_def nfs_ftypes)

lemma canon_rv_args: "request_ok r \<Longrightarrow> canon G (rv_args r) = rv_args r"
  by (cases r) (simp_all add: canon_step)

lemma method_entry_args:
  "request_ok r \<Longrightarrow> snd (method_entry (method_name r)) (rv_args r) = r"
  by (cases r) (simp_all add: method_entry_def nfs_methods_def rv_symlinkdata_def)

section \<open>What the codec needs of them\<close>

lemma sendable_args [simp]:
  "sendable G 0 (rv_fh h) = len31 h" "sendable G 0 (rv_time t)" "sendable G 0 (rv_specdata sd)"
  "dirop_ok d \<Longrightarrow> sendable G 0 (rv_dirop d)" "length v = 8 \<Longrightarrow> sendable G 0 (rv_verf v)" "sendable G 0 (rv_set_u32 b x)"
  "sendable G 0 (rv_set_size ss)" "sendable G 0 (rv_set_time st)" "sendable G 0 (rv_guard g)"
  by (auto simp: rv_arg_defs field_ok_def len31_def len_ok_def dirop_ok_def rbyte_def Let_def)

lemma sendable_args_more [simp]:
  "sendable G 0 (rv_sattr s)" "len31 (SdData sy) \<Longrightarrow> sendable G 0 (rv_symlinkdata sy)" "sendable G 0 (rv_devicedata dd)"
  by (simp_all add: rv_sattr_def rv_symlinkdata_def rv_devicedata_def field_ok_def len31_def len_ok_def Let_def)

lemma arg_not_ptr [simp]:
  "\<not> is_ptr (rv_verf v)" "\<not> is_ptr (rv_sattr s)" "\<not> is_ptr (rv_devicedata dd)"
  by (simp_all add: rv_arg_defs)

lemma sendable_createhow [simp]: "createhow_ok hw \<Longrightarrow> sendable G 0 (rv_createhow hw)"
  by (simp add: rv_createhow_def field_ok_def createhow_ok_def Let_def split: if_splits)

lemma sendable_mknod [simp]: "sendable G 0 (rv_mknoddata mk)"
  by (simp add: rv_mknoddata_def field_ok_def Let_def)

lemma sendable_rv_args: "request_ok r \<Longrightarrow> sendable G 0 (rv_args r)"
  by (cases r) (simp_all add: field_ok_def Let_def dirop_ok_def len31_def len_ok_def)

lemma typed_args [simp]:
  "has_type G Nfs_fh3_type (rv_fh h)" "has_type G Nfstime3_type (rv_time t)" "has_type G Specdata3_type (rv_specdata sd)"
  "has_type G Diropargs3_type (rv_dirop d)" "length v = 8 \<Longrightarrow> has_type G TVerf (rv_verf v)"
  "has_type G Set_u32_type (rv_set_u32 b x)" "has_type G Set_size3_type (rv_set_size ss)"
  "has_type G Set_time_type (rv_set_time st)" "has_type G Sattrguard3_type (rv_guard g)"
proof -
  show f: "has_type G Nfs_fh3_type (rv_fh h)" for h by (simp add: rv_fh_def Nfs_fh3_type_def)
  show t: "has_type G Nfstime3_type (rv_time t)" for t by (simp add: rv_time_def Nfstime3_type_def)
  show "has_type G Specdata3_type (rv_specdata sd)" by (simp add: rv_specdata_def Specdata3_type_def)
  show "has_type G Diropargs3_type (rv_dirop d)" using f by (simp add: rv_dirop_def Diropargs3_type_def)
  show "has_type G TVerf (rv_verf v)" if "length v = 8" using that bytes_typed [of v G] by (simp add: rv_verf_def)
  show "has_type G Set_u32_type (rv_set_u32 b x)" by (simp add: rv_set_u32_def Set_u32_type_def)
  show "has_type G Set_size3_type (rv_set_size ss)" by (simp add: rv_set_size_def Set_size3_type_def)
  show "has_type G Set_time_type (rv_set_time st)" using t by (simp add: rv_set_time_def Set_time_type_def)
  show "has_type G Sattrguard3_type (rv_guard g)" using t by (simp add: rv_guard_def Sattrguard3_type_def)
qed

lemma typed_args_more [simp]:
  "has_type G Sattr3_type (rv_sattr s)" "has_type G Symlinkdata3_type (rv_symlinkdata sy)"
  "has_type G Devicedata3_type (rv_devicedata dd)" "has_type G Mknoddata3_type (rv_mknoddata mk)"
  "createhow_ok hw \<Longrightarrow> has_type G Createhow3_type (rv_createhow hw)"
proof -
  show s: "has_type G Sattr3_type (rv_sattr s)" for s by (simp add: rv_sattr_def Sattr3_type_def)
  show "has_type G Symlinkdata3_type (rv_symlinkdata sy)" using s by (simp add: rv_symlinkdata_def Symlinkdata3_type_def)
  show d: "has_type G Devicedata3_type (rv_devicedata dd)" for dd using s by (simp add: rv_devicedata_def Devicedata3_type_def)
  show "has_type G Mknoddata3_type (rv_mknoddata mk)" using s d by (simp add: rv_mknoddata_def Mknoddata3_type_def)
  show "has_type G Createhow3_type (rv_createhow hw)" if "createhow_ok hw"
    using that s by (simp add: rv_createhow_def Createhow3_type_def createhow_ok_def split: if_splits)
qed

lemma method_types:
  "wf_ty True (fst (method_entry m))" "plain (fst (method_entry m))" "tdepth (fst (method_entry m)) \<le> 7"
  "resolve G (fst (method_entry m)) = fst (method_entry m)"
proof -
  have all: "\<forall>e \<in> set nfs_methods. wf_ty True (fst (snd e)) \<and> plain (fst (snd e)) \<and> tdepth (fst (snd e)) \<le> 7 \<and>
      resolve G (fst (snd e)) = fst (snd e)"
    by (simp add: nfs_methods_def arg_types maxl_def resolve_def)
  have void: "wf_ty True Void_type" "plain Void_type" "tdepth Void_type \<le> 7" "resolve G Void_type = Void_type"
    by (simp_all add: Void_type_def resolve_def maxl_def)
  show "wf_ty True (fst (method_entry m))" "plain (fst (method_entry m))" "tdepth (fst (method_entry m)) \<le> 7"
    "resolve G (fst (method_entry m)) = fst (method_entry m)"
    using bspec [OF all, of "(m, the (map_of nfs_methods m))"] void
    by (cases "map_of nfs_methods m"; simp add: method_entry_def map_of_SomeD)+
qed

lemma typed_rv_args: "request_ok r \<Longrightarrow> has_type G (fst (method_entry (method_name r))) (rv_args r)"
  by (cases r) (simp_all add: method_entry_def nfs_methods_def FH3args_type_def DIROP3args_type_def SETATTR3args_type_def
      ACCESS3args_type_def READ3args_type_def WRITE3args_type_def COMMIT3args_type_def CREATE3args_type_def
      MKDIR3args_type_def SYMLINK3args_type_def MKNOD3args_type_def RENAME3args_type_def LINK3args_type_def
      READDIR3args_type_def READDIRPLUS3args_type_def Void_type_def)

lemma vdepth_rv_args: "request_ok r \<Longrightarrow> vdepth (rv_args r) \<le> 7"
  using typed_depth [OF typed_rv_args method_types(2), of r] method_types(3) [of "method_name r"] by (rule order_trans)

lemma encodable_prims [simp]:
  "encodable G (rv_u32 x)" "encodable G (rv_u64 y)" "encodable G (rv_i32 z)" "encodable G (rv_bytes b)"
  "encodable G (rv_verf v)"
  by (auto simp: rv_u32_def rv_u64_def rv_i32_def rv_bytes_def rv_verf_def rbyte_def)

lemma encodable_args [simp]:
  "encodable G (rv_fh h)" "encodable G (rv_time t)" "encodable G (rv_specdata sd)" "encodable G (rv_dirop d)"
  "encodable G (rv_set_u32 bo x)" "encodable G (rv_set_size ss)" "encodable G (rv_set_time st)" "encodable G (rv_guard g)"
  by (simp_all add: rv_fh_def rv_time_def rv_specdata_def rv_dirop_def rv_set_u32_def rv_set_size_def rv_set_time_def rv_guard_def
      seq_field_none indirect_id Let_def)

lemma encodable_args_more [simp]:
  "encodable G (rv_sattr s)" "encodable G (rv_symlinkdata sy)" "encodable G (rv_devicedata dd)" "encodable G (rv_mknoddata mk)"
  "encodable G (rv_createhow hw)"
proof -
  show s: "encodable G (rv_sattr s)" for s by (simp add: rv_sattr_def seq_field_none indirect_id Let_def)
  then show d: "encodable G (rv_devicedata dd)" for dd by (simp add: rv_devicedata_def seq_field_none indirect_id Let_def)
  show "encodable G (rv_symlinkdata sy)" "encodable G (rv_createhow hw)" using s
    by (simp_all add: rv_symlinkdata_def rv_createhow_def seq_field_none indirect_id Let_def)
  show "encodable G (rv_mknoddata mk)" using s d by (simp add: rv_mknoddata_def seq_field_none indirect_id Let_def)
qed

lemma encodable_rv_args: "encodable G (rv_args r)"
  by (cases r) (simp_all add: seq_field_none indirect_id Let_def)

end
