(* ===== verification/Nfs_Replies.thy ===== *)
theory Nfs_Replies
  imports Nfs_Args
begin

text \<open>
  The replies on the wire: what \<^verbatim>\<open>reflect\<close> shows of the result types of \<^verbatim>\<open>nfs3/nfstypdef.go\<close>, with their struct
  tags, and which replies of the server the encoder can write: all but the result of MOUNT DUMP, which is a pointer to
  a nil pointer.
\<close>

section \<open>What reflection shows of the results\<close>

text \<open>A result: the status, the structure for \<^verbatim>\<open>NFS3_OK\<close> and the one for the other statuses.\<close>

definition rv_res :: "('ok \<Rightarrow> rvalue) \<Rightarrow> ('fail \<Rightarrow> rvalue) \<Rightarrow> ('ok, 'fail) res3 \<Rightarrow> rvalue" where
  "rv_res ok fail r = RStruct [(xtag ''union'', rv_u32 (Status r)), (xtag ''unioncase=0'', ok (Resok r)),
     (xtag ''unionnotcase=0'', fail (Resfail r))]"

text \<open>A structure with one field.\<close>

definition rv_wrap :: "rvalue \<Rightarrow> rvalue" where "rv_wrap v = RStruct [(xtag '''', v)]"

definition rv_wcc_attr :: "Wcc_attr \<Rightarrow> rvalue" where
  "rv_wcc_attr a = RStruct [(xtag '''', rv_u64 (WSize a)), (xtag '''', rv_time (WMtime a)), (xtag '''', rv_time (WCtime a))]"

definition rv_pre :: "Pre_op_attr \<Rightarrow> rvalue" where
  "rv_pre p = RStruct [(xtag ''union'', RBool (PreAttributes_follow p)), (xtag ''unioncase=1'', rv_wcc_attr (PreAttributes p))]"

definition rv_wcc :: "Wcc_data \<Rightarrow> rvalue" where
  "rv_wcc d = RStruct [(xtag '''', rv_pre (WBefore d)), (xtag '''', rv_post (WAfter d))]"

definition rv_post_fh :: "Post_op_fh3 \<Rightarrow> rvalue" where
  "rv_post_fh p = RStruct [(xtag ''union'', RBool (Handle_follows p)), (xtag ''unioncase=1'', rv_fh (Handle p))]"

text \<open>\<^verbatim>\<open>GETATTR3res\<close> has no structure for failures.\<close>

definition rv_getattr :: "GETATTR3res \<Rightarrow> rvalue" where
  "rv_getattr r = RStruct [(xtag ''union'', rv_u32 (Status r)), (xtag ''unioncase=0'', rv_wrap (rv_fattr (Resok r)))]"

definition rv_wcc_res :: "(Wcc_data, Wcc_data) res3 \<Rightarrow> rvalue" where
  "rv_wcc_res = rv_res (\<lambda>w. rv_wrap (rv_wcc w)) (\<lambda>w. rv_wrap (rv_wcc w))"

definition rv_lookup :: "LOOKUP3res \<Rightarrow> rvalue" where
  "rv_lookup = rv_res
     (\<lambda>r. RStruct [(xtag '''', rv_fh (LkObject r)), (xtag '''', rv_post (LkObj_attributes r)), (xtag '''', rv_post (LkDir_attributes r))])
     (\<lambda>p. rv_wrap (rv_post p))"

definition rv_access :: "ACCESS3res \<Rightarrow> rvalue" where
  "rv_access = rv_res (\<lambda>r. RStruct [(xtag '''', rv_post (AcObj_attributes r)), (xtag '''', rv_u32 (Access3 r))]) (\<lambda>p. rv_wrap (rv_post p))"

definition rv_readlink :: "READLINK3res \<Rightarrow> rvalue" where
  "rv_readlink = rv_res (\<lambda>r. RStruct [(xtag '''', rv_post (RlSymlink_attributes r)), (xtag '''', RString (RlData r))]) (\<lambda>p. rv_wrap (rv_post p))"

definition rv_read :: "READ3res \<Rightarrow> rvalue" where
  "rv_read = rv_res
     (\<lambda>r. RStruct [(xtag '''', rv_post (RdFile_attributes r)), (xtag '''', rv_u32 (RdrCount r)), (xtag '''', RBool (RdEof r)),
        (xtag '''', rv_bytes (RdData r))])
     (\<lambda>p. rv_wrap (rv_post p))"

definition rv_write :: "WRITE3res \<Rightarrow> rvalue" where
  "rv_write = rv_res
     (\<lambda>r. RStruct [(xtag '''', rv_wcc (WrFile_wcc r)), (xtag '''', rv_u32 (WrCount r)), (xtag '''', rv_i32 (Committed r)),
        (xtag '''', rv_verf (WrVerf r))])
     (\<lambda>w. rv_wrap (rv_wcc w))"

text \<open>\<^verbatim>\<open>CREATE3res\<close>, \<^verbatim>\<open>MKDIR3res\<close>, \<^verbatim>\<open>SYMLINK3res\<close> and \<^verbatim>\<open>MKNOD3res\<close>\<close>

definition rv_create :: "CREATE3res \<Rightarrow> rvalue" where
  "rv_create = rv_res
     (\<lambda>r. RStruct [(xtag '''', rv_post_fh (CrObj r)), (xtag '''', rv_post (CrObj_attributes r)), (xtag '''', rv_wcc (CrDir_wcc r))])
     (\<lambda>w. rv_wrap (rv_wcc w))"

definition rv_rename :: "RENAME3res \<Rightarrow> rvalue" where
  "rv_rename = (let arm = (\<lambda>r. RStruct [(xtag '''', rv_wcc (Fromdir_wcc r)), (xtag '''', rv_wcc (Todir_wcc r))]) in rv_res arm arm)"

definition rv_link :: "LINK3res \<Rightarrow> rvalue" where
  "rv_link = (let arm = (\<lambda>r. RStruct [(xtag '''', rv_post (LnFile_attributes r)), (xtag '''', rv_wcc (Linkdir_wcc r))]) in rv_res arm arm)"

text \<open>The pointers of \<^verbatim>\<open>Entryplus3\<close> and \<^verbatim>\<open>Dirlistplus3\<close> have no \<^verbatim>\<open>optional\<close> tag.\<close>

fun rv_entriesplus :: "Entryplus3 list \<Rightarrow> rvalue" where
  "rv_entriesplus [] = RPtr (TNamed ''Entryplus3'') None"
| "rv_entriesplus (e # es) = RPtr (TNamed ''Entryplus3'') (Some (RStruct [(xtag '''', rv_u64 (PFileid e)), (xtag '''', RString (PName e)),
     (xtag '''', rv_u64 (PCookie e)), (xtag '''', rv_post (Name_attributes e)), (xtag '''', rv_post_fh (Name_handle e)),
     (xtag '''', rv_entriesplus es)]))"

definition rv_readdirplus :: "READDIRPLUS3res \<Rightarrow> rvalue" where
  "rv_readdirplus = rv_res
     (\<lambda>r. RStruct [(xtag '''', rv_post (RpDir_attributes r)), (xtag '''', rv_verf (RprCookieverf r)),
        (xtag '''', RStruct [(xtag '''', rv_entriesplus (PEntries (RpReply r))), (xtag '''', RBool (PEof (RpReply r)))])])
     (\<lambda>p. rv_wrap (rv_post p))"

definition rv_fsinfo :: "FSINFO3res \<Rightarrow> rvalue" where
  "rv_fsinfo = rv_res
     (\<lambda>r. RStruct [(xtag '''', rv_post (FiObj_attributes r)), (xtag '''', rv_u32 (Rtmax r)), (xtag '''', rv_u32 (Rtpref r)),
        (xtag '''', rv_u32 (Rtmult r)), (xtag '''', rv_u32 (Wtmax r)), (xtag '''', rv_u32 (Wtpref r)), (xtag '''', rv_u32 (Wtmult r)),
        (xtag '''', rv_u32 (Dtpref r)), (xtag '''', rv_u64 (Maxfilesize r)), (xtag '''', rv_time (Time_delta r)),
        (xtag '''', rv_u32 (Properties r))])
     (\<lambda>p. rv_wrap (rv_post p))"

definition rv_fsstat :: "FSSTAT3res \<Rightarrow> rvalue" where
  "rv_fsstat = rv_res
     (\<lambda>r. RStruct [(xtag '''', rv_post (FsObj_attributes r)), (xtag '''', rv_u64 (Tbytes r)), (xtag '''', rv_u64 (Fbytes r)),
        (xtag '''', rv_u64 (Abytes r)), (xtag '''', rv_u64 (Tfiles r)), (xtag '''', rv_u64 (Ffiles r)), (xtag '''', rv_u64 (Afiles r)),
        (xtag '''', rv_u32 (Invarsec r))])
     (\<lambda>p. rv_wrap (rv_post p))"

definition rv_pathconf :: "PATHCONF3res \<Rightarrow> rvalue" where
  "rv_pathconf = rv_res
     (\<lambda>r. RStruct [(xtag '''', rv_post (PcObj_attributes r)), (xtag '''', rv_u32 (Linkmax r)), (xtag '''', rv_u32 (Name_max r)),
        (xtag '''', RBool (No_trunc r)), (xtag '''', RBool (Chown_restricted r)), (xtag '''', RBool (Case_insensitive r)),
        (xtag '''', RBool (Case_preserving r))])
     (\<lambda>p. rv_wrap (rv_post p))"

definition rv_commit :: "COMMIT3res \<Rightarrow> rvalue" where
  "rv_commit = rv_res (\<lambda>r. RStruct [(xtag '''', rv_wcc (CmFile_wcc r)), (xtag '''', rv_verf (CmVerf r))]) (\<lambda>w. rv_wrap (rv_wcc w))"

definition rv_mount :: "Mountres3 \<Rightarrow> rvalue" where
  "rv_mount r = RStruct [(xtag ''union'', rv_i32 (Fhs_status r)),
     (xtag ''unioncase=0'', RStruct [(xtag '''', rv_bytes (Fhandle (Mountinfo r))),
        (xtag '''', RSlice TI32 (map rv_i32 (Auth_flavors (Mountinfo r))) [])])]"

text \<open>The chains of \<^verbatim>\<open>Groupnode\<close> and \<^verbatim>\<open>Exportnode\<close>, by optional pointers.\<close>

fun rv_groups :: "string list \<Rightarrow> rvalue" where
  "rv_groups [] = RPtr (TNamed ''Groupnode'') None"
| "rv_groups (g # gs) = RPtr (TNamed ''Groupnode'') (Some (RStruct [(xtag '''', RString g), (xtag ''optional'', rv_groups gs)]))"

fun rv_exports :: "Exports \<Rightarrow> rvalue" where
  "rv_exports [] = RPtr (TNamed ''Exportnode'') None"
| "rv_exports (e # es) = RPtr (TNamed ''Exportnode'') (Some (RStruct [(xtag '''', RString (Ex_dir e)),
     (xtag ''optional'', rv_groups (Ex_groups e)), (xtag ''optional'', rv_exports es)]))"

fun rv_nfs_reply :: "nfs_reply \<Rightarrow> rvalue" where
  "rv_nfs_reply PVoid = RStruct []"
| "rv_nfs_reply (PGetattr r) = rv_getattr r"
| "rv_nfs_reply (PWcc r) = rv_wcc_res r"
| "rv_nfs_reply (PLookup r) = rv_lookup r"
| "rv_nfs_reply (PAccess r) = rv_access r"
| "rv_nfs_reply (PReadlink r) = rv_readlink r"
| "rv_nfs_reply (PRead r) = rv_read r"
| "rv_nfs_reply (PWrite r) = rv_write r"
| "rv_nfs_reply (PCreate r) = rv_create r"
| "rv_nfs_reply (PRename r) = rv_rename r"
| "rv_nfs_reply (PLink r) = rv_link r"
| "rv_nfs_reply (PReaddir r) = rv_readdir r"
| "rv_nfs_reply (PReaddirplus r) = rv_readdirplus r"
| "rv_nfs_reply (PFsstat r) = rv_fsstat r"
| "rv_nfs_reply (PFsinfo r) = rv_fsinfo r"
| "rv_nfs_reply (PPathconf r) = rv_pathconf r"
| "rv_nfs_reply (PCommit r) = rv_commit r"
| "rv_nfs_reply (PMnt r) = rv_mount r"
| "rv_nfs_reply (PExport e) = RStruct [(xtag ''optional'', rv_exports e)]"

text \<open>
  What the RPC package hands to the codec: the pointer to the reply it allocated.  The reply of
  \<^verbatim>\<open>Mountproc_dump_3_svc\<close> is a \<^verbatim>\<open>Mountlist\<close>, itself a pointer, which the method leaves nil.
\<close>

definition dump_method :: string where "dump_method = ''NfsProc.Mountproc_dump_3_svc''"

definition rv_result :: "string \<Rightarrow> nfs_reply \<Rightarrow> rvalue" where
  "rv_result meth reply =
     (if meth = dump_method then RPtr (TPtr (TNamed ''Mountbody'')) (Some (RPtr (TNamed ''Mountbody'') None))
      else RPtr (type_of (rv_nfs_reply reply)) (Some (rv_nfs_reply reply)))"

section \<open>Which of them the encoder can write\<close>

lemma encodable_attrs [simp]:
  "encodable G (rv_fattr a)" "encodable G (rv_post p)" "encodable G (rv_wcc_attr wa)" "encodable G (rv_pre pr)"
  "encodable G (rv_wcc w)" "encodable G (rv_post_fh pf)" "encodable G (rv_wrap v) = encodable G v"
proof -
  show f: "encodable G (rv_fattr a)" for a by (simp add: rv_fattr_def seq_field_none indirect_id Let_def)
  then show p: "encodable G (rv_post p)" for p by (simp add: rv_post_def seq_field_none indirect_id Let_def)
  show "encodable G (rv_wcc_attr wa)" for wa by (simp add: rv_wcc_attr_def seq_field_none indirect_id Let_def)
  then show "encodable G (rv_pre pr)" for pr by (simp add: rv_pre_def seq_field_none indirect_id Let_def)
  with p show "encodable G (rv_wcc w)" by (simp add: rv_wcc_def seq_field_none indirect_id Let_def)
  show "encodable G (rv_post_fh pf)" by (simp add: rv_post_fh_def seq_field_none indirect_id Let_def)
  show "encodable G (rv_wrap v) = encodable G v" by (simp add: rv_wrap_def seq_field_none Let_def)
qed

lemma encodable_res:
  assumes "Status r = 0 \<Longrightarrow> encodable G (ok (Resok r))" and "Status r \<noteq> 0 \<Longrightarrow> encodable G (fail (Resfail r))"
  shows "encodable G (rv_res ok fail r)"
  using assms by (simp add: rv_res_def seq_field_none indirect_id Let_def uint_0_iff)

text \<open>A chain of optional pointers.\<close>

definition chained :: "genv \<Rightarrow> rvalue \<Rightarrow> bool" where
  "chained G v \<longleftrightarrow> (case v of RPtr T p \<Rightarrow> p = None \<or> encodable G v | _ \<Rightarrow> False)"

lemma encodable_optional:
  "chained G v \<Longrightarrow> encodable_fields G (encodable G) disc ((xtag ''optional'', v) # fs) = encodable_fields G (encodable G) disc fs"
  by (cases v) (auto simp: chained_def Let_def seq_field_none tag_Get_eq skip_case_def split: option.splits)

lemma encodable_plain:
  "encodable_fields G c disc ((xtag '''', v) # fs) \<longleftrightarrow> c v \<and> encodable_fields G c disc fs"
  by (simp add: Let_def seq_field_none)

lemma chained_lists [simp]: "chained G (rv_entries es)" "chained G (rv_groups gs)" "chained G (rv_exports ex)"
proof -
  have some: "chained G (RPtr T (Some u)) = encodable G u" and none: "chained G (RPtr T None)" for T u
    by (simp_all add: chained_def)
  note chain = some none encodable_optional encodable_plain
  show "chained G (rv_entries es)"
    by (induction es) (simp_all add: chain del: encodable_fields.simps(2))
  show g: "chained G (rv_groups gs)" for gs
    by (induction gs) (simp_all add: chain del: encodable_fields.simps(2))
  show "chained G (rv_exports ex)"
    using g by (induction ex) (simp_all add: chain del: encodable_fields.simps(2))
qed

text \<open>The server answers READDIRPLUS with \<^verbatim>\<open>NFS3ERR_NOTSUPP\<close>; a success would not end its chain of entries.\<close>

fun reply_ok :: "nfs_reply \<Rightarrow> bool" where
  "reply_ok (PReaddirplus r) = (Status r \<noteq> NFS3_OK)"
| "reply_ok _ = True"

lemma encodable_reply: "reply_ok reply \<Longrightarrow> encodable G (rv_nfs_reply reply)"
proof (cases reply)
  case (PReaddir r)
  have "encodable G (rv_dirlist l)" for l
    by (simp add: rv_dirlist_def encodable_optional encodable_plain del: encodable_fields.simps(2))
  then have "encodable G (rv_readdirok ro)" for ro
    using encodable_prims(5) [of G "RdrCookieverf ro"]
    by (simp add: rv_readdirok_def rv_verf_def encodable_plain del: encodable_fields.simps(2))
  then show ?thesis
    by (simp add: PReaddir rv_readdir_def rv_readdirfail_def encodable_plain seq_field_none indirect_id Let_def)
next
  case (PExport e)
  then show ?thesis by (simp add: encodable_optional del: encodable_fields.simps(2))
next
  case (PMnt r)
  have "encodable G (RSlice TI32 (map rv_i32 fl) [])" for fl by simp
  then show ?thesis by (simp add: PMnt rv_mount_def encodable_plain seq_field_none indirect_id Let_def)
qed (auto simp: rv_wcc_res_def rv_lookup_def rv_access_def rv_readlink_def rv_read_def rv_write_def rv_create_def rv_rename_def
    rv_link_def rv_readdirplus_def rv_fsinfo_def rv_fsstat_def rv_pathconf_def rv_commit_def rv_getattr_def NFS3_OK_def
    encodable_plain seq_field_none indirect_id Let_def intro!: encodable_res)

text \<open>The values the RPC package hands over.\<close>

lemma Marshal_reply:
  assumes "reply_ok reply" and "meth \<noteq> dump_method"
  shows "\<exists>b. \<forall>w. Marshal G buffer_write w (Some (rv_result meth reply)) = Inr (length b, None, w @ b)"
  using Marshal_sure [of G "rv_result meth reply"] encodable_reply [OF assms(1)] assms(2) by (simp add: rv_result_def)

lemma Marshal_dump: "\<exists>e. Marshal G buffer_write w (Some (rv_result dump_method reply)) = Inr (0, Some e, w)"
  by (simp add: rv_result_def Marshal_def Encode_def failE_def)

section \<open>Every reply of the server\<close>

lemma any_steps [inv_intro]:
  "ends sch (\<lambda>_. True) (sys f) (\<lambda>_. True)" "ends sch (\<lambda>_. True) (deleteHandle h) (\<lambda>_. True)"
  "ends sch (\<lambda>_. True) (getValuefromHandle h) (\<lambda>_. True)" "ends sch (\<lambda>_. True) (getFileAttrFromPath os p fa) (\<lambda>_. True)"
  unfolding deleteHandle_def getValuefromHandle_def getFileAttrFromPath_def
  by (rule ends_sys ends_modBE inv_intro | simp)+

lemma ReadDirPlus_status: "x \<in> results (ReadDirPlus os h r) \<Longrightarrow> fst x \<noteq> NFS3_OK"
proof -
  have "ends always (\<lambda>_. True) (ReadDirPlus os h r) (\<lambda>x. fst x \<noteq> NFS3_OK)"
    unfolding ReadDirPlus_def on_object_def by (rule inv_first inv_intro | simp add: nfs_stats)+
  then show "x \<in> results (ReadDirPlus os h r) \<Longrightarrow> fst x \<noteq> NFS3_OK" by (simp add: ends_results)
qed

lemma serve_reply_ok: "reply \<in> results (serve os req) \<Longrightarrow> reply_ok reply"
  by (cases req) (auto simp: mapR_def Nfsproc3_readdirplus_3_svc_def with_status_def split: if_splits dest: ReadDirPlus_status)

end
