(* ===== verification/Nfs_Conn.thy ===== *)
theory Nfs_Conn
  imports Nfs_Replies Nfs_Table
begin

text \<open>
  The server at work: the loop of \<^verbatim>\<open>rpc.ServeCodec\<close>, which \<^verbatim>\<open>main\<close> starts for every accepted connection, over the
  codec of \<^verbatim>\<open>oncrpc/servercodec.go\<close> and the methods of \<^verbatim>\<open>nfs3/nfsprocdef.go\<close>.  One goroutine reads requests, each
  method call runs in its own, and the replies are written one at a time in the order in which the calls
  finish: the steps of \<open>conn_step\<close>, in any interleaving, down to the actions of the methods.  \<open>proc_step\<close> is the whole
  process, with any number of connections over the one backend.
\<close>

section \<open>Reading requests and writing replies\<close>

definition zero_request :: rpcRequest where
  "zero_request = \<lparr>ServiceMethod = '''', Seq = 0\<rparr>"

text \<open>The recursion depth for decoding arguments: three more than the deepest argument type needs for its fields.\<close>

definition arg_depth :: nat where "arg_depth = 9"

fun pointee :: "rvalue option \<Rightarrow> rvalue" where
  "pointee (Some (RPtr T (Some u))) = u"
| "pointee _ = RInvalid"

text \<open>
  \<^verbatim>\<open>readRequest\<close> of the RPC server: the header, the method by its name, a new argument decoded into.  An error of
  the header, which on a closed connection the first read gives, ends the loop.
\<close>

definition read_request ::
  "genv \<Rightarrow> (nat \<Rightarrow> nat \<Rightarrow> nat) \<Rightarrow> 'o serverCodec \<Rightarrow> ((rpcRequest \<times> nfs_request) option \<times> 'o serverCodec) go" where
  "read_request G grow c =
     (if closed c then Inr (None, c)
      else bindG (ReadRequestHeader G grow zero_request c) (\<lambda>(req, err, c1). case err of
          Some e \<Rightarrow> Inr (None, c1)
        | None \<Rightarrow>
            (let T = fst (method_entry (ServiceMethod req)) in
             bindG (ReadRequestBody G arg_depth (Some (RPtr T (Some (newval G T)))) c1) (\<lambda>(arg, _, c2).
               Inr (Some (req, snd (method_entry (ServiceMethod req)) (pointee arg)), c2)))))"

definition closed_write :: "'o writer" where
  "closed_write b w = (0, Some (OtherIO ''use of closed network connection''), w)"

text \<open>\<^verbatim>\<open>sendResponse\<close>: the methods never return an error, and an error of the codec is dropped.\<close>

definition send_reply ::
  "genv \<Rightarrow> 'o writer \<Rightarrow> rpcRequest \<Rightarrow> nfs_reply \<Rightarrow> 'o serverCodec \<Rightarrow> 'o serverCodec go" where
  "send_reply G conn req reply c =
     bindG (WriteResponse G (if closed c then closed_write else conn)
         \<lparr>RServiceMethod = ServiceMethod req, RSeq = Seq req, Error = ''''\<rparr> (Some (rv_result (ServiceMethod req) reply)) c)
       (\<lambda>(err, c'). Inr c')"

section \<open>Connections and the process\<close>

text \<open>A call in progress: what the codec read of it, and what its method has still to do.\<close>

type_synonym 'w task = "rpcRequest \<times> nfs_request \<times> ('w, nfs_reply) run"

record ('o, 'w) conn =
  codec :: "'o serverCodec"
  tasks :: "'w task list"
  reading :: bool

definition new_conn :: "'o serverCodec \<Rightarrow> ('o, 'w) conn" where
  "new_conn c = \<lparr>codec = c, tasks = [], reading = True\<rparr>"

inductive conn_step ::
  "genv \<Rightarrow> (nat \<Rightarrow> nat \<Rightarrow> nat) \<Rightarrow> 'w os \<Rightarrow> 'o writer \<Rightarrow> ('o, 'w) conn \<times> 'w srv \<Rightarrow> ('o, 'w) conn \<times> 'w srv \<Rightarrow> bool"
  for G grow os conn where
  read_next: "reading k \<Longrightarrow> read_request G grow (codec k) = Inr (Some (req, r), c) \<Longrightarrow>
    conn_step G grow os conn (k, s) (k\<lparr>codec := c, tasks := tasks k @ [(req, r, serve os r)]\<rparr>, s)"
| read_end: "reading k \<Longrightarrow> read_request G grow (codec k) = Inr (None, c) \<Longrightarrow>
    conn_step G grow os conn (k, s) (k\<lparr>codec := c, reading := False\<rparr>, s)"
| run_method: "tasks k = ts @ (req, r, act u m) # us \<Longrightarrow>
    conn_step G grow os conn (k, s) (k\<lparr>tasks := ts @ (req, r, m s) # us\<rparr>, u s)"
| send: "tasks k = ts @ (req, r, ret reply) # us \<Longrightarrow> send_reply G conn req reply (codec k) = Inr c \<Longrightarrow>
    conn_step G grow os conn (k, s) (k\<lparr>codec := c, tasks := ts @ us\<rparr>, s)"
| close: "\<not> reading k \<Longrightarrow> tasks k = [] \<Longrightarrow> \<not> closed (codec k) \<Longrightarrow>
    conn_step G grow os conn (k, s) (k\<lparr>codec := Close (codec k)\<rparr>, s)"

inductive_cases conn_stepE: "conn_step G grow os conn (k, s) (k', s')"

text \<open>A panic or a fatal error in any goroutine ends the process.\<close>

inductive conn_crash ::
  "genv \<Rightarrow> (nat \<Rightarrow> nat \<Rightarrow> nat) \<Rightarrow> 'w os \<Rightarrow> 'o writer \<Rightarrow> ('o, 'w) conn \<times> 'w srv \<Rightarrow> crash \<Rightarrow> bool"
  for G grow os conn where
  read_crash: "reading k \<Longrightarrow> read_request G grow (codec k) = Inl e \<Longrightarrow> conn_crash G grow os conn (k, s) e"
| run_crash: "(req, r, crash e) \<in> set (tasks k) \<Longrightarrow> conn_crash G grow os conn (k, s) e"
| send_crash: "(req, r, ret reply) \<in> set (tasks k) \<Longrightarrow> send_reply G conn req reply (codec k) = Inl e \<Longrightarrow>
    conn_crash G grow os conn (k, s) e"

inductive_cases conn_crashE: "conn_crash G grow os conn (k, s) e"

record ('o, 'w) process =
  conns :: "('o, 'w) conn list"
  server :: "'w srv"

inductive proc_step ::
  "genv \<Rightarrow> (nat \<Rightarrow> nat \<Rightarrow> nat) \<Rightarrow> 'w os \<Rightarrow> 'o writer \<Rightarrow> ('c, 'n, 'w) shell \<Rightarrow> 'c \<Rightarrow>
   ('w \<Rightarrow> 'w \<Rightarrow> bool) \<Rightarrow> ('o, 'w) process \<Rightarrow> ('o, 'w) process \<Rightarrow> bool"
  for G grow os conn sh cidr env where
  accept: "accepted_conn sh cidr ip inp out = Some c \<Longrightarrow>
    proc_step G grow os conn sh cidr env p (p\<lparr>conns := conns p @ [new_conn c]\<rparr>)"
| on_conn: "i < length (conns p) \<Longrightarrow> conn_step G grow os conn (conns p ! i, server p) (k, s) \<Longrightarrow>
    proc_step G grow os conn sh cidr env p (p\<lparr>conns := (conns p)[i := k], server := s\<rparr>)"
| elsewhere: "env (world (server p)) w \<Longrightarrow>
    proc_step G grow os conn sh cidr env p (p\<lparr>server := (server p)\<lparr>world := w\<rparr>\<rparr>)"

inductive_cases proc_stepE: "proc_step G grow os conn sh cidr env p q"

text \<open>Where the process may go down: a crash in a goroutine of a connection, and \<^verbatim>\<open>log.Fatal\<close> in the accept loop, when \<^verbatim>\<open>Accept\<close>
  gives an error (at any moment, as far as the program knows).\<close>

datatype crash_site = Accepting | InConn nat

inductive proc_crash ::
  "genv \<Rightarrow> (nat \<Rightarrow> nat \<Rightarrow> nat) \<Rightarrow> 'w os \<Rightarrow> 'o writer \<Rightarrow> ('o, 'w) process \<Rightarrow> crash_site \<Rightarrow> crash \<Rightarrow> bool"
  for G grow os conn where
  accept_fails: "proc_crash G grow os conn p Accepting Fatal"
| conn_crashes: "i < length (conns p) \<Longrightarrow> conn_crash G grow os conn (conns p ! i, server p) e \<Longrightarrow>
    proc_crash G grow os conn p (InConn i) e"

text \<open>What \<^verbatim>\<open>main\<close> enters its accept loop with.\<close>

definition listening :: "'w srv \<Rightarrow> ('o, 'w) process" where
  "listening s = \<lparr>conns = [], server = s\<rparr>"

section \<open>The process is the server\<close>

text \<open>The calls of all connections, and the state of the backend.\<close>

definition conn_calls :: "('o, 'w) conn \<Rightarrow> 'w calls" where
  "conn_calls k = mset (map snd (tasks k))"

definition pool_of :: "('o, 'w) process \<Rightarrow> 'w calls \<times> 'w srv" where
  "pool_of p = (sum_list (map conn_calls (conns p)), server p)"

lemma conn_step_pool:
  assumes "conn_step G grow os conn (k, s) (k', s')"
  shows "(pool_step os (\<lambda>_. True) env)\<^sup>*\<^sup>* (conn_calls k + M, s) (conn_calls k' + M, s')"
  using assms
proof (cases rule: conn_step.cases)
  case (read_next req r c)
  then show ?thesis using pool_step.arrive [of "\<lambda>_. True" r os env "conn_calls k + M" s]
    by (intro r_into_rtranclp) (simp add: conn_calls_def)
next
  case (run_method ts req r u m us)
  then show ?thesis using pool_step.action [of os _ env r u m "mset (map snd ts) + mset (map snd us) + M" s]
    by (intro r_into_rtranclp) (simp add: conn_calls_def)
next
  case (send ts req r reply us c)
  then show ?thesis using pool_step.leave [of os _ env r reply "mset (map snd ts) + mset (map snd us) + M" s]
    by (intro r_into_rtranclp) (simp add: conn_calls_def)
qed (simp_all add: conn_calls_def)

interpretation process: simulation "proc_step G grow os conn sh cidr env" "pool_step os (\<lambda>_. True) env" pool_of
proof unfold_locales
  fix p q
  assume "proc_step G grow os conn sh cidr env p q"
  then show "(pool_step os (\<lambda>_. True) env)\<^sup>*\<^sup>* (pool_of p) (pool_of q)"
  proof (cases rule: proc_step.cases)
    case (accept ip inp out c)
    then show ?thesis by (simp add: pool_of_def conn_calls_def new_conn_def)
  next
    case (on_conn i k s)
    define M where "M = sum_list (map conn_calls (take i (conns p))) + sum_list (map conn_calls (drop (Suc i) (conns p)))"
    have "sum_list (map conn_calls (conns p)) = conn_calls (conns p ! i) + M"
      by (subst id_take_nth_drop [OF on_conn(2)]) (simp add: M_def ac_simps)
    moreover have "sum_list (map conn_calls ((conns p)[i := k])) = conn_calls k + M"
      by (subst upd_conv_take_nth_drop [OF on_conn(2)]) (simp add: M_def ac_simps)
    ultimately show ?thesis using conn_step_pool [OF on_conn(3), of env M] by (simp add: pool_of_def on_conn(1))
  next
    case (elsewhere w)
    then show ?thesis by (auto simp: pool_of_def intro: pool_step.environment)
  qed
qed

section \<open>What reading and writing keep\<close>

lemma read_fragments_rest: "length (snd (read_fragments grow buf bcap inp)) \<le> length inp"
proof (induction inp arbitrary: buf bcap rule: measure_induct_rule [where f = length])
  case (less inp)
  have shrinks: "length (drop k (drop 4 inp)) < length inp" if "length (take 4 inp) = 4" for k
    using that by simp
  show ?case
    by (subst read_fragments.simps)
      (auto simp: Let_def ReadFull_def intro: order_trans [OF less.IH] less_imp_le shrinks
        simp del: drop_drop take_drop length_take split: if_split)
qed

lemma header_keeps:
  assumes "ReadRequestHeader G grow req c = Inr (req', err, c')"
  shows "conn_out c' = conn_out c" and "procTable c' = procTable c" and "closed c' = closed c"
    and "currentProgIndex c' = currentProgIndex c \<or> (\<exists>i < length (procTable c). currentProgIndex c' = int i)"
    and "err = None \<Longrightarrow> length (conn_in c') < length (conn_in c)" and "length (conn_in c') \<le> length (conn_in c)"
proof -
  obtain y rest where y: "ReadFullRecord grow (conn_in c) = (y, rest)" by fastforce
  have l: "length rest \<le> length (conn_in c)" "\<And>rcd. y = Inr rcd \<Longrightarrow> length rest < length (conn_in c)"
    using read_fragments_shrinks [of grow "[]" maxRecordSize "conn_in c"] read_fragments_rest [of grow "[]" maxRecordSize "conn_in c"] y
    by (simp_all add: ReadFullRecord_def)
  have d: "i < length (procTable c)" if "dispatch (procTable c) call = (m, Some i)" for call m i
    using dispatch_cases [OF that] by blast
  have "\<exists>rd cpi. c' = c\<lparr>conn_in := rest, recordReader := rd, currentProgIndex := cpi\<rparr> \<and>
    (cpi = currentProgIndex c \<or> (\<exists>i < length (procTable c). cpi = int i)) \<and> (err = None \<longrightarrow> (\<exists>rcd. y = Inr rcd))"
  proof (cases y)
    case (Inl e)
    with assms y show ?thesis by (intro exI [of _ "recordReader c"] exI [of _ "currentProgIndex c"]) (cases c; auto simp: ReadRequestHeader_def)
  next
    case (Inr rcd)
    with assms y obtain call e rcd' where h: "decode_header G rcd = Inr (call, e, rcd')"
      by (auto simp: ReadRequestHeader_def bindG_eq_Inr)
    obtain meth ix where m: "dispatch (procTable c) (CBody call) = (meth, ix)" by fastforce
    have "c' = c\<lparr>conn_in := rest, recordReader := rcd'\<rparr> \<or>
        c' = (case ix of None \<Rightarrow> c\<lparr>conn_in := rest, recordReader := rcd'\<rparr>
          | Some i \<Rightarrow> c\<lparr>conn_in := rest, recordReader := rcd', currentProgIndex := int i\<rparr>)"
      using assms y Inr h m by (simp add: ReadRequestHeader_def Let_def split: option.splits if_splits)
    then have "\<exists>cpi. c' = c\<lparr>conn_in := rest, recordReader := rcd', currentProgIndex := cpi\<rparr> \<and>
        (cpi = currentProgIndex c \<or> (\<exists>i. ix = Some i \<and> cpi = int i))"
      by (cases ix; cases c) auto
    then show ?thesis using d m Inr by (intro exI [of _ rcd']) auto
  qed
  then obtain rd cpi where c': "c' = c\<lparr>conn_in := rest, recordReader := rd, currentProgIndex := cpi\<rparr>"
    and cpi: "cpi = currentProgIndex c \<or> (\<exists>i < length (procTable c). cpi = int i)" and e: "err = None \<Longrightarrow> \<exists>rcd. y = Inr rcd" by blast
  then show "conn_out c' = conn_out c" "procTable c' = procTable c" "closed c' = closed c"
    "currentProgIndex c' = currentProgIndex c \<or> (\<exists>i < length (procTable c). currentProgIndex c' = int i)"
    "length (conn_in c') \<le> length (conn_in c)" "err = None \<Longrightarrow> length (conn_in c') < length (conn_in c)"
    using l by auto
qed

lemma body_keeps:
  assumes "ReadRequestBody G d a c = Inr (arg, err, c')"
  shows "conn_out c' = conn_out c \<and> conn_in c' = conn_in c \<and> procTable c' = procTable c \<and>
    currentProgIndex c' = currentProgIndex c \<and> (closed c \<longrightarrow> closed c')"
  using assms by (auto simp: ReadRequestBody_def bindG_eq_Inr Let_def Close_def split: option.splits if_splits)

text \<open>The codec can build the reply header for a request.\<close>

definition ready :: "'o serverCodec \<Rightarrow> rpcRequest \<Rightarrow> bool" where
  "ready c req \<longleftrightarrow>
     (ServiceMethod req = ''NfsProc.ProgMismatch'' \<longrightarrow> 0 \<le> currentProgIndex c \<and> currentProgIndex c < int (length (procTable c)))"

lemma read_request_keeps:
  assumes "read_request G grow c = Inr (x, c')"
  shows "conn_out c' = conn_out c \<and> procTable c' = procTable c \<and> (closed c \<longrightarrow> closed c') \<and>
    (\<forall>req. ready c req \<longrightarrow> ready c' req) \<and> length (conn_in c') \<le> length (conn_in c)"
proof (cases "closed c")
  case False
  with assms obtain req err c1 where h: "ReadRequestHeader G grow zero_request c = Inr (req, err, c1)"
    by (auto simp: read_request_def bindG_eq_Inr)
  then have "conn_out c' = conn_out c1 \<and> conn_in c' = conn_in c1 \<and> procTable c' = procTable c1 \<and>
      currentProgIndex c' = currentProgIndex c1"
    using assms False by (auto simp: read_request_def bindG_eq_Inr Let_def split: option.splits dest: body_keeps)
  with header_keeps [OF h] False show ?thesis by (auto simp: ready_def)
qed (use assms in \<open>simp add: read_request_def\<close>)

lemma read_request_new:
  assumes "read_request G grow c = Inr (Some (req, r), c')"
  shows "ready c' req" and "length (conn_in c') < length (conn_in c)" and "\<not> closed c"
proof -
  from assms obtain c1 arg e where h: "ReadRequestHeader G grow zero_request c = Inr (req, None, c1)"
    and b: "ReadRequestBody G arg_depth (Some (RPtr (fst (method_entry (ServiceMethod req)))
      (Some (newval G (fst (method_entry (ServiceMethod req))))))) c1 = Inr (arg, e, c')" and "\<not> closed c"
    by (auto simp: read_request_def bindG_eq_Inr Let_def split: if_splits option.splits)
  from header_success [OF h] obtain call ix where d: "dispatch (procTable c) call = (ServiceMethod req, ix)"
    and c1: "procTable c1 = procTable c" "currentProgIndex c1 = (case ix of None \<Rightarrow> currentProgIndex c | Some i \<Rightarrow> int i)" by blast
  have "ready c1 req" using dispatch_cases [OF d] by (cases ix) (auto simp: ready_def c1)
  with body_keeps [OF b] header_keeps(5) [OF h] \<open>\<not> closed c\<close>
  show "ready c' req" "length (conn_in c') < length (conn_in c)" "\<not> closed c" by (simp_all add: ready_def)
qed

text \<open>Reading never takes the process down.\<close>

lemma read_request_returns:
  assumes "env_ok G"
  shows "\<exists>x c'. read_request G grow c = Inr (x, c')"
proof (cases "closed c")
  case False
  obtain req err c1 where h: "ReadRequestHeader G grow zero_request c = Inr (req, err, c1)"
    using ReadRequestHeader_returns [OF assms] by blast
  define T where "T = fst (method_entry (ServiceMethod req))"
  have wf: "wf_ty True T" "plain T" "tdepth T \<le> 7" "resolve G T = T" using method_types by (simp_all add: T_def)
  then have t: "has_type G (TPtr T) (RPtr T (Some (newval G T)))"
    using zero_typed [OF resolve_wf [OF assms wf(1)], of G] by (simp add: newval_def)
  have "arg_depth = Suc (Suc 7)" by (simp add: arg_depth_def)
  with body_returns [OF assms wf(1) t wf(2,3), of c1] obtain v' c2
    where "ReadRequestBody G arg_depth (Some (RPtr T (Some (newval G T)))) c1 = Inr (Some v', None, c2)" by auto
  then show ?thesis using False h by (cases err) (simp_all add: read_request_def T_def)
qed (simp add: read_request_def)

section \<open>Replies\<close>

text \<open>A reply that can be marshalled goes out in one write, unless it has \<^verbatim>\<open>1 << 31\<close> bytes.\<close>

lemma send_reply_run:
  assumes "reply_ok reply" and "ServiceMethod req \<noteq> dump_method" and "ready c req" and "procTable c \<noteq> []"
  shows "\<exists>m b. response_header (ServiceMethod req) (Seq req) c = Inr m \<and>
    (\<forall>w. Marshal G buffer_write w (Some (rv_result (ServiceMethod req) reply)) = Inr (length b, None, w @ b)) \<and>
    (length (msg_bytes m @ b) < 2 ^ 31 \<longrightarrow> send_reply G conn req reply c =
       (case (if closed c then closed_write else conn) (fragment True (msg_bytes m @ b)) (conn_out c) of
          (n, err, out) \<Rightarrow> Inr (if err = None then c\<lparr>conn_out := out\<rparr> else Close (c\<lparr>conn_out := out\<rparr>))))"
proof -
  obtain m where m: "response_header (ServiceMethod req) (Seq req) c = Inr m"
    using response_header_ok [OF assms(4), of "ServiceMethod req" "Seq req"] assms(3) by (auto simp: ready_def)
  obtain b where b: "\<And>w. Marshal G buffer_write w (Some (rv_result (ServiceMethod req) reply)) = Inr (length b, None, w @ b)"
    using Marshal_reply [OF assms(1,2)] by blast
  have "send_reply G conn req reply c =
    (case (if closed c then closed_write else conn) (fragment True (msg_bytes m @ b)) (conn_out c) of
       (n, err, out) \<Rightarrow> Inr (if err = None then c\<lparr>conn_out := out\<rparr> else Close (c\<lparr>conn_out := out\<rparr>)))"
    if "length (msg_bytes m @ b) < 2 ^ 31"
    using m b one_fragment [OF that, of "if closed c then closed_write else conn" "conn_out c"]
    by (simp add: send_reply_def WriteResponse_def Marshal_msg_to fragment_def split: prod.split option.split)
  with m b show ?thesis by auto
qed

text \<open>The nil pointer of MOUNT DUMP: nothing is written and the codec closes the connection.\<close>

lemma send_dump: "ServiceMethod req = dump_method \<Longrightarrow> send_reply G conn req reply c = Inr (Close c)"
proof -
  assume m: "ServiceMethod req = dump_method"
  then have "response_header (ServiceMethod req) (Seq req) c = Inr (base_reply (ucast (Seq req)))"
    by (intro header_normal) (simp add: rpc_error_method_def dump_method_def)
  moreover obtain e where "\<And>w. Marshal G buffer_write w (Some (rv_result dump_method reply)) = Inr (0, Some e, w)"
    using Marshal_dump by (simp add: rv_result_def Marshal_def Encode_def failE_def)
  ultimately show ?thesis using m by (simp add: send_reply_def WriteResponse_def Marshal_msg_to)
qed

lemma send_reply_keeps:
  assumes "send_reply G conn req reply c = Inr c'"
  shows "conn_in c' = conn_in c \<and> procTable c' = procTable c \<and> currentProgIndex c' = currentProgIndex c \<and>
    recordReader c' = recordReader c \<and> (closed c \<longrightarrow> closed c')"
  using assms
  by (auto simp: send_reply_def WriteResponse_def bindG_eq_Inr Close_def Let_def split: option.splits)

lemma send_reply_returns:
  assumes "reply_ok reply" and "ServiceMethod req \<noteq> dump_method" and "ready c req" and "procTable c \<noteq> []"
  shows "\<exists>m b. response_header (ServiceMethod req) (Seq req) c = Inr m \<and>
    Marshal G buffer_write [] (Some (rv_result (ServiceMethod req) reply)) = Inr (length b, None, b) \<and>
    (length (msg_bytes m @ b) < 2 ^ 31 \<longrightarrow> (\<exists>c'. send_reply G conn req reply c = Inr c'))"
proof -
  let ?sent = "(if closed c then closed_write else conn)"
  have "\<exists>c'. (case x of (n, err, out) \<Rightarrow> Inr (if err = None then c\<lparr>conn_out := out\<rparr> else Close (c\<lparr>conn_out := out\<rparr>))) = Inr c'" for x
    by (simp split: prod.split)
  note sent = this
  from send_reply_run [OF assms, of G conn] show ?thesis
  proof (elim exE conjE)
    fix m b assume m: "response_header (ServiceMethod req) (Seq req) c = Inr m" and b: "\<forall>w. Marshal G buffer_write w (Some (rv_result (ServiceMethod req) reply)) = Inr (length b, None, w @ b)"
      and run: "length (msg_bytes m @ b) < 2 ^ 31 \<longrightarrow> send_reply G conn req reply c =
        (case ?sent (fragment True (msg_bytes m @ b)) (conn_out c) of
          (n, err, out) \<Rightarrow> Inr (if err = None then c\<lparr>conn_out := out\<rparr> else Close (c\<lparr>conn_out := out\<rparr>)))"
    have "\<exists>c'. send_reply G conn req reply c = Inr c'" if "length (msg_bytes m @ b) < 2 ^ 31"
      using run [rule_format, OF that] sent [of "?sent (fragment True (msg_bytes m @ b)) (conn_out c)"] by (simp only:)
    with m b show ?thesis by (intro exI [of _ m] exI [of _ b]) simp
  qed
qed

section \<open>What can go wrong\<close>

text \<open>A call in progress ends, if it does, with a reply its method can give.\<close>

fun task_ok :: "'w os \<Rightarrow> 'o serverCodec \<Rightarrow> 'w task \<Rightarrow> bool" where
  "task_ok os c (req, r, m) \<longleftrightarrow> ready c req \<and> results m \<subseteq> results (serve os r)"

definition conn_ok :: "'w os \<Rightarrow> ('o, 'w) conn \<Rightarrow> bool" where
  "conn_ok os k \<longleftrightarrow> procTable (codec k) = procTableServer \<and> (\<forall>t \<in> set (tasks k). task_ok os (codec k) t)"

lemma task_ok_mono: "task_ok os c t \<Longrightarrow> (\<And>req. ready c req \<Longrightarrow> ready c' req) \<Longrightarrow> task_ok os c' t"
  by (cases t) simp

lemma conn_step_ok: "conn_step G grow os conn (k, s) (k', s') \<Longrightarrow> conn_ok os k \<Longrightarrow> conn_ok os k'"
proof (erule conn_stepE)
  fix req r c assume k: "conn_ok os k" and "k' = k\<lparr>codec := c, tasks := tasks k @ [(req, r, serve os r)]\<rparr>"
    and r: "read_request G grow (codec k) = Inr (Some (req, r), c)"
  with read_request_keeps [OF r] read_request_new(1) [OF r] show "conn_ok os k'"
    by (auto simp: conn_ok_def intro: task_ok_mono)
next
  fix c assume k: "conn_ok os k" and "k' = k\<lparr>codec := c, reading := False\<rparr>" and r: "read_request G grow (codec k) = Inr (None, c)"
  with read_request_keeps [OF r] show "conn_ok os k'" by (auto simp: conn_ok_def intro: task_ok_mono)
next
  fix ts req r u m us
  assume "conn_ok os k" and "tasks k = ts @ (req, r, act u m) # us" and "k' = k\<lparr>tasks := ts @ (req, r, m s) # us\<rparr>"
  then show "conn_ok os k'" by (auto simp: conn_ok_def)
next
  fix ts req r reply us c
  assume "conn_ok os k" and "tasks k = ts @ (req, r, ret reply) # us" and "k' = k\<lparr>codec := c, tasks := ts @ us\<rparr>"
    and r: "send_reply G conn req reply (codec k) = Inr c"
  with send_reply_keeps [OF r] show "conn_ok os k'" by (auto simp: conn_ok_def ready_def intro: task_ok_mono)
qed (auto simp: conn_ok_def Close_def ready_def intro: task_ok_mono)

lemma conn_ok_finished:
  assumes "conn_ok os k" and "(req, r, ret reply) \<in> set (tasks k)"
  shows "reply_ok reply" "ready (codec k) req" "procTable (codec k) \<noteq> []" "reply \<in> results (serve os r)"
proof -
  from assms have t: "task_ok os (codec k) (req, r, ret reply)" "procTable (codec k) = procTableServer"
    unfolding conn_ok_def by blast+
  then show "ready (codec k) req" "procTable (codec k) \<noteq> []" "reply \<in> results (serve os r)"
    by (simp_all add: procTableServer_def)
  then show "reply_ok reply" by (blast intro: serve_reply_ok)
qed

definition proc_ok :: "'w os \<Rightarrow> ('o, 'w) process \<Rightarrow> bool" where
  "proc_ok os p \<longleftrightarrow> (\<forall>k \<in> set (conns p). conn_ok os k)"

interpretation process_inv: kept_by "proc_step G grow os conn sh cidr env" "proc_ok os"
proof unfold_locales
  fix p q
  assume ok: "proc_ok os p" and "proc_step G grow os conn sh cidr env p q"
  from this(2) show "proc_ok os q"
  proof (cases rule: proc_step.cases)
    case (accept ip inp out c)
    then show ?thesis using ok by (auto simp: proc_ok_def conn_ok_def new_conn_def accepted_conn_def NewServerCodec_def split: if_splits)
  next
    case (on_conn i k s)
    then have "conn_ok os k" using ok by (auto simp: proc_ok_def intro: conn_step_ok)
    with on_conn ok show ?thesis by (auto simp: proc_ok_def dest: set_update_subset_insert [THEN subsetD])
  qed (use ok in \<open>simp add: proc_ok_def\<close>)
qed

text \<open>What takes a connection of a running process down.\<close>

definition method_crashed :: "('o, 'w) conn \<Rightarrow> crash \<Rightarrow> bool" where
  "method_crashed k e \<longleftrightarrow> (\<exists>req r. (req, r, crash e) \<in> set (tasks k))"

definition huge_reply :: "genv \<Rightarrow> ('o, 'w) conn \<Rightarrow> bool" where
  "huge_reply G k \<longleftrightarrow> (\<exists>req r reply m b. (req, r, ret reply) \<in> set (tasks k) \<and>
     response_header (ServiceMethod req) (Seq req) (codec k) = Inr m \<and>
     Marshal G buffer_write [] (Some (rv_result (ServiceMethod req) reply)) = Inr (length b, None, b) \<and>
     2 ^ 31 \<le> length (msg_bytes m) + length b)"

lemma conn_crash_reasons:
  assumes "env_ok G" and "(proc_step G grow os conn sh cidr env)\<^sup>*\<^sup>* (listening s) p" and "i < length (conns p)"
    and "conn_crash G grow os conn (conns p ! i, server p) e"
  shows "method_crashed (conns p ! i) e \<or> huge_reply G (conns p ! i)"
  using assms(4)
proof (cases rule: conn_crash.cases)
  case read_crash
  then show ?thesis using read_request_returns [OF assms(1), of grow "codec (conns p ! i)"] by auto
next
  case (run_crash req r)
  then show ?thesis by (auto simp: method_crashed_def)
next
  case (send_crash req r reply)
  have "proc_ok os p" using process_inv.run_keeps [OF assms(2)] by (simp add: proc_ok_def listening_def)
  then have "conn_ok os (conns p ! i)" using assms(3) by (simp add: proc_ok_def)
  note ok = conn_ok_finished [OF this send_crash(1)]
  from send_crash(2) send_dump [of req G conn reply "codec (conns p ! i)"] have nd: "ServiceMethod req \<noteq> dump_method" by auto
  from send_reply_returns [OF ok(1) nd ok(2,3), of G conn] obtain m b
    where m: "response_header (ServiceMethod req) (Seq req) (codec (conns p ! i)) = Inr m"
    and b: "Marshal G buffer_write [] (Some (rv_result (ServiceMethod req) reply)) = Inr (length b, None, b)"
    and run: "length (msg_bytes m @ b) < 2 ^ 31 \<longrightarrow> (\<exists>c. send_reply G conn req reply (codec (conns p ! i)) = Inr c)" by blast
  with send_crash(2) have "\<not> length (msg_bytes m @ b) < 2 ^ 31" by auto
  then have "2 ^ 31 \<le> length (msg_bytes m) + length b" by simp
  with send_crash(1) m b show ?thesis unfolding huge_reply_def by blast
qed

text \<open>C13: Whatever bytes clients send on whatever number of connections, and however the goroutines of the calls are
  interleaved, there are three ways for the process to go down: \<^verbatim>\<open>Accept\<close> fails, and the accept loop ends the process with
  \<^verbatim>\<open>log.Fatal\<close>; a method has come to a crash; or a reply of \<^verbatim>\<open>1 << 31\<close> bytes or more is sent.  The reading of requests, their
  decoding, the dispatch and the sending of every other reply never crash.\<close>

theorem process_safe:
  assumes "env_ok G" and "(proc_step G grow os conn sh cidr env)\<^sup>*\<^sup>* (listening s) p" and "proc_crash G grow os conn p site e"
  shows "site = Accepting \<and> e = Fatal \<or>
    (\<exists>i < length (conns p). site = InConn i \<and> (method_crashed (conns p ! i) e \<or> huge_reply G (conns p ! i)))"
  using assms(3)
proof (cases rule: proc_crash.cases)
  case (conn_crashes i)
  with conn_crash_reasons [OF assms(1,2) this(2,3)] show ?thesis by blast
qed simp

end
