(* ===== verification/Nfs_Steps.thy ===== *)
theory Nfs_Steps
  imports Nfs_Inv
begin

text \<open>
  How many actions a request takes: no handler loops over calls to the operating system, so there is one bound for all
  of them.
\<close>

named_theorems step_count \<open>bounds on the number of actions, one rule per construct\<close>

primrec takes :: "('w, 'a) run \<Rightarrow> nat \<Rightarrow> bool" where
  "takes (ret x) = (\<lambda>n. True)"
| "takes (crash c) = (\<lambda>n. True)"
| "takes (act u k) = (\<lambda>n. \<exists>m. n = Suc m \<and> (\<forall>s. takes (k s) m))"

lemma takes_mono: "takes m a \<Longrightarrow> a \<le> b \<Longrightarrow> takes m b"
proof (induction m arbitrary: a b)
  case (act u k)
  from act.prems obtain a' b' where "a = Suc a'" "b = Suc b'" "a' \<le> b'" "\<And>s. takes (k s) a'"
    by (auto simp: Suc_le_eq gr0_conv_Suc Suc_le_D dest!: Suc_le_D)
  then show ?case by (auto intro: act.IH [OF rangeI])
qed simp_all

lemmas takes_add = takes_mono [OF _ le_add2]
lemmas takes_max = takes_mono [OF _ max.cobounded1] takes_mono [OF _ max.cobounded2]

lemma takes_simple [step_count]: "takes (ret x) 0" "takes (crash c) 0"
  by simp_all

lemma takes_action [step_count]: "takes (getBE f) 1" "takes (modBE g) 1" "takes (sys h) 1"
  by (simp_all add: getBE_def modBE_def sys_def)

lemma takes_table [step_count]:
  "takes (getValuefromHandle h) 1" "takes (setValueforHandle h p) 1" "takes (deleteHandle h) 1"
  unfolding getValuefromHandle_def setValueforHandle_def deleteHandle_def by (rule takes_action)+

lemma takes_liftG [step_count]: "takes (liftG m) 0"
  by (cases m) simp_all

lemma takes_bind [step_count]: "takes m a \<Longrightarrow> (\<And>x. takes (f x) b) \<Longrightarrow> takes (bindR m f) (a + b)"
proof (induction m arbitrary: a)
  case (ret x)
  then show ?case by (simp add: takes_add)
qed auto

lemma takes_branch [step_count]:
  "takes m a \<Longrightarrow> takes n b \<Longrightarrow> takes (if c then m else n) (max a b)"
  "takes m a \<Longrightarrow> (\<And>y. takes (f y) b) \<Longrightarrow> takes (case x of None \<Rightarrow> m | Some y \<Rightarrow> f y) (max a b)"
  by (cases c; simp add: takes_max) (cases x; simp add: takes_max)

lemma takes_sum [step_count]:
  "(\<And>y. takes (f y) a) \<Longrightarrow> (\<And>z. takes (g z) b) \<Longrightarrow> takes (case x of Inl y \<Rightarrow> f y | Inr z \<Rightarrow> g z) (max a b)"
  by (cases x; simp add: takes_max)

lemma takes_prod [step_count]: "(\<And>y z. takes (f y z) a) \<Longrightarrow> takes (case x of (y, z) \<Rightarrow> f y z) a"
  by (cases x) simp

lemma takes_attr [step_count]:
  "takes (getFileAttrFromPath os p fa) 1" "takes (poststat os clear p h a) 2" "takes (registerHandle os p fa) 3"
  unfolding poststat_def getFileAttrFromPath_def registerHandle_def Let_def
  by (rule takes_mono, (rule step_count)+, simp)+

lemma takes_file [step_count]: "takes m a \<Longrightarrow> takes (with_file os f m) (a + 1)"
  unfolding with_file_def by (rule takes_mono, (rule step_count | assumption)+, simp)

lemma takes_on [step_count]:
  "(\<And>p r. takes (body p r) a) \<Longrightarrow> takes (on_object os h get put r0 body) (a + 3)"
  "(\<And>p fa r. takes (body' p fa r) a) \<Longrightarrow> takes (on_writable os h okw r1 body') (a + 3)"
  unfolding on_object_def on_writable_def Let_def by (rule takes_mono, (rule step_count | assumption)+, simp)+

lemma takes_after [step_count]:
  "takes (fail_after os clear p h st r1) 2" "takes (ok_after os clear p h get okw st r2) 2"
  "takes (created os b c p h name failed r3) 6" "takes (after_both os p h p' h' r4) 4" "takes (after_link os p h p' h' r5) 4"
  "takes (rename_to_only os h fa r6) 3" "takes (rename_from_only os p h r7) 2" "takes (link_old_only os h r8) 3"
  "takes (link_dir_only os p h r9) 2" "takes (silly_rename os name p q fa) 3"
  unfolding fail_after_def ok_after_def created_def after_both_def after_link_def rename_to_only_def rename_from_only_def
    link_old_only_def link_dir_only_def silly_rename_def Let_def
  by (rule takes_mono, (rule step_count)+, simp)+

lemma takes_query [step_count]:
  "takes (GetFileAttr os h fa) 3" "takes (GetFileSysInfo os h r1) 5" "takes (GetFileSystemAttr os h r2) 6"
  "takes (GetPathConf os h r3) 5" "takes (Lookup os h name r4) 9" "takes (ReadDir os h cookie n r5) 12"
  "takes (ReadDirPlus os h r6) 5" "takes (Access os h acc r7) 5" "takes (Read os h off n r8) 9"
  "takes (Commit os h r9) 6" "takes (ReadLink os h r10) 6" "takes (Mount p r11) 3" "takes (UnMount p) 3"
  "takes (ExportedMountPoint r12) 1"
  unfolding GetFileAttr_def GetFileSysInfo_def GetFileSystemAttr_def GetPathConf_def Lookup_def ReadDir_def readdir_open_def
    ReadDirPlus_def Access_def Read_def read_open_def Commit_def ReadLink_def Mount_def UnMount_def ExportedMountPoint_def
    getDotAndDotDot_def Let_def
  by (rule takes_mono, (rule step_count)+, simp)+

lemma takes_set_step [step_count]: "takes m a \<Longrightarrow> takes (set_step b c m) (a + 1)"
  unfolding set_step_def by (rule takes_mono, (rule step_count | assumption)+, simp)

lemma takes_update [step_count]:
  "takes (Mkdir os h name sa r1) 10" "takes (Create os h name how r2) 11" "takes (SymLink os h name target sa r3) 10"
  "takes (Setattr os h sa guard r4) 8" "takes (Write os h off n st data r5) 10" "takes (Remove os h name r6) 6"
  "takes (Rmdir os h name r7) 6" "takes (Rename os h name h' name' r8) 13" "takes (Link os h h' name r9) 10"
  unfolding Mkdir_def Create_def SymLink_def Setattr_def set_attributes_def Write_def write_open_def Remove_def Rmdir_def
    Rename_def Link_def Let_def
  by (rule takes_mono, (rule step_count)+, simp)+

lemma takes_mapR [step_count]: "takes m a \<Longrightarrow> takes (mapR f m) a"
  using takes_bind [OF _ takes_simple(1)] by (simp add: mapR_def)

lemma takes_with_status [step_count]: "takes m a \<Longrightarrow> takes (with_status m) a"
  using takes_bind [OF _ takes_simple(1)] by (simp add: with_status_def split_def)

text \<open>Thirteen actions are enough for every request; RENAME may take as many.\<close>

lemma serve_takes: "takes (serve os req) 13"
  by (cases req; (simp only: serve.simps svc_defs, rule takes_mono, (rule step_count)+, simp))

end
