(* ===== verification/Nfs_Service.thy ===== *)
theory Nfs_Service
  imports Nfs_Conn Nfs_Steps
begin

text \<open>
  What a client gets from the process: a request in the codec's format is served as the method serves it and its
  reply is sent back, every request is answered once, connections come to an end, and what holds of every run of the
  server holds whatever bytes arrive.
\<close>

section \<open>From the bytes of a request to the bytes of its reply\<close>

lemma server_table:
  "distinct (map PProgram procTableServer)" "\<forall>e \<in> set procTableServer. length (ProcList e) < 2 ^ 32"
  by (simp_all add: procTableServer_def programs Nfs3ProcList_def Mount3ProcList_def)

lemma server_methods: "find_method m procTableServer 0 None = Some ij \<Longrightarrow> \<not> rpc_error_method m"
  by (auto simp: procTableServer_def Nfs3ProcList_def Mount3ProcList_def rpc_error_method_def)

lemma request_decoded:
  assumes G: "env_ok G" and r: "request_ok r"
    and wr: "WriteRequest G buffer_write \<lparr>ServiceMethod = method_name r, Seq = q\<rparr>
      (Some (RPtr (fst (method_entry (method_name r))) (Some (rv_args r)))) cl = Inr (None, cl')" and cl: "cl_table cl = procTableServer"
    and inp: "conn_in c = drop (length (cl_out cl)) (cl_out cl') @ rest" "length (cl_out cl') - length (cl_out cl) \<le> maxRecordSize"
    and c: "\<not> closed c" "procTable c = procTableServer"
  shows "\<exists>c'. read_request G grow c = Inr (Some (\<lparr>ServiceMethod = method_name r, Seq = ucast (ucast q :: u32)\<rparr>, r), c') \<and>
    conn_in c' = rest \<and> \<not> closed c' \<and> conn_out c' = conn_out c \<and> procTable c' = procTableServer"
proof -
  define T where "T = fst (method_entry (method_name r))"
  have T: "wf_ty True T" "has_type G (resolve G T) (rv_args r)" "sendable G 0 (rv_args r)" "vdepth (rv_args r) \<le> Suc 6"
    using typed_rv_args [OF r, of G] sendable_rv_args [OF r] vdepth_rv_args [OF r]
    by (simp_all add: T_def method_types)
  have tab: "distinct (map PProgram (cl_table cl))" "\<forall>e \<in> set (cl_table cl). length (ProcList e) < 2 ^ 32" "procTable c = cl_table cl"
    using server_table cl c(2) by simp_all
  from request_read [OF G T tab wr [folded T_def] inp, of grow zero_request] obtain c1 c2 where
    h: "ReadRequestHeader G grow zero_request c =
      Inr (\<lparr>ServiceMethod = method_name r, Seq = ucast (ucast q :: u32)\<rparr>, None, c1)" and
    b: "ReadRequestBody G (Suc (Suc (Suc 6))) (Some (RPtr T (Some (newval G T)))) c1 =
      Inr (Some (RPtr T (Some (canon G (rv_args r)))), None, c2)" and c2: "conn_in c2 = rest" "closed c2 = closed c"
    by (auto simp: zero_request_def)
  have "arg_depth = Suc (Suc (Suc 6))" by (simp add: arg_depth_def)
  with h b c(1) have read: "read_request G grow c = Inr (Some (\<lparr>ServiceMethod = method_name r, Seq = ucast (ucast q :: u32)\<rparr>, r), c2)"
    by (simp add: read_request_def T_def [symmetric] canon_rv_args [OF r] method_entry_args [OF r])
  from read_request_keeps [OF this] c c2 read show ?thesis by auto
qed

text \<open>A method that runs without interruption.\<close>

lemma conn_exec:
  assumes "exec m s = Inr (x, t)"
  shows "(conn_step G grow os conn)\<^sup>*\<^sup>* (\<lparr>codec = c, tasks = ts @ (req, r, m) # us, reading = b\<rparr>, s)
    (\<lparr>codec = c, tasks = ts @ (req, r, ret x) # us, reading = b\<rparr>, t)"
  using assms
proof (induction m arbitrary: s)
  case (act u k)
  have "conn_step G grow os conn (\<lparr>codec = c, tasks = ts @ (req, r, act u k) # us, reading = b\<rparr>, s)
      (\<lparr>codec = c, tasks = ts @ (req, r, k s) # us, reading = b\<rparr>, u s)"
    using conn_step.run_method [of "\<lparr>codec = c, tasks = ts @ (req, r, act u k) # us, reading = b\<rparr>" ts req r u k us G grow os conn s] by simp
  also have "(conn_step G grow os conn)\<^sup>*\<^sup>* (\<lparr>codec = c, tasks = ts @ (req, r, k s) # us, reading = b\<rparr>, u s)
      (\<lparr>codec = c, tasks = ts @ (req, r, ret x) # us, reading = b\<rparr>, t)"
    using act by simp
  finally show ?case .
qed simp_all

text \<open>A request that a client with the same table writes for a procedure, with arguments its XDR types can
  carry, is read from the connection as exactly that request, served by the method the procedure names (\<open>serve\<close>,
  with the state it leaves and the reply it gives), and answered with one record: the RPC header for a success with
  the transaction id of the call and the encoding of the reply, for all replies below \<^verbatim>\<open>1 << 31\<close> bytes.  The
  connection is ready for what follows.\<close>

lemma request_served:
  assumes G: "env_ok G" and r: "request_ok r" and m: "method_name r \<noteq> dump_method"
    and wr: "WriteRequest G buffer_write \<lparr>ServiceMethod = method_name r, Seq = q\<rparr>
      (Some (RPtr (fst (method_entry (method_name r))) (Some (rv_args r)))) cl = Inr (None, cl')" and cl: "cl_table cl = procTableServer"
    and inp: "conn_in c = drop (length (cl_out cl)) (cl_out cl') @ rest" "length (cl_out cl') - length (cl_out cl) \<le> maxRecordSize"
    and c: "\<not> closed c" "procTable c = procTableServer" and sv: "exec (serve os r) s = Inr (reply, s')"
  shows "\<exists>b c'. Marshal G buffer_write [] (Some (rv_result (method_name r) reply)) = Inr (length b, None, b) \<and>
    (24 + length b < 2 ^ 31 \<longrightarrow>
       (conn_step G grow os buffer_write)\<^sup>*\<^sup>* (new_conn c, s) (new_conn c', s') \<and>
       conn_out c' = conn_out c @ fragment True (msg_bytes (base_reply (ucast q)) @ b) \<and>
       conn_in c' = rest \<and> \<not> closed c' \<and> procTable c' = procTableServer)"
proof -
  let ?req = "\<lparr>ServiceMethod = method_name r, Seq = ucast (ucast q :: u32)\<rparr>"
  let ?step = "conn_step G grow os buffer_write"
  from request_decoded [OF G r wr cl inp c, of grow] obtain c2 where
    read: "read_request G grow c = Inr (Some (?req, r), c2)" and c2: "conn_in c2 = rest" "\<not> closed c2" "conn_out c2 = conn_out c"
    "procTable c2 = procTableServer" by blast
  have meth: "\<not> rpc_error_method (method_name r)"
    using wr server_methods [of "method_name r"] cl by (auto simp: WriteRequest_def split: option.splits)
  have ok: "reply_ok reply" "ready c2 ?req" "procTable c2 \<noteq> []"
    using serve_reply_ok [OF exec_results [OF sv]] read_request_new(1) [OF read] c2(4) by (simp_all add: procTableServer_def)
  from send_reply_run [OF ok(1) _ ok(2,3), of G buffer_write] m obtain m b where
    h: "response_header (method_name r) (ucast (ucast q :: u32)) c2 = Inr m" and
    b: "\<forall>w. Marshal G buffer_write w (Some (rv_result (method_name r) reply)) = Inr (length b, None, w @ b)" and
    send: "length (msg_bytes m @ b) < 2 ^ 31 \<longrightarrow> send_reply G buffer_write ?req reply c2 =
       (case (if closed c2 then closed_write else buffer_write) (fragment True (msg_bytes m @ b)) (conn_out c2) of
          (n, err, out) \<Rightarrow> Inr (if err = None then c2\<lparr>conn_out := out\<rparr> else Close (c2\<lparr>conn_out := out\<rparr>)))"
    by auto
  have mb: "m = base_reply (ucast q)"
    using h header_normal [OF meth, of "ucast (ucast q :: u32)" c2] ucast_ucast_32 [of "ucast q"] by simp
  define c3 where "c3 = c2\<lparr>conn_out := conn_out c @ fragment True (msg_bytes (base_reply (ucast q)) @ b)\<rparr>"
  have "?step\<^sup>*\<^sup>* (new_conn c, s) (new_conn c3, s')" if "24 + length b < 2 ^ 31"
  proof -
    have "?step (new_conn c, s) (\<lparr>codec = c2, tasks = [(?req, r, serve os r)], reading = True\<rparr>, s)"
      using conn_step.read_next [of "new_conn c", OF _ ] read by (fastforce simp: new_conn_def intro: conn_step.read_next)
    moreover have "?step\<^sup>*\<^sup>* (\<lparr>codec = c2, tasks = [(?req, r, serve os r)], reading = True\<rparr>, s)
        (\<lparr>codec = c2, tasks = [(?req, r, ret reply)], reading = True\<rparr>, s')"
      using conn_exec [OF sv, of G grow os buffer_write c2 "[]" ?req r "[]"] by simp
    moreover have "send_reply G buffer_write ?req reply c2 = Inr c3"
      using send that c2(2,3) by (simp add: mb length_reply buffer_write_def c3_def)
    then have "?step (\<lparr>codec = c2, tasks = [(?req, r, ret reply)], reading = True\<rparr>, s') (new_conn c3, s')"
      using conn_step.send [of "\<lparr>codec = c2, tasks = [(?req, r, ret reply)], reading = True\<rparr>" "[]" ?req r reply "[]" G buffer_write c3]
      by (simp add: new_conn_def)
    ultimately show ?thesis by (meson r_into_rtranclp rtranclp_trans)
  qed
  with b c2 show ?thesis by (intro exI [of _ b] exI [of _ c3]) (simp add: c3_def)
qed

section \<open>The process stays in the export\<close>

lemma pool_of_listening: "pool_of (listening s) = ({#}, s)"
  by (simp add: pool_of_def listening_def)

text \<open>C2: From \<^verbatim>\<open>main\<close> on, whatever bytes arrive, the paths of the server are, as text, the export path followed by names (which
  may be \<^verbatim>\<open>..\<close>, see \<open>lookup_leaves_export\<close>).  When the checks at the start are passed and the
  process is in its accept loop, then in every state it reaches, whatever clients send over however many connections
  and however the actions of their requests are interleaved, the export path and the write access are those of the flags,
  every path in the handle table is the export path followed by names, and every property \<open>P\<close> of the world holds on that survives opening
  the log, the calls which look at paths below the export path and, if the export is writable, the calls which
  change things there (\<^verbatim>\<open>rmdir\<close> with any string behind the slash).\<close>

theorem gonfs_confined:
  assumes "startup G grow net os sh fl n w = Inr (Inr (cidr, s), n')"
    and "\<forall>w1. OpenLog sh (F_logFile fl) w = (True, w1) \<longrightarrow> P w1" and "P w"
    and "reads_keep os (F_exportPath fl) P" and "F_writeaccess fl \<longrightarrow> updates_keep os (F_exportPath fl) P" and "env_keeps env P"
    and "(proc_step G grow os conn sh cidr env)\<^sup>*\<^sup>* (listening s) p"
  shows "P (world (server p)) \<and> exportPath (config (backend (server p))) = F_exportPath fl \<and>
    writeaccess (config (backend (server p))) = F_writeaccess fl \<and>
    (\<forall>h q. fhandleMap (backend (server p)) h = Some q \<longrightarrow> confined (F_exportPath fl) q)"
proof -
  have "(pool_step os (\<lambda>_. True) env)\<^sup>*\<^sup>* ({#}, s) (fst (pool_of p), server p)"
    using process.runs_simulate [OF assms(7)] by (simp add: pool_of_def listening_def)
  from startup_sound [OF assms(1-6) this] show ?thesis by simp
qed

section \<open>Connections come to an end\<close>

text \<open>
  A bound on the steps a connection still makes: fifteen for each byte of input, for each call in progress the
  actions of its method and the answer, and the end of the loop and the closing.
\<close>

definition steps_ahead :: "('o, 'w) conn \<Rightarrow> nat" where
  "steps_ahead k = 15 * length (conn_in (codec k)) + (if reading k then 1 else 0) + (if closed (codec k) then 0 else 1)"

definition within :: "nat \<Rightarrow> ('o, 'w) conn \<Rightarrow> bool" where
  "within n k \<longleftrightarrow> (\<exists>ns. list_all2 (\<lambda>(req, r, m) a. takes m a) (tasks k) ns \<and> n = steps_ahead k + sum_list (map Suc ns))"

lemma within_fewer:
  assumes "within n k" and "steps_ahead k' < steps_ahead k" and "tasks k' = tasks k"
  shows "\<exists>m < n. within m k'"
proof -
  from assms(1) obtain ns where "list_all2 (\<lambda>(req, r, m) a. takes m a) (tasks k) ns" "n = steps_ahead k + sum_list (map Suc ns)"
    by (auto simp: within_def)
  with assms(2,3) show ?thesis
    by (intro exI [of _ "steps_ahead k' + sum_list (map Suc ns)"]) (auto simp: within_def)
qed

lemma within_task:
  assumes "within n k" and "tasks k = ts @ (req, r, m) # us"
  obtains as a bs where "list_all2 (\<lambda>(req, r, m) a. takes m a) ts as" "takes m a" "list_all2 (\<lambda>(req, r, m) a. takes m a) us bs"
    "n = steps_ahead k + sum_list (map Suc (as @ a # bs))"
  using assms by (auto simp: within_def list_all2_append1 list_all2_Cons1)

lemma conn_step_within: "conn_step G grow os conn (k, s) (k', s') \<Longrightarrow> within n k \<Longrightarrow> \<exists>m < n. within m k'"
proof (erule conn_stepE)
  fix req r c assume b: "reading k" "within n k" and k': "k' = k\<lparr>codec := c, tasks := tasks k @ [(req, r, serve os r)]\<rparr>"
    and r: "read_request G grow (codec k) = Inr (Some (req, r), c)"
  from b(2) obtain ns where ns: "list_all2 (\<lambda>(req, r, m) a. takes m a) (tasks k) ns" "n = steps_ahead k + sum_list (map Suc ns)"
    by (auto simp: within_def)
  have "list_all2 (\<lambda>(req, r, m) a. takes m a) (tasks k') (ns @ [13])"
    using ns(1) serve_takes [of os r] by (simp add: k' list_all2_appendI)
  then have "within (steps_ahead k' + sum_list (map Suc (ns @ [13]))) k'" unfolding within_def by blast
  moreover have "steps_ahead k' + 14 < steps_ahead k"
    using read_request_new(2,3) [OF r] by (simp add: k' steps_ahead_def)
  ultimately show ?thesis using ns(2) by (intro exI [of _ "steps_ahead k' + sum_list (map Suc (ns @ [13]))"]) simp
next
  fix c assume "reading k" "within n k" "k' = k\<lparr>codec := c, reading := False\<rparr>" and r: "read_request G grow (codec k) = Inr (None, c)"
  with read_request_keeps [OF r] show ?thesis by (intro within_fewer) (auto simp: steps_ahead_def)
next
  fix ts req r u m us assume "within n k" "tasks k = ts @ (req, r, act u m) # us" and k': "k' = k\<lparr>tasks := ts @ (req, r, m s) # us\<rparr>"
  from within_task [OF this(1,2)] obtain as a bs where
    *: "list_all2 (\<lambda>(req, r, m) a. takes m a) ts as" "takes (act u m) a" "list_all2 (\<lambda>(req, r, m) a. takes m a) us bs"
    "n = steps_ahead k + sum_list (map Suc (as @ a # bs))" .
  then obtain a' where a': "a = Suc a'" "takes (m s) a'" by auto
  with * have "list_all2 (\<lambda>(req, r, m) a. takes m a) (tasks k') (as @ a' # bs)" by (simp add: k' list_all2_appendI)
  then have "within (steps_ahead k' + sum_list (map Suc (as @ a' # bs))) k'" unfolding within_def by blast
  with * a' show ?thesis
    by (intro exI [of _ "steps_ahead k' + sum_list (map Suc (as @ a' # bs))"]) (simp add: k' steps_ahead_def)
next
  fix ts req r reply us c assume "within n k" "tasks k = ts @ (req, r, ret reply) # us" and k': "k' = k\<lparr>codec := c, tasks := ts @ us\<rparr>"
    and r: "send_reply G conn req reply (codec k) = Inr c"
  from within_task [OF this(1,2)] obtain as a bs where
    *: "list_all2 (\<lambda>(req, r, m) a. takes m a) ts as" "list_all2 (\<lambda>(req, r, m) a. takes m a) us bs"
    "n = steps_ahead k + sum_list (map Suc (as @ a # bs))" .
  then have "within (steps_ahead k' + sum_list (map Suc (as @ bs))) k'"
    unfolding within_def by (intro exI [of _ "as @ bs"]) (simp add: k' list_all2_appendI)
  moreover have "steps_ahead k' \<le> steps_ahead k" using send_reply_keeps [OF r] by (simp add: k' steps_ahead_def)
  ultimately show ?thesis using *(3) by (intro exI [of _ "steps_ahead k' + sum_list (map Suc (as @ bs))"]) simp
next
  assume "within n k" "\<not> closed (codec k)" "k' = k\<lparr>codec := Close (codec k)\<rparr>"
  then show ?thesis by (intro within_fewer) (simp_all add: steps_ahead_def Close_def)
qed

definition finished :: "('o, 'w) conn \<Rightarrow> bool" where
  "finished k \<longleftrightarrow> \<not> reading k \<and> tasks k = [] \<and> closed (codec k)"

lemma conn_progress: "finished k \<or> (\<exists>k' s'. conn_step G grow os conn (k, s) (k', s')) \<or> (\<exists>e. conn_crash G grow os conn (k, s) e)"
proof (cases "reading k")
  case True
  then show ?thesis
  proof (cases "read_request G grow (codec k)")
    case (Inr y)
    then obtain x c where y: "read_request G grow (codec k) = Inr (x, c)" by (cases y) simp
    then show ?thesis
    proof (cases x)
      case (Some z)
      with y True show ?thesis by (cases z) (blast intro: conn_step.read_next)
    qed (use y True in \<open>blast intro: conn_step.read_end\<close>)
  qed (blast intro: conn_crash.read_crash)
next
  case idle: False
  show ?thesis
  proof (cases "tasks k")
    case Nil
    with idle show ?thesis by (cases "closed (codec k)") (auto simp: finished_def intro: conn_step.close)
  next
    case (Cons t us)
    obtain req r m where t: "t = (req, r, m)" by (cases t)
    with Cons have k: "tasks k = [] @ (req, r, m) # us" "(req, r, m) \<in> set (tasks k)" by simp_all
    show ?thesis
    proof (cases m)
      case (ret reply)
      with k show ?thesis
        by (cases "send_reply G conn req reply (codec k)") (fast intro: conn_crash.send_crash conn_step.send)+
    qed (use k in \<open>fast intro: conn_crash.run_crash conn_step.run_method\<close>)+
  qed
qed

text \<open>C14: Every connection comes to an end: it makes at most fifteen steps for every byte its client sends, and two, however the
  backend changes between its steps (a request takes thirteen actions at most, besides reading it and answering);
  and as long as it has not closed with everything it read answered or dropped, it can make a step, unless a
  goroutine crashes.\<close>

theorem connection_ends:
  assumes "((\<lambda>k k'. \<exists>s s'. conn_step G grow os conn (k, s) (k', s')) ^^ n) (new_conn (NewServerCodec inp out table)) k"
  shows "n \<le> 15 * length inp + 2 \<and>
    (finished k \<or> (\<exists>k' s'. conn_step G grow os conn (k, s) (k', s')) \<or> (\<exists>e. conn_crash G grow os conn (k, s) e))"
proof -
  have "\<exists>m. within m k \<and> n + m \<le> N"
    if "((\<lambda>k k'. \<exists>s s'. conn_step G grow os conn (k, s) (k', s')) ^^ n) k0 k" and "within N k0" for k0 k n N
    using that
  proof (induction n arbitrary: k)
    case (Suc n)
    then obtain k1 s s' where k1: "((\<lambda>k k'. \<exists>s s'. conn_step G grow os conn (k, s) (k', s')) ^^ n) k0 k1"
      and step: "conn_step G grow os conn (k1, s) (k, s')" by auto
    from Suc.IH [OF k1 Suc.prems(2)] obtain m where m: "within m k1" "n + m \<le> N" by blast
    from conn_step_within [OF step m(1)] obtain m' where "m' < m" "within m' k" by blast
    with m(2) show ?case by (intro exI [of _ m']) simp
  qed auto
  moreover have "within (15 * length inp + 2) (new_conn (NewServerCodec inp out table))"
    by (simp add: within_def steps_ahead_def new_conn_def NewServerCodec_def)
  ultimately have "n \<le> 15 * length inp + 2" using assms by fastforce
  with conn_progress show ?thesis by blast
qed

section \<open>Every request is answered once\<close>

text \<open>The requests on a connection, as reading them one after the other finds them.\<close>

function requests_of :: "genv \<Rightarrow> (nat \<Rightarrow> nat \<Rightarrow> nat) \<Rightarrow> 'o serverCodec \<Rightarrow> (rpcRequest \<times> nfs_request) list" where
  "requests_of G grow c =
     (case read_request G grow c of Inr (Some x, c') \<Rightarrow> x # requests_of G grow c' | _ \<Rightarrow> [])"
  by pat_completeness auto
termination
  by (relation "measure (\<lambda>(G, grow, c). length (conn_in c))") (auto dest: read_request_new(2))

declare requests_of.simps [simp del]

lemma header_out:
  "ReadRequestHeader G grow req (c\<lparr>conn_out := out\<rparr>) =
     bindG (ReadRequestHeader G grow req c) (\<lambda>(req', err, c'). Inr (req', err, c'\<lparr>conn_out := out\<rparr>))"
proof (cases "ReadFullRecord grow (conn_in c)")
  case (Pair y rest)
  show ?thesis
  proof (cases y)
    case (Inl e)
    with Pair show ?thesis by (simp add: ReadRequestHeader_def)
  next
    case (Inr rcd)
    show ?thesis
    proof (cases "decode_header G rcd")
      case (Inr z)
      obtain call err rcd' where "z = (call, err, rcd')" by (cases z)
      moreover obtain meth ix where "dispatch (procTable c) (CBody call) = (meth, ix)" by fastforce
      ultimately show ?thesis using Pair \<open>y = Inr rcd\<close> Inr
        by (cases err; cases ix) (simp_all add: ReadRequestHeader_def Let_def)
    qed (use Pair Inr in \<open>simp add: ReadRequestHeader_def\<close>)
  qed
qed

lemma body_out:
  "ReadRequestBody G d a (c\<lparr>conn_out := out\<rparr>) =
     bindG (ReadRequestBody G d a c) (\<lambda>(arg, err, c'). Inr (arg, err, c'\<lparr>conn_out := out\<rparr>))"
proof (cases a)
  case (Some v)
  show ?thesis
  proof (cases "Unmarshal G d (recordReader c) (Some (RPtr TIface (Some (RIface (Some v)))))")
    case (Inr z)
    then show ?thesis by (cases z) (simp add: ReadRequestBody_def Some Let_def Close_def)
  qed (simp add: ReadRequestBody_def Some)
qed (simp add: ReadRequestBody_def)

lemma read_request_out:
  "read_request G grow (c\<lparr>conn_out := out\<rparr>) = bindG (read_request G grow c) (\<lambda>(x, c'). Inr (x, c'\<lparr>conn_out := out\<rparr>))"
proof (cases "closed c")
  case False
  show ?thesis
  proof (cases "ReadRequestHeader G grow zero_request c")
    case (Inr z)
    obtain req err c1 where z: "z = (req, err, c1)" by (cases z)
    show ?thesis
    proof (cases err)
      case None
      define T where "T = fst (method_entry (ServiceMethod req))"
      show ?thesis
        by (cases "ReadRequestBody G arg_depth (Some (RPtr T (Some (newval G T)))) c1")
          (use False Inr z None in \<open>auto simp: read_request_def header_out body_out T_def Let_def\<close>)
    qed (use False Inr z in \<open>simp add: read_request_def header_out\<close>)
  qed (use False in \<open>simp add: read_request_def header_out\<close>)
qed (simp add: read_request_def)

lemma requests_of_out: "requests_of G grow (c\<lparr>conn_out := out\<rparr>) = requests_of G grow c"
proof (induction G grow c rule: requests_of.induct)
  case (1 G grow c)
  show ?case
  proof (cases "read_request G grow c")
    case (Inr z)
    obtain x c' where z: "z = (x, c')" by (cases z)
    show ?thesis
      using 1 Inr z by (cases x) (simp_all add: requests_of.simps [of G grow c] requests_of.simps [of G grow "c\<lparr>conn_out := out\<rparr>"] read_request_out)
  qed (simp add: requests_of.simps [of G grow c] requests_of.simps [of G grow "c\<lparr>conn_out := out\<rparr>"] read_request_out)
qed

text \<open>
  The transaction id of a request, and a record that answers it: the id, the message type \<^verbatim>\<open>Reply\<close>, the words of the
  reply header as RFC 5531 numbers them (accepted, a verifier of no bytes, the status and what goes with it), and a
  reply the request's method can give, as the encoder writes it.  A request that dispatch could not place has the name of
  one of the error methods; a mismatch of the RPC version goes out as a success (see \<open>error_replies\<close>).
\<close>

definition reply_words :: "string \<Rightarrow> u32 list" where
  "reply_words meth =
     (if meth = ''NfsProc.ProgUnavail'' then [0, 0, 0, 1, 100003, 100005]
      else if meth = ''NfsProc.ProgMismatch'' then [0, 0, 0, 2, 3, 3]
      else if meth = ''NfsProc.ProcUnavail'' then [0, 0, 0, 3]
      else if meth = ''NfsProc.GarbageArgs'' then [0, 0, 0, 4]
      else if meth = ''NfsProc.SystemErr'' then [0, 0, 0, 5]
      else [0, 0, 0, 0])"

definition xid_of :: "rpcRequest \<Rightarrow> u32" where "xid_of req = ucast (Seq req)"

definition answers :: "genv \<Rightarrow> 'w os \<Rightarrow> rpcRequest \<times> nfs_request \<Rightarrow> bytes \<Rightarrow> bool" where
  "answers G os q rec \<longleftrightarrow> (\<exists>reply b. reply \<in> results (serve os (snd q)) \<and>
     Marshal G buffer_write [] (Some (rv_result (ServiceMethod (fst q)) reply)) = Inr (length b, None, b) \<and>
     rec = be32 (xid_of (fst q)) @ be32 1 @ concat (map be32 (reply_words (ServiceMethod (fst q)))) @ b)"

fun asked :: "'w task \<Rightarrow> rpcRequest \<times> nfs_request" where
  "asked (req, r, m) = (req, r)"

definition unread :: "genv \<Rightarrow> (nat \<Rightarrow> nat \<Rightarrow> nat) \<Rightarrow> ('o, 'w) conn \<Rightarrow> (rpcRequest \<times> nfs_request) multiset" where
  "unread G grow k = (if reading k then mset (requests_of G grow (codec k)) else {#})"

text \<open>What has been sent since \<open>out\<close> answers the requests of \<open>reqs\<close> that are neither unread nor in progress.\<close>

definition accounted ::
  "genv \<Rightarrow> (nat \<Rightarrow> nat \<Rightarrow> nat) \<Rightarrow> 'w os \<Rightarrow> bytes \<Rightarrow> (rpcRequest \<times> nfs_request) multiset \<Rightarrow> (bytes, 'w) conn \<Rightarrow> bool" where
  "accounted G grow os out reqs k \<longleftrightarrow>
     (\<exists>qs recs. conn_out (codec k) = out @ concat (map (fragment True) recs) \<and> list_all2 (answers G os) qs recs \<and>
        mset qs + mset (map asked (tasks k)) + unread G grow k = reqs)"

lemma accepted_header:
  "msg_bytes (base_reply x) = be32 x @ concat (map be32 [1, 0, 0, 0, 0])"
  "msg_bytes (set_rejected (base_reply x) g) = be32 x @ concat (map be32 [1, 0, 0, 0, 0])"
  "msg_bytes (set_accepted (base_reply x) f) = be32 x @ be32 1 @ be32 0 @ accepted_bytes (f (zero_accepted\<lparr>AStat := 0\<rparr>))"
  by (simp_all add: msg_bytes_def reply_bytes_def base_reply_def set_rejected_def set_accepted_def accepted_bytes_def auth_bytes_def
      opaque_bytes_def pad_len_def zero_msg rpc_consts)

lemma header_bytes:
  assumes "response_header meth s c = Inr m" and "procTable c = procTableServer"
  shows "msg_bytes m = be32 (ucast s) @ be32 1 @ concat (map be32 (reply_words meth))"
proof -
  have v: "PVersion (procTableServer ! nat i) = 3" if "\<not> (i < 0 \<or> int (length procTableServer) \<le> i)" for i
  proof -
    from that have "i = 0 \<or> i = 1" by (auto simp: procTableServer_def)
    then show ?thesis by (auto simp: procTableServer_def programs)
  qed
  have t: "procTableServer \<noteq> []" "PProgram (procTableServer ! 0) = 100003" "PProgram (last procTableServer) = 100005"
    by (simp_all add: procTableServer_def programs)
  note words = accepted_header accepted_bytes_def mismatch_bytes_def auth_bytes_def opaque_bytes_def pad_len_def zero_msg rpc_consts
  consider (unavail) "meth = ''NfsProc.ProgUnavail''" | (mismatch) "meth = ''NfsProc.ProgMismatch''" | (proc) "meth = ''NfsProc.ProcUnavail''"
    | (args) "meth = ''NfsProc.GarbageArgs''" | (sys) "meth = ''NfsProc.SystemErr''" | (rpc) "meth = ''NfsProc.RPCMismatch''"
    | (auth) "meth = ''NfsProc.AuthError''" | (normal) "\<not> rpc_error_method meth"
    by (auto simp: rpc_error_method_def)
  then show ?thesis
  proof cases
    case mismatch
    with assms have "\<not> (currentProgIndex c < 0 \<or> int (length procTableServer) \<le> currentProgIndex c)"
      by (auto simp: response_header_def Let_def split: if_splits)
    with assms mismatch v [OF this]
    have "m = set_accepted (base_reply (ucast s)) (\<lambda>a. a\<lparr>MismatchInfoV := \<lparr>Low = 3, High = 3\<rparr>, AStat := ProgMismatch\<rparr>)"
      by (simp add: response_header_def Let_def)
    with mismatch show ?thesis by (simp add: reply_words_def words)
  next
    case normal
    then have "reply_words meth = [0, 0, 0, 0]" by (auto simp: reply_words_def rpc_error_method_def)
    moreover have "m = base_reply (ucast s)" using assms(1) header_normal [OF normal, of s c] by simp
    ultimately show ?thesis by (simp add: accepted_header)
  next
    case unavail
    with assms t have "m = set_accepted (base_reply (ucast s)) (\<lambda>a. a\<lparr>MismatchInfoP := \<lparr>Low = 100003, High = 100005\<rparr>, AStat := ProgUnavail\<rparr>)" by (simp add: response_header_def Let_def)
    with unavail show ?thesis by (simp add: reply_words_def words)
  next
    case proc
    with assms t have "m = set_accepted (base_reply (ucast s)) (\<lambda>a. a\<lparr>AStat := ProcUnavail\<rparr>)" by (simp add: response_header_def Let_def)
    with proc show ?thesis by (simp add: reply_words_def words)
  next
    case args
    with assms t have "m = set_accepted (base_reply (ucast s)) (\<lambda>a. a\<lparr>AStat := GarbageArgs\<rparr>)" by (simp add: response_header_def Let_def)
    with args show ?thesis by (simp add: reply_words_def words)
  next
    case sys
    with assms t have "m = set_accepted (base_reply (ucast s)) (\<lambda>a. a\<lparr>AStat := SystemErr\<rparr>)" by (simp add: response_header_def Let_def)
    with sys show ?thesis by (simp add: reply_words_def words)
  next
    case rpc
    with assms t have "m = set_rejected (base_reply (ucast s)) (\<lambda>r. r\<lparr>MismatchInfo := \<lparr>Low = 2, High = 2\<rparr>, RStat := RPCMismatch\<rparr>)" by (simp add: response_header_def Let_def)
    with rpc show ?thesis by (simp add: reply_words_def words)
  next
    case auth
    with assms t have "m = set_rejected (base_reply (ucast s)) (\<lambda>r. r\<lparr>RAuthStat := AuthBadcred, RStat := AuthError\<rparr>)" by (simp add: response_header_def Let_def)
    with auth show ?thesis by (simp add: reply_words_def words)
  qed
qed

lemma send_accounts:
  assumes ok: "conn_ok os k" and ts: "tasks k = ts @ (req, r, ret reply) # us"
    and s: "send_reply G buffer_write req reply (codec k) = Inr c" and c: "\<not> closed c"
  shows "\<exists>rec. answers G os (req, r) rec \<and> c = codec k\<lparr>conn_out := conn_out (codec k) @ fragment True rec\<rparr>"
proof -
  from send_dump [of req G buffer_write reply "codec k"] s c have nd: "ServiceMethod req \<noteq> dump_method" by (auto simp: Close_def)
  have nc: "\<not> closed (codec k)" using send_reply_keeps [OF s] c by blast
  have fin: "reply_ok reply" "ready (codec k) req" "procTable (codec k) \<noteq> []" "reply \<in> results (serve os r)"
    using conn_ok_finished [OF ok, of req r reply] ts by simp_all
  from send_reply_run [OF fin(1) nd fin(2,3), of G buffer_write] obtain m b where
    m: "response_header (ServiceMethod req) (Seq req) (codec k) = Inr m" and
    b: "\<forall>w. Marshal G buffer_write w (Some (rv_result (ServiceMethod req) reply)) = Inr (length b, None, w @ b)" and
    run: "length (msg_bytes m @ b) < 2 ^ 31 \<longrightarrow> send_reply G buffer_write req reply (codec k) =
       (case (if closed (codec k) then closed_write else buffer_write) (fragment True (msg_bytes m @ b)) (conn_out (codec k)) of
          (n, err, out) \<Rightarrow> Inr (if err = None then codec k\<lparr>conn_out := out\<rparr> else Close (codec k\<lparr>conn_out := out\<rparr>)))" by blast
  have "send_reply G buffer_write req reply (codec k) = Inl Panic" if "2 ^ 31 \<le> length (msg_bytes m @ b)"
    using WriteFullRecord_big [OF that, of "conn_out (codec k)"] m b nc
    by (simp add: send_reply_def WriteResponse_def Marshal_msg_to)
  with s run nc have c': "c = codec k\<lparr>conn_out := conn_out (codec k) @ fragment True (msg_bytes m @ b)\<rparr>"
    by (cases "length (msg_bytes m @ b) < 2 ^ 31") (simp_all add: buffer_write_def not_less del: length_append)
  have "procTable (codec k) = procTableServer" using ok by (simp add: conn_ok_def)
  from header_bytes [OF m this] have "answers G os (req, r) (msg_bytes m @ b)"
    unfolding answers_def using fin(4) b [rule_format, of "[]"] by (intro exI [of _ reply] exI [of _ b]) (simp add: xid_of_def)
  with c' show ?thesis by blast
qed

lemma conn_step_accounts:
  assumes "conn_step G grow os buffer_write (k, s) (k', s')" and "conn_ok os k" and "accounted G grow os out reqs k"
  shows "closed (codec k') \<or> accounted G grow os out reqs k'"
  using assms(1)
proof (cases rule: conn_step.cases)
  case (read_next req r c)
  then have "requests_of G grow (codec k) = (req, r) # requests_of G grow c" by (simp add: requests_of.simps [of G grow "codec k"])
  with read_next read_request_keeps [OF read_next(4)] assms(3) show ?thesis
    by (auto simp: accounted_def unread_def ac_simps)
next
  case (read_end c)
  then have "requests_of G grow (codec k) = []" by (simp add: requests_of.simps [of G grow "codec k"])
  with read_end read_request_keeps [OF read_end(4)] assms(3) show ?thesis by (auto simp: accounted_def unread_def)
next
  case (run_method ts req r u m us)
  have "accounted G grow os out reqs k' = accounted G grow os out reqs k" unfolding accounted_def unread_def run_method by simp
  with assms(3) show ?thesis by simp
next
  case (send ts req r reply us c)
  show ?thesis
  proof (cases "closed c")
    case False
    from send_accounts [OF assms(2) send(3,4) False] obtain rec where
      rec: "answers G os (req, r) rec" "c = codec k\<lparr>conn_out := conn_out (codec k) @ fragment True rec\<rparr>" by blast
    from assms(3) obtain qs recs where a: "conn_out (codec k) = out @ concat (map (fragment True) recs)" "list_all2 (answers G os) qs recs"
      "mset qs + mset (map asked (tasks k)) + unread G grow k = reqs" by (auto simp: accounted_def)
    have "unread G grow k' = unread G grow k" using send(1) rec(2) by (simp add: unread_def requests_of_out)
    with a rec send(1,3) have "accounted G grow os out reqs k'"
      unfolding accounted_def
      by (intro exI [of _ "qs @ [(req, r)]"] exI [of _ "recs @ [rec]"]) (simp add: list_all2_appendI ac_simps)
    then show ?thesis ..
  qed (use send in simp)
qed (simp add: Close_def)

lemma connection_answers:
  assumes "(\<lambda>k k'. \<exists>s s'. conn_step G grow os buffer_write (k, s) (k', s'))\<^sup>*\<^sup>* (new_conn (NewServerCodec inp out procTableServer)) k"
    and "\<not> closed (codec k)"
  shows "\<exists>qs recs. conn_out (codec k) = out @ concat (map (fragment True) recs) \<and> list_all2 (answers G os) qs recs \<and>
    mset qs + mset (map asked (tasks k)) + mset (if reading k then requests_of G grow (codec k) else []) =
    mset (requests_of G grow (NewServerCodec inp out procTableServer))"
proof -
  let ?c = "NewServerCodec inp out procTableServer"
  let ?reqs = "mset (requests_of G grow ?c)"
  from assms(1) have "conn_ok os k \<and> (closed (codec k) \<or> accounted G grow os out ?reqs k)"
  proof (induction rule: rtranclp_induct)
    case base
    have "accounted G grow os out ?reqs (new_conn ?c)"
      unfolding accounted_def by (intro exI [of _ "[]"]) (simp add: new_conn_def unread_def NewServerCodec_def)
    then show ?case by (simp add: conn_ok_def new_conn_def NewServerCodec_def)
  next
    case (step k1 k2)
    then obtain s s' where st: "conn_step G grow os buffer_write (k1, s) (k2, s')" by blast
    have "closed (codec k1) \<Longrightarrow> closed (codec k2)"
      using st by (cases rule: conn_step.cases) (auto dest: read_request_keeps send_reply_keeps)
    with step.IH conn_step_ok [OF st] conn_step_accounts [OF st] show ?case by blast
  qed
  with assms(2) have "accounted G grow os out ?reqs k" by blast
  then show ?thesis by (simp add: accounted_def unread_def if_distrib cong: if_cong)
qed

text \<open>C12: A connection answers every request once.  In every state it reaches before it is closed, what it has sent is a
  sequence of whole records, each the answer to a request that arrived: its transaction id, the reply header for its
  method, word by word, and the encoding of a reply its method can give.  The requests answered, in progress and unread are
  together the requests in the input: none is lost, none answered twice.  When the input is used up and no call is in
  progress, the records are the answers to all of them, in the order the calls finished.\<close>

theorem requests_answered:
  assumes "(\<lambda>k k'. \<exists>s s'. conn_step G grow os buffer_write (k, s) (k', s'))\<^sup>*\<^sup>* (new_conn (NewServerCodec inp out procTableServer)) k"
    and "\<not> closed (codec k)"
  shows "\<exists>qs recs. conn_out (codec k) = out @ concat (map (fragment True) recs) \<and> list_all2 (answers G os) qs recs \<and>
    mset qs + mset (map asked (tasks k)) + mset (if reading k then requests_of G grow (codec k) else []) =
    mset (requests_of G grow (NewServerCodec inp out procTableServer))"
  using connection_answers [OF assms] .

section \<open>Who is served\<close>




section \<open>Concrete runs\<close>

text \<open>A client's call of procedure \<open>j\<close> of the \<open>i\<close>-th program with encoded arguments \<open>b\<close>, and the connection it comes in on.\<close>

definition toy_call :: "nat \<Rightarrow> nat \<Rightarrow> bytes \<Rightarrow> bytes" where
  "toy_call i j b = fragment True (msg_bytes (call_msg 7 (procTableServer ! i) j) @ b)"

definition toy_codec :: "bytes \<Rightarrow> bytes serverCodec" where
  "toy_codec inp = NewServerCodec inp [] procTableServer"

lemma toy_write:
  assumes "find_method (method_name r) procTableServer 0 None = Some (i, j)" and e: "enc_to G d (rv_args r) b"
    and v: "d \<le> Suc (vdepth (rv_args r))" and "\<not> is_ptr (rv_args r)" and "length b < 1000"
  shows "WriteRequest G buffer_write \<lparr>ServiceMethod = method_name r, Seq = 7\<rparr>
      (Some (RPtr (fst (method_entry (method_name r))) (Some (rv_args r)))) (NewClientCodec [] [] procTableServer) =
    Inr (None, (NewClientCodec [] [] procTableServer)\<lparr>cl_out := toy_call i j b\<rparr>)"
proof -
  have l: "length (msg_bytes (call_msg 7 (procTableServer ! i) j) @ b) < 2 ^ 31" using assms(5) by (simp add: length_call)
  show ?thesis
    using Marshal_iface_enc_to [OF e v assms(4)] assms(1) l
    by (simp add: WriteRequest_def NewClientCodec_def Marshal_msg_ptr one_fragment buffer_write_def toy_call_def fragment_def)
qed

lemma length_toy_call: "length (toy_call i j b) = 44 + length b"
  by (simp add: toy_call_def fragment_def length_call)

lemma toy_decoded:
  assumes "find_method (method_name r) procTableServer 0 None = Some (i, j)" and "enc_to sample_env d (rv_args r) b"
    and "d \<le> Suc (vdepth (rv_args r))" and "\<not> is_ptr (rv_args r)" and "length b < 1000" and "request_ok r"
  shows "\<exists>c'. read_request sample_env grow_double (toy_codec (toy_call i j b)) =
      Inr (Some (\<lparr>ServiceMethod = method_name r, Seq = 7\<rparr>, r), c') \<and> conn_in c' = [] \<and> \<not> closed c' \<and> conn_out c' = []"
proof -
  have "ucast (ucast (7 :: u64) :: u32) = (7 :: u64)" by simp
  with request_decoded [OF sample_ok(1) assms(6) toy_write [OF assms(1-5)], of "toy_codec (toy_call i j b)" "[]" grow_double] assms(5)
  show ?thesis
    by (auto simp: NewClientCodec_def toy_codec_def NewServerCodec_def length_toy_call maxRecordSize_def)
qed

text \<open>MNT of \<^verbatim>\<open>/d\<close>, a null call, GETATTR with an empty handle.\<close>

definition toy_mnt :: bytes where "toy_mnt = toy_call 1 1 (opaque_bytes (string_bytes ''/d''))"
definition toy_null :: bytes where "toy_null = toy_call 0 0 []"
definition toy_getattr :: bytes where "toy_getattr = toy_call 0 1 (be32 0)"

definition null_request :: nfs_request where "null_request = QVoid ''NfsProc.Nfsproc3_null_3_svc''"

lemma toy_finds:
  "find_method (method_name (QMnt p)) procTableServer 0 None = Some (1, 1)"
  "find_method (method_name null_request) procTableServer 0 None = Some (0, 0)"
  "find_method (method_name (QGetattr h)) procTableServer 0 None = Some (0, 1)"
  by (simp_all add: procTableServer_def Mount3ProcList_def Nfs3ProcList_def null_request_def)

lemma toy_encodes:
  "enc_to G 1 (rv_args (QMnt p)) (opaque_bytes (string_bytes p))" "enc_to G 1 (rv_args null_request) []"
  "enc_to G 3 (rv_args (QGetattr [])) (be32 0)"
proof -
  show "enc_to G 1 (rv_args (QMnt p)) (opaque_bytes (string_bytes p))" by (simp add: enc_to_string)
  show "enc_to G 1 (rv_args null_request) []"
  proof -
    have "fields_to G 0 '''' [] []" by (rule fields_to_Nil)
    from enc_to_struct [OF this] show ?thesis by (simp add: null_request_def)
  qed
  have "fields_to G 1 '''' [(xtag '''', rv_bytes [])] (opaque_bytes [] @ [])"
    by (intro fields_to_plain fields_to_Nil enc_to_bytes rv_not_ptr)
  from enc_to_struct [OF this] have "enc_to G 2 (rv_fh []) (be32 0)"
    by (simp add: rv_fh_def opaque_bytes_def numeral_2_eq_2)
  then have "fields_to G 2 '''' [(xtag '''', rv_fh [])] (be32 0 @ [])"
    by (intro fields_to_plain fields_to_Nil) (simp_all add: rv_fh_def)
  from enc_to_struct [OF this] show "enc_to G 3 (rv_args (QGetattr [])) (be32 0)"
    by (simp add: numeral_3_eq_3 numeral_2_eq_2)
qed

lemma toy_reads_calls:
  "\<exists>c. read_request sample_env grow_double (toy_codec toy_mnt) =
     Inr (Some (\<lparr>ServiceMethod = ''NfsProc.Mountproc_mnt_3_svc'', Seq = 7\<rparr>, QMnt ''/d''), c) \<and> conn_in c = [] \<and> \<not> closed c \<and> conn_out c = []"
  "\<exists>c. read_request sample_env grow_double (toy_codec toy_null) =
     Inr (Some (\<lparr>ServiceMethod = ''NfsProc.Nfsproc3_null_3_svc'', Seq = 7\<rparr>, null_request), c) \<and> conn_in c = [] \<and> \<not> closed c \<and> conn_out c = []"
  "\<exists>c. read_request sample_env grow_double (toy_codec toy_getattr) =
     Inr (Some (\<lparr>ServiceMethod = ''NfsProc.Nfsproc3_getattr_3_svc'', Seq = 7\<rparr>, QGetattr []), c) \<and> conn_in c = [] \<and> \<not> closed c \<and> conn_out c = []"
proof -
  have v: "1 \<le> Suc (vdepth v)" for v by simp
  have n: "map_of nfs_methods ''NfsProc.Nfsproc3_null_3_svc'' = None" by (simp add: nfs_methods_def)
  have g: "3 \<le> Suc (vdepth (rv_args (QGetattr [])))" by (simp add: rv_fh_def rv_bytes_def maxl_def)
  show "\<exists>c. read_request sample_env grow_double (toy_codec toy_mnt) =
     Inr (Some (\<lparr>ServiceMethod = ''NfsProc.Mountproc_mnt_3_svc'', Seq = 7\<rparr>, QMnt ''/d''), c) \<and> conn_in c = [] \<and> \<not> closed c \<and> conn_out c = []"
    using toy_decoded [OF toy_finds(1) toy_encodes(1) v, of "''/d''"] by (simp add: toy_mnt_def opaque_bytes_def pad_len_def len31_def)
  show "\<exists>c. read_request sample_env grow_double (toy_codec toy_null) =
     Inr (Some (\<lparr>ServiceMethod = ''NfsProc.Nfsproc3_null_3_svc'', Seq = 7\<rparr>, null_request), c) \<and> conn_in c = [] \<and> \<not> closed c \<and> conn_out c = []"
    using toy_decoded [OF toy_finds(2) toy_encodes(2) v] n by (simp add: toy_null_def null_request_def)
  show "\<exists>c. read_request sample_env grow_double (toy_codec toy_getattr) =
     Inr (Some (\<lparr>ServiceMethod = ''NfsProc.Nfsproc3_getattr_3_svc'', Seq = 7\<rparr>, QGetattr []), c) \<and> conn_in c = [] \<and> \<not> closed c \<and> conn_out c = []"
    using toy_decoded [OF toy_finds(3) toy_encodes(3) g] by (simp add: toy_getattr_def len31_def)
qed

text \<open>The process with one connection, after reading its call and, for MNT, running it.\<close>

abbreviation toy_proc :: "(bytes, event list) process \<Rightarrow> (bytes, event list) process \<Rightarrow> bool" where
  "toy_proc \<equiv> proc_step sample_env grow_double toy_os buffer_write toy_shell () (\<lambda>_ _. False)"

lemma toy_accepts: "toy_proc (listening s) \<lparr>conns = [new_conn (toy_codec inp)], server = s\<rparr>"
proof -
  have "accepted_conn toy_shell () ''10.0.0.1'' inp [] = Some (toy_codec inp)"
    by (simp add: accepted_conn_def toy_shell_def toy_codec_def)
  from proc_step.accept [OF this, of sample_env grow_double toy_os buffer_write "\<lambda>_ _. False" "listening s"] show ?thesis
    by (simp add: listening_def)
qed

lemma toy_conn:
  "conn_step sample_env grow_double toy_os buffer_write (k, s) (k', s') \<Longrightarrow>
     toy_proc \<lparr>conns = [k], server = s\<rparr> \<lparr>conns = [k'], server = s'\<rparr>"
  using proc_step.on_conn [of 0 "\<lparr>conns = [k], server = s\<rparr>" sample_env grow_double toy_os buffer_write k' s' toy_shell "()" "\<lambda>_ _. False"]
  by simp

lemma toy_first:
  assumes "conn_step sample_env grow_double toy_os buffer_write (new_conn (toy_codec inp), s) (k, s')"
  shows "toy_proc\<^sup>*\<^sup>* (listening s) \<lparr>conns = [k], server = s'\<rparr>"
  by (rule converse_rtranclp_into_rtranclp [OF toy_accepts r_into_rtranclp [of toy_proc, OF toy_conn [OF assms]]])

lemma toy_takes:
  assumes "read_request sample_env grow_double (toy_codec inp) = Inr (Some (req, r), c)"
  shows "conn_step sample_env grow_double toy_os buffer_write (new_conn (toy_codec inp), s)
    (\<lparr>codec = c, tasks = [(req, r, serve toy_os r)], reading = True\<rparr>, s)"
  using conn_step.read_next [of "new_conn (toy_codec inp)" sample_env grow_double req r c toy_os buffer_write s] assms
  by (simp add: new_conn_def)

lemma toy_conns:
  assumes "(conn_step sample_env grow_double toy_os buffer_write)\<^sup>*\<^sup>* (k, s) (k', s')"
  shows "toy_proc\<^sup>*\<^sup>* \<lparr>conns = [k], server = s\<rparr> \<lparr>conns = [k'], server = s'\<rparr>"
  using assms
proof (induction "(k', s')" arbitrary: k' s' rule: rtranclp_induct)
  case (step y)
  then show ?case by (cases y) (auto intro: rtranclp.rtrancl_into_rtrancl toy_conn)
qed simp

lemma toy_mount_process:
  "\<exists>p. toy_proc\<^sup>*\<^sup>* (listening (toy_started True)) p \<and> server p = toy_mounted True"
proof -
  obtain c where r: "read_request sample_env grow_double (toy_codec toy_mnt) =
     Inr (Some (\<lparr>ServiceMethod = ''NfsProc.Mountproc_mnt_3_svc'', Seq = 7\<rparr>, QMnt ''/d''), c)" using toy_reads_calls(1) by blast
  obtain reply where m: "exec (serve toy_os (QMnt ''/d'')) (toy_started True) = Inr (reply, toy_mounted True)" using toy_mounts by blast
  let ?req = "\<lparr>ServiceMethod = ''NfsProc.Mountproc_mnt_3_svc'', Seq = 7 :: u64\<rparr>"
  note start = toy_first [OF toy_takes [OF r, of "toy_started True"]]
  have "toy_proc\<^sup>*\<^sup>* \<lparr>conns = [\<lparr>codec = c, tasks = [(?req, QMnt ''/d'', serve toy_os (QMnt ''/d''))], reading = True\<rparr>], server = toy_started True\<rparr>
      \<lparr>conns = [\<lparr>codec = c, tasks = [(?req, QMnt ''/d'', ret reply)], reading = True\<rparr>], server = toy_mounted True\<rparr>"
    using toy_conns [OF conn_exec [OF m, of _ _ _ _ _ "[]" _ _ "[]"]] by simp
  from rtranclp_trans [OF start this] show ?thesis by fastforce
qed

text \<open>The null call, from its bytes to the bytes of its reply.\<close>

lemma toy_null_sent:
  assumes "\<not> closed c" and "conn_out c = []"
  shows "send_reply sample_env buffer_write \<lparr>ServiceMethod = ''NfsProc.Nfsproc3_null_3_svc'', Seq = 7\<rparr> PVoid c =
    Inr (c\<lparr>conn_out := fragment True (msg_bytes (base_reply 7))\<rparr>)"
proof -
  have h: "response_header ''NfsProc.Nfsproc3_null_3_svc'' 7 c = Inr (base_reply 7)"
    using header_normal [of "''NfsProc.Nfsproc3_null_3_svc''" 7 c] by (simp add: rpc_error_method_def)
  have b: "Marshal sample_env buffer_write w (Some (rv_result ''NfsProc.Nfsproc3_null_3_svc'' PVoid)) = Inr (0, None, w)" for w
    by (simp add: rv_result_def dump_method_def Marshal_def Encode_def encode_kind_def encodeStruct_def doneE_def maxl_def)
  have l: "length (msg_bytes (base_reply 7)) < 2 ^ 31" by (simp add: length_reply)
  show ?thesis
    using assms h b one_fragment [OF l, of buffer_write "[]"] by (simp add: send_reply_def WriteResponse_def Marshal_msg_to buffer_write_def fragment_def)
qed

abbreviation toy_step :: "(bytes, event list) conn \<Rightarrow> (bytes, event list) conn \<Rightarrow> bool" where
  "toy_step \<equiv> \<lambda>k k'. \<exists>s s'. conn_step sample_env grow_double toy_os buffer_write (k, s) (k', s')"

lemma toy_null_run:
  "\<exists>c1 c3. toy_step (new_conn (toy_codec toy_null))
       \<lparr>codec = c1, tasks = [(\<lparr>ServiceMethod = ''NfsProc.Nfsproc3_null_3_svc'', Seq = 7\<rparr>, null_request, ret PVoid)], reading = True\<rparr> \<and>
     toy_step\<^sup>*\<^sup>* (new_conn (toy_codec toy_null)) (new_conn c3) \<and>
     \<not> closed c3 \<and> conn_in c3 = [] \<and> conn_out c3 = fragment True (msg_bytes (base_reply 7))"
proof -
  let ?req = "\<lparr>ServiceMethod = ''NfsProc.Nfsproc3_null_3_svc'', Seq = 7 :: u64\<rparr>"
  obtain c where r: "read_request sample_env grow_double (toy_codec toy_null) = Inr (Some (?req, null_request), c)"
    and c: "conn_in c = []" "\<not> closed c" "conn_out c = []" using toy_reads_calls(2) by blast
  define c3 where "c3 = c\<lparr>conn_out := fragment True (msg_bytes (base_reply 7))\<rparr>"
  let ?k = "\<lparr>codec = c, tasks = [(?req, null_request, ret PVoid)], reading = True\<rparr>"
  have served: "serve toy_os null_request = ret PVoid" by (simp add: null_request_def)
  have 1: "toy_step (new_conn (toy_codec toy_null)) ?k"
    using toy_takes [OF r] by (auto simp: served)
  have "conn_step sample_env grow_double toy_os buffer_write (?k, s) (new_conn c3, s)" for s
    using conn_step.send [of ?k "[]" ?req null_request PVoid "[]" sample_env buffer_write c3]
      toy_null_sent [OF c(2,3)] by (simp add: new_conn_def c3_def)
  then have 2: "toy_step ?k (new_conn c3)" by blast
  have "toy_step\<^sup>*\<^sup>* (new_conn (toy_codec toy_null)) (new_conn c3)"
    by (rule converse_rtranclp_into_rtranclp [OF 1 r_into_rtranclp [of toy_step, OF 2]])
  with 1 c show ?thesis by (intro exI [of _ c] exI [of _ c3]) (simp add: c3_def)
qed

lemma toy_null_requests:
  "requests_of sample_env grow_double (toy_codec toy_null) = [(\<lparr>ServiceMethod = ''NfsProc.Nfsproc3_null_3_svc'', Seq = 7\<rparr>, null_request)]"
proof -
  obtain c where r: "read_request sample_env grow_double (toy_codec toy_null) =
      Inr (Some (\<lparr>ServiceMethod = ''NfsProc.Nfsproc3_null_3_svc'', Seq = 7\<rparr>, null_request), c)"
    and c: "conn_in c = []" using toy_reads_calls(2) by blast
  have "\<not> length (conn_in c') < length (conn_in c)" for c' :: "bytes serverCodec" using c by simp
  then have "requests_of sample_env grow_double c = []"
    using read_request_new(2) [of sample_env grow_double c] by (fastforce simp: requests_of.simps [of _ _ c] split: sum.split option.split)
  with r show ?thesis by (simp add: requests_of.simps [of _ _ "toy_codec toy_null"])
qed

lemma request_served_witness:
  "\<exists>c'. (conn_step sample_env grow_double toy_os buffer_write)\<^sup>*\<^sup>* (new_conn (toy_codec toy_null), toy_started True) (new_conn c', toy_started True) \<and>
     conn_out c' = fragment True (msg_bytes (base_reply 7)) \<and> conn_in c' = []"
proof -
  have v: "1 \<le> Suc (vdepth (rv_args null_request))" by simp
  have ok: "request_ok null_request" "method_name null_request \<noteq> dump_method"
    by (simp_all add: null_request_def nfs_methods_def dump_method_def)
  have w: "\<not> is_ptr (rv_args null_request)" "length ([] :: bytes) < 1000" by (simp_all add: null_request_def)
  have sv: "exec (serve toy_os null_request) (toy_started True) = Inr (PVoid, toy_started True)" by (simp add: null_request_def)
  have b: "Marshal sample_env buffer_write [] (Some (rv_result (method_name null_request) PVoid)) = Inr (0, None, [])"
    by (simp add: null_request_def rv_result_def dump_method_def Marshal_def Encode_def encode_kind_def encodeStruct_def doneE_def maxl_def)
  from request_served [OF sample_ok(1) ok toy_write [OF toy_finds(2) toy_encodes(2) v w] _ _ _ _ _ sv,
      of "toy_codec toy_null" "[]" grow_double] b
  show ?thesis
    by (auto simp: NewClientCodec_def toy_codec_def NewServerCodec_def length_toy_call maxRecordSize_def toy_null_def)
qed

theorem requests_answered_witness:
  "\<exists>c recs. conn_out c = concat (map (fragment True) recs) \<and> toy_step\<^sup>*\<^sup>* (new_conn (toy_codec toy_null)) (new_conn c) \<and>
     list_all2 (answers sample_env toy_os) [(\<lparr>ServiceMethod = ''NfsProc.Nfsproc3_null_3_svc'', Seq = 7\<rparr>, null_request)] recs"
proof -
  obtain c where run: "toy_step\<^sup>*\<^sup>* (new_conn (toy_codec toy_null)) (new_conn c)"
    and c: "\<not> closed c" "conn_in c = []" using toy_null_run by blast
  have "requests_of sample_env grow_double c = []"
    using read_request_new(2) [of sample_env grow_double c] c(2)
    by (fastforce simp: requests_of.simps [of _ _ c] split: sum.split option.split)
  with requests_answered [OF run [unfolded toy_codec_def]] c toy_null_requests obtain qs recs
    where "conn_out c = concat (map (fragment True) recs)" "list_all2 (answers sample_env toy_os) qs recs"
      "mset qs = {#(\<lparr>ServiceMethod = ''NfsProc.Nfsproc3_null_3_svc'', Seq = 7\<rparr>, null_request)#}"
    by (auto simp: new_conn_def toy_codec_def)
  with run show ?thesis by (intro exI [of _ c] exI [of _ recs]) (simp add: mset_single_iff)
qed

theorem connection_ends_witness: "\<exists>k. toy_step (new_conn (toy_codec toy_null)) k \<and> (1 :: nat) \<le> 15 * length toy_null + 2"
proof -
  obtain k where k: "toy_step (new_conn (toy_codec toy_null)) k" using toy_null_run by blast
  then have "(toy_step ^^ 1) (new_conn (NewServerCodec toy_null [] procTableServer)) k"
    by (simp add: toy_codec_def relpowp_1 del: One_nat_def)
  from connection_ends [OF this] k show ?thesis by blast
qed


theorem gonfs_confined_witness:
  "\<exists>p. toy_proc\<^sup>*\<^sup>* (listening (toy_started True)) p \<and> confined_events ''/d'' (world (server p)) \<and>
     fhandleMap (backend (server p)) toy_root = Some ''/d''"
proof -
  obtain n' where st: "startup sample_env grow_double toy_net toy_os toy_shell toy_flags ([((100003, 3, 6), 2049)], []) [] =
     Inr (Inr ((), toy_started True), n')" using toy_startup by blast
  obtain p where p: "toy_proc\<^sup>*\<^sup>* (listening (toy_started True)) p" "server p = toy_mounted True" using toy_mount_process by blast
  from gonfs_confined [OF st _ _ _ _ _ p(1), of "confined_events ''/d''"] toy_reads(1) [of "''/d''"] toy_updates [of "''/d''"] p
  show ?thesis by (intro exI [of _ p]) (simp add: env_keeps_def confined_events_def toy_mounted_def toy_flags_def toy_shell_def)
qed

theorem process_safe_witness:
  "\<exists>p. toy_proc\<^sup>*\<^sup>* (listening (toy_started True)) p \<and> proc_crash sample_env grow_double toy_os buffer_write p (InConn 0) Panic \<and>
     (method_crashed (conns p ! 0) Panic \<or> huge_reply sample_env (conns p ! 0))"
proof -
  let ?req = "\<lparr>ServiceMethod = ''NfsProc.Nfsproc3_getattr_3_svc'', Seq = 7 :: u64\<rparr>"
  obtain c where r: "read_request sample_env grow_double (toy_codec toy_getattr) = Inr (Some (?req, QGetattr []), c)"
    using toy_reads_calls(3) by blast
  have "serve toy_os (QGetattr []) = crash Panic"
    by (simp add: mapR_def Nfsproc3_getattr_3_svc_def handle_def of_le64_def)
  note start = toy_takes [OF r, of "toy_started True", unfolded this]
  let ?p = "\<lparr>conns = [\<lparr>codec = c, tasks = [(?req, QGetattr [], crash Panic)], reading = True\<rparr>], server = toy_started True\<rparr>"
  have run: "toy_proc\<^sup>*\<^sup>* (listening (toy_started True)) ?p" by (rule toy_first [OF start])
  have "conn_crash sample_env grow_double toy_os buffer_write (conns ?p ! 0, server ?p) Panic"
    by (auto intro: conn_crash.run_crash)
  then have crash: "proc_crash sample_env grow_double toy_os buffer_write ?p (InConn 0) Panic"
    by (rule proc_crash.conn_crashes [rotated]) simp
  from process_safe [OF sample_ok(1) run crash] run crash show ?thesis by auto
qed

end
