(* ===== verification/Nfs_Results.thy ===== *)
theory Nfs_Results
  imports Nfs_Replies
begin

text \<open>
  The results of the procedures as a client reads them: the types of \<^verbatim>\<open>nfs3/nfstypdef.go\<close> a reply is decoded into, that every
  reply of the server has the type its method declares, and what is left of a reply once it has gone over the wire
  (the arm of each union that was not sent is zero).
\<close>

section \<open>The result types\<close>

definition Fattr3_type :: gotype where
  "Fattr3_type = TStruct [(xtag '''', TI32), (xtag '''', TU32), (xtag '''', TU32), (xtag '''', TU32), (xtag '''', TU32),
     (xtag '''', TU64), (xtag '''', TU64), (xtag '''', Specdata3_type), (xtag '''', TU64), (xtag '''', TU64),
     (xtag '''', Nfstime3_type), (xtag '''', Nfstime3_type), (xtag '''', Nfstime3_type)]"

definition Post_op_attr_type :: gotype where
  "Post_op_attr_type = TStruct [(xtag ''union'', TBool), (xtag ''unioncase=1'', Fattr3_type)]"

definition Wcc_attr_type :: gotype where
  "Wcc_attr_type = TStruct [(xtag '''', TU64), (xtag '''', Nfstime3_type), (xtag '''', Nfstime3_type)]"

definition Pre_op_attr_type :: gotype where
  "Pre_op_attr_type = TStruct [(xtag ''union'', TBool), (xtag ''unioncase=1'', Wcc_attr_type)]"

definition Wcc_data_type :: gotype where
  "Wcc_data_type = TStruct [(xtag '''', Pre_op_attr_type), (xtag '''', Post_op_attr_type)]"

definition Post_op_fh3_type :: gotype where
  "Post_op_fh3_type = TStruct [(xtag ''union'', TBool), (xtag ''unioncase=1'', Nfs_fh3_type)]"

text \<open>A structure with one field, and a result with its two structures.\<close>

definition wrap_type :: "gotype \<Rightarrow> gotype" where "wrap_type T = TStruct [(xtag '''', T)]"

definition res_type :: "gotype \<Rightarrow> gotype \<Rightarrow> gotype" where
  "res_type ok fail = TStruct [(xtag ''union'', TU32), (xtag ''unioncase=0'', ok), (xtag ''unionnotcase=0'', fail)]"

definition GETATTR3res_type :: gotype where
  "GETATTR3res_type = TStruct [(xtag ''union'', TU32), (xtag ''unioncase=0'', wrap_type Fattr3_type)]"

definition SETATTR3res_type :: gotype where
  "SETATTR3res_type = res_type (wrap_type Wcc_data_type) (wrap_type Wcc_data_type)"

definition LOOKUP3res_type :: gotype where
  "LOOKUP3res_type = res_type (TStruct [(xtag '''', Nfs_fh3_type), (xtag '''', Post_op_attr_type), (xtag '''', Post_op_attr_type)])
     (wrap_type Post_op_attr_type)"

definition ACCESS3res_type :: gotype where
  "ACCESS3res_type = res_type (TStruct [(xtag '''', Post_op_attr_type), (xtag '''', TU32)]) (wrap_type Post_op_attr_type)"

definition READLINK3res_type :: gotype where
  "READLINK3res_type = res_type (TStruct [(xtag '''', Post_op_attr_type), (xtag '''', TString)]) (wrap_type Post_op_attr_type)"

definition READ3res_type :: gotype where
  "READ3res_type = res_type (TStruct [(xtag '''', Post_op_attr_type), (xtag '''', TU32), (xtag '''', TBool), (xtag '''', TBytes)])
     (wrap_type Post_op_attr_type)"

definition WRITE3res_type :: gotype where
  "WRITE3res_type = res_type (TStruct [(xtag '''', Wcc_data_type), (xtag '''', TU32), (xtag '''', TI32), (xtag '''', TVerf)])
     (wrap_type Wcc_data_type)"

definition created_type :: gotype where
  "created_type = TStruct [(xtag '''', Post_op_fh3_type), (xtag '''', Post_op_attr_type), (xtag '''', Wcc_data_type)]"

definition CREATE3res_type :: gotype where "CREATE3res_type = res_type created_type (wrap_type Wcc_data_type)"

definition MKDIR3res_type :: gotype where "MKDIR3res_type = res_type created_type (wrap_type Wcc_data_type)"

definition SYMLINK3res_type :: gotype where "SYMLINK3res_type = res_type created_type (wrap_type Wcc_data_type)"

definition MKNOD3res_type :: gotype where "MKNOD3res_type = res_type created_type (wrap_type Wcc_data_type)"

definition REMOVE3res_type :: gotype where "REMOVE3res_type = res_type (wrap_type Wcc_data_type) (wrap_type Wcc_data_type)"

definition RMDIR3res_type :: gotype where "RMDIR3res_type = res_type (wrap_type Wcc_data_type) (wrap_type Wcc_data_type)"

definition RENAME3res_type :: gotype where
  "RENAME3res_type = res_type (TStruct [(xtag '''', Wcc_data_type), (xtag '''', Wcc_data_type)])
     (TStruct [(xtag '''', Wcc_data_type), (xtag '''', Wcc_data_type)])"

definition LINK3res_type :: gotype where
  "LINK3res_type = res_type (TStruct [(xtag '''', Post_op_attr_type), (xtag '''', Wcc_data_type)])
     (TStruct [(xtag '''', Post_op_attr_type), (xtag '''', Wcc_data_type)])"

definition Entry3_type :: gotype where
  "Entry3_type = TStruct [(xtag '''', TU64), (xtag '''', TString), (xtag '''', TU64), (xtag ''optional'', TPtr (TNamed ''Entry3''))]"

definition Dirlist3_type :: gotype where
  "Dirlist3_type = TStruct [(xtag ''optional'', TPtr (TNamed ''Entry3'')), (xtag '''', TBool)]"

definition READDIR3res_type :: gotype where
  "READDIR3res_type = res_type (TStruct [(xtag '''', Post_op_attr_type), (xtag '''', TVerf), (xtag '''', Dirlist3_type)])
     (wrap_type Post_op_attr_type)"

definition Entryplus3_type :: gotype where
  "Entryplus3_type = TStruct [(xtag '''', TU64), (xtag '''', TString), (xtag '''', TU64), (xtag '''', Post_op_attr_type),
     (xtag '''', Post_op_fh3_type), (xtag '''', TPtr (TNamed ''Entryplus3''))]"

definition Dirlistplus3_type :: gotype where
  "Dirlistplus3_type = TStruct [(xtag '''', TPtr (TNamed ''Entryplus3'')), (xtag '''', TBool)]"

definition READDIRPLUS3res_type :: gotype where
  "READDIRPLUS3res_type = res_type (TStruct [(xtag '''', Post_op_attr_type), (xtag '''', TVerf), (xtag '''', Dirlistplus3_type)])
     (wrap_type Post_op_attr_type)"

definition FSSTAT3res_type :: gotype where
  "FSSTAT3res_type = res_type (TStruct [(xtag '''', Post_op_attr_type), (xtag '''', TU64), (xtag '''', TU64), (xtag '''', TU64),
     (xtag '''', TU64), (xtag '''', TU64), (xtag '''', TU64), (xtag '''', TU32)]) (wrap_type Post_op_attr_type)"

definition FSINFO3res_type :: gotype where
  "FSINFO3res_type = res_type (TStruct [(xtag '''', Post_op_attr_type), (xtag '''', TU32), (xtag '''', TU32), (xtag '''', TU32),
     (xtag '''', TU32), (xtag '''', TU32), (xtag '''', TU32), (xtag '''', TU32), (xtag '''', TU64), (xtag '''', Nfstime3_type),
     (xtag '''', TU32)]) (wrap_type Post_op_attr_type)"

definition PATHCONF3res_type :: gotype where
  "PATHCONF3res_type = res_type (TStruct [(xtag '''', Post_op_attr_type), (xtag '''', TU32), (xtag '''', TU32), (xtag '''', TBool),
     (xtag '''', TBool), (xtag '''', TBool), (xtag '''', TBool)]) (wrap_type Post_op_attr_type)"

definition COMMIT3res_type :: gotype where
  "COMMIT3res_type = res_type (TStruct [(xtag '''', Wcc_data_type), (xtag '''', TVerf)]) (wrap_type Wcc_data_type)"

definition Mountres3_type :: gotype where
  "Mountres3_type = TStruct [(xtag ''union'', TI32), (xtag ''unioncase=0'', TStruct [(xtag '''', TBytes), (xtag '''', TSlice TI32)])]"

definition Groupnode_type :: gotype where
  "Groupnode_type = TStruct [(xtag '''', TString), (xtag ''optional'', TPtr (TNamed ''Groupnode''))]"

definition Exportnode_type :: gotype where
  "Exportnode_type = TStruct [(xtag '''', TString), (xtag ''optional'', TPtr (TNamed ''Groupnode'')),
     (xtag ''optional'', TPtr (TNamed ''Exportnode''))]"

definition Exports_type :: gotype where
  "Exports_type = TStruct [(xtag ''optional'', TPtr (TNamed ''Exportnode''))]"

lemmas part_types = Fattr3_type_def Post_op_attr_type_def Wcc_attr_type_def Pre_op_attr_type_def Wcc_data_type_def
  Post_op_fh3_type_def wrap_type_def res_type_def created_type_def Dirlist3_type_def Dirlistplus3_type_def

lemmas result_types = GETATTR3res_type_def SETATTR3res_type_def LOOKUP3res_type_def ACCESS3res_type_def READLINK3res_type_def
  READ3res_type_def WRITE3res_type_def CREATE3res_type_def MKDIR3res_type_def SYMLINK3res_type_def MKNOD3res_type_def
  REMOVE3res_type_def RMDIR3res_type_def RENAME3res_type_def LINK3res_type_def READDIR3res_type_def READDIRPLUS3res_type_def
  FSSTAT3res_type_def FSINFO3res_type_def PATHCONF3res_type_def COMMIT3res_type_def Mountres3_type_def Exports_type_def

text \<open>The result type of each method; the others have \<^verbatim>\<open>Void\<close>.\<close>

definition nfs_results :: "(string \<times> gotype) list" where
  "nfs_results =
     [(''NfsProc.Nfsproc3_getattr_3_svc'', GETATTR3res_type), (''NfsProc.Nfsproc3_setattr_3_svc'', SETATTR3res_type),
      (''NfsProc.Nfsproc3_lookup_3_svc'', LOOKUP3res_type), (''NfsProc.Nfsproc3_access_3_svc'', ACCESS3res_type),
      (''NfsProc.Nfsproc3_readlink_3_svc'', READLINK3res_type), (''NfsProc.Nfsproc3_read_3_svc'', READ3res_type),
      (''NfsProc.Nfsproc3_write_3_svc'', WRITE3res_type), (''NfsProc.Nfsproc3_create_3_svc'', CREATE3res_type),
      (''NfsProc.Nfsproc3_mkdir_3_svc'', MKDIR3res_type), (''NfsProc.Nfsproc3_symlink_3_svc'', SYMLINK3res_type),
      (''NfsProc.Nfsproc3_mknod_3_svc'', MKNOD3res_type), (''NfsProc.Nfsproc3_remove_3_svc'', REMOVE3res_type),
      (''NfsProc.Nfsproc3_rmdir_3_svc'', RMDIR3res_type), (''NfsProc.Nfsproc3_rename_3_svc'', RENAME3res_type),
      (''NfsProc.Nfsproc3_link_3_svc'', LINK3res_type), (''NfsProc.Nfsproc3_readdir_3_svc'', READDIR3res_type),
      (''NfsProc.Nfsproc3_readdirplus_3_svc'', READDIRPLUS3res_type), (''NfsProc.Nfsproc3_fsstat_3_svc'', FSSTAT3res_type),
      (''NfsProc.Nfsproc3_fsinfo_3_svc'', FSINFO3res_type), (''NfsProc.Nfsproc3_pathconf_3_svc'', PATHCONF3res_type),
      (''NfsProc.Nfsproc3_commit_3_svc'', COMMIT3res_type), (''NfsProc.Mountproc_mnt_3_svc'', Mountres3_type),
      (''NfsProc.Mountproc_dump_3_svc'', TPtr (TNamed ''Mountbody'')), (''NfsProc.Mountproc_export_3_svc'', Exports_type)]"

definition result_type :: "string \<Rightarrow> gotype" where
  "result_type m = (case map_of nfs_results m of Some T \<Rightarrow> T | None \<Rightarrow> Void_type)"

text \<open>The named types the chains of entries go through, as the program declares them.\<close>

definition names_ok :: "genv \<Rightarrow> bool" where
  "names_ok G \<longleftrightarrow> named G ''Entry3'' = Some Entry3_type \<and> named G ''Entryplus3'' = Some Entryplus3_type \<and>
     named G ''Groupnode'' = Some Groupnode_type \<and> named G ''Exportnode'' = Some Exportnode_type"

section \<open>Every reply has the type of its method\<close>

lemma typed_parts [simp]:
  "has_type G Fattr3_type (rv_fattr a)" "has_type G Post_op_attr_type (rv_post p)" "has_type G Wcc_attr_type (rv_wcc_attr wa)"
  "has_type G Pre_op_attr_type (rv_pre pr)" "has_type G Wcc_data_type (rv_wcc w)" "has_type G Post_op_fh3_type (rv_post_fh pf)"
  "has_type G (wrap_type T) (rv_wrap v) = has_type G T v"
proof -
  show a: "has_type G Fattr3_type (rv_fattr a)" for a by (simp add: rv_fattr_def Fattr3_type_def)
  show p: "has_type G Post_op_attr_type (rv_post p)" for p using a by (simp add: rv_post_def Post_op_attr_type_def)
  show wa: "has_type G Wcc_attr_type (rv_wcc_attr wa)" for wa by (simp add: rv_wcc_attr_def Wcc_attr_type_def)
  show pr: "has_type G Pre_op_attr_type (rv_pre pr)" for pr using wa by (simp add: rv_pre_def Pre_op_attr_type_def)
  show "has_type G Wcc_data_type (rv_wcc w)" using p pr by (simp add: rv_wcc_def Wcc_data_type_def)
  show "has_type G Post_op_fh3_type (rv_post_fh pf)" by (simp add: rv_post_fh_def Post_op_fh3_type_def)
  show "has_type G (wrap_type T) (rv_wrap v) = has_type G T v" by (simp add: rv_wrap_def wrap_type_def)
qed

lemma typed_res:
  "has_type G okT (ok (Resok r)) \<Longrightarrow> has_type G failT (fail (Resfail r)) \<Longrightarrow> has_type G (res_type okT failT) (rv_res ok fail r)"
  by (simp add: res_type_def rv_res_def)

lemma typed_chains:
  assumes "names_ok G"
  shows "has_type G (TPtr (TNamed ''Entry3'')) (rv_entries es)" "has_type G (TPtr (TNamed ''Entryplus3'')) (rv_entriesplus ps)"
    "has_type G (TPtr (TNamed ''Groupnode'')) (rv_groups gs)" "has_type G (TPtr (TNamed ''Exportnode'')) (rv_exports ex)"
proof -
  note names = assms [unfolded names_ok_def]
  show "has_type G (TPtr (TNamed ''Entry3'')) (rv_entries es)"
    by (induction es) (simp_all add: resolve_def names Entry3_type_def)
  show "has_type G (TPtr (TNamed ''Entryplus3'')) (rv_entriesplus ps)"
    by (induction ps) (simp_all add: resolve_def names Entryplus3_type_def)
  show gs: "has_type G (TPtr (TNamed ''Groupnode'')) (rv_groups gs)" for gs
    by (induction gs) (simp_all add: resolve_def names Groupnode_type_def)
  show "has_type G (TPtr (TNamed ''Exportnode'')) (rv_exports ex)"
    using gs by (induction ex) (simp_all add: resolve_def names Exportnode_type_def)
qed

text \<open>The verifiers are arrays of eight bytes.\<close>

fun verfs_ok :: "nfs_reply \<Rightarrow> bool" where
  "verfs_ok (PWrite r) = (length (WrVerf (Resok r)) = 8)"
| "verfs_ok (PReaddir r) = (length (RdrCookieverf (Resok r)) = 8)"
| "verfs_ok (PReaddirplus r) = (length (RprCookieverf (Resok r)) = 8)"
| "verfs_ok (PCommit r) = (length (CmVerf (Resok r)) = 8)"
| "verfs_ok _ = True"

text \<open>The replies a method can give.\<close>

fun answers_method :: "nfs_request \<Rightarrow> nfs_reply \<Rightarrow> bool" where
  "answers_method (QVoid m) r = (r = PVoid)"
| "answers_method (QGetattr _) r = (\<exists>x. r = PGetattr x)"
| "answers_method (QLookup _) r = (\<exists>x. r = PLookup x)"
| "answers_method (QAccess _) r = (\<exists>x. r = PAccess x)"
| "answers_method (QReadlink _) r = (\<exists>x. r = PReadlink x)"
| "answers_method (QRead _) r = (\<exists>x. r = PRead x)"
| "answers_method (QWrite _) r = (\<exists>x. r = PWrite x)"
| "answers_method (QCreate _) r = (\<exists>x. r = PCreate x)"
| "answers_method (QMkdir _) r = (\<exists>x. r = PCreate x)"
| "answers_method (QSymlink _) r = (\<exists>x. r = PCreate x)"
| "answers_method (QMknod _) r = (\<exists>x. r = PCreate x)"
| "answers_method (QRename _) r = (\<exists>x. r = PRename x)"
| "answers_method (QLink _) r = (\<exists>x. r = PLink x)"
| "answers_method (QReaddir _) r = (\<exists>x. r = PReaddir x)"
| "answers_method (QReaddirplus _) r = (\<exists>x. r = PReaddirplus x)"
| "answers_method (QFsstat _) r = (\<exists>x. r = PFsstat x)"
| "answers_method (QFsinfo _) r = (\<exists>x. r = PFsinfo x)"
| "answers_method (QPathconf _) r = (\<exists>x. r = PPathconf x)"
| "answers_method (QCommit _) r = (\<exists>x. r = PCommit x)"
| "answers_method (QMnt _) r = (\<exists>x. r = PMnt x)"
| "answers_method (QUmnt _) r = (r = PVoid)"
| "answers_method QExport r = (\<exists>x. r = PExport x)"
| "answers_method _ r = (\<exists>x. r = PWcc x)"

lemma serve_answers: "reply \<in> results (serve os req) \<Longrightarrow> answers_method req reply"
  by (cases req) (auto simp: mapR_def split: if_splits)

text \<open>The frames of the handlers keep a property of the reply that does not depend on the other parts of it.\<close>

abbreviation replies :: "('w, 'st \<times> 'r) run \<Rightarrow> ('r \<Rightarrow> bool) \<Rightarrow> bool" where
  "replies m \<phi> \<equiv> ends always (\<lambda>_. True) m (\<lambda>x. \<phi> (snd x))"

lemma replies_with_file: "replies m \<phi> \<Longrightarrow> replies (with_file os f m) \<phi>"
  unfolding with_file_def by (erule ends_bind) (rule inv_intro | simp)+

lemma replies_on_object:
  "\<phi> r \<Longrightarrow> (\<And>a. \<phi> (put a r)) \<Longrightarrow> (\<And>p a. replies (body p (put a r)) \<phi>) \<Longrightarrow> replies (on_object os h get put r body) \<phi>"
  unfolding on_object_def by (rule inv_first inv_intro | simp)+

lemma replies_on_writable:
  "\<phi> r \<Longrightarrow> (\<And>fa a. \<phi> (set_before okw fa r\<lparr>Resfail := a\<rparr>)) \<Longrightarrow> (\<And>p fa. replies (body p fa (set_before okw fa r)) \<phi>) \<Longrightarrow>
   replies (on_writable os h okw r body) \<phi>"
  unfolding on_writable_def Let_def by (rule inv_first inv_intro | simp)+

lemma replies_after:
  "(\<And>a. \<phi> (r\<lparr>Resfail := a\<rparr>)) \<Longrightarrow> replies (fail_after os clear p h st r) \<phi>"
  "(\<And>f. \<phi> (r\<lparr>Resok := upd f (Resok r)\<rparr>)) \<Longrightarrow> replies (ok_after os clear p h get upd st r) \<phi>"
  unfolding fail_after_def ok_after_def poststat_def by (rule inv_first inv_intro | simp)+

lemma Commit_verf: "length (CmVerf (Resok r)) = 8 \<Longrightarrow> replies (Commit os h r) (\<lambda>r. length (CmVerf (Resok r)) = 8)"
  unfolding Commit_def Let_def by (rule inv_first inv_intro | simp)+

lemma Write_verf: "length (WrVerf (Resok r)) = 8 \<Longrightarrow> replies (Write os h off n st data r) (\<lambda>r. length (WrVerf (Resok r)) = 8)"
  unfolding Write_def write_open_def
  by (rule replies_on_writable replies_with_file replies_after inv_first inv_intro | simp add: set_before_def)+

lemma Readdir_verf: "length (RdrCookieverf (Resok r)) = 8 \<Longrightarrow> replies (ReadDir os h c n r) (\<lambda>r. length (RdrCookieverf (Resok r)) = 8)"
  unfolding ReadDir_def readdir_open_def getDotAndDotDot_def poststat_def Let_def
  by (rule replies_on_object replies_with_file inv_first inv_intro | simp)+

lemma Readdirplus_verf: "length (RprCookieverf (Resok r)) = 8 \<Longrightarrow> replies (ReadDirPlus os h r) (\<lambda>r. length (RprCookieverf (Resok r)) = 8)"
  unfolding ReadDirPlus_def by (rule replies_on_object inv_first inv_intro | simp)+

lemma zero_verfs:
  "length (CmVerf (Resok zero_commit)) = 8" "length (WrVerf (Resok zero_write)) = 8"
  "length (RdrCookieverf (Resok zero_readdir)) = 8" "length (RprCookieverf (Resok zero_readdirplus)) = 8"
  by (simp_all add: zero_defs)

lemmas reply_verfs = Commit_verf [OF zero_verfs(1)] Write_verf [OF zero_verfs(2)] Readdir_verf [OF zero_verfs(3)]
  Readdirplus_verf [OF zero_verfs(4)]

lemma serve_verfs: "reply \<in> results (serve os req) \<Longrightarrow> verfs_ok reply"
  by (cases req) (auto simp: mapR_def svc_defs with_status_def split: if_splits dest!: reply_verfs [unfolded ends_results, THEN bspec])

text \<open>
  What a method can give, and the type it declares.
\<close>

lemmas rv_results = rv_getattr_def rv_wcc_res_def rv_lookup_def rv_access_def rv_readlink_def rv_read_def rv_write_def rv_create_def
  rv_rename_def rv_link_def rv_readdirplus_def rv_fsinfo_def rv_fsstat_def rv_pathconf_def rv_commit_def

lemma typed_dirlist: "names_ok G \<Longrightarrow> has_type G Dirlist3_type (rv_dirlist l)"
  using typed_chains [of G] by (simp add: rv_dirlist_def Dirlist3_type_def)

lemma typed_readdir:
  assumes "names_ok G" and "length (RdrCookieverf (Resok r)) = 8"
  shows "has_type G READDIR3res_type (rv_readdir r)"
  using assms typed_dirlist typed_args(5) [of "RdrCookieverf (Resok r)" G]
  by (simp add: READDIR3res_type_def res_type_def rv_readdir_def rv_readdirok_def rv_readdirfail_def wrap_type_def rv_verf_def)

lemma typed_reply:
  assumes "names_ok G" and "answers_method req reply" and "verfs_ok reply" and "method_name req \<noteq> dump_method"
    and "\<And>m. req = QVoid m \<Longrightarrow> map_of nfs_results m = None"
  shows "has_type G (result_type (method_name req)) (rv_nfs_reply reply)"
  using assms
  by (cases req) (auto simp: result_type_def nfs_results_def typed_readdir result_types(1-15,17-) rv_results rv_mount_def Void_type_def
      typed_chains Dirlistplus3_type_def created_type_def Let_def intro!: typed_res)

section \<open>What goes over the wire\<close>

definition sent_post :: "Post_op_attr \<Rightarrow> Post_op_attr" where
  "sent_post p = (if Attributes_follow p then p else zero_post)"

definition sent_pre :: "Pre_op_attr \<Rightarrow> Pre_op_attr" where
  "sent_pre p = (if PreAttributes_follow p then p else WBefore zero_wcc)"

definition sent_wcc :: "Wcc_data \<Rightarrow> Wcc_data" where
  "sent_wcc w = \<lparr>WBefore = sent_pre (WBefore w), WAfter = sent_post (WAfter w)\<rparr>"

definition sent_post_fh :: "Post_op_fh3 \<Rightarrow> Post_op_fh3" where
  "sent_post_fh p = (if Handle_follows p then p else \<lparr>Handle_follows = False, Handle = []\<rparr>)"

definition sent_entryplus :: "Entryplus3 \<Rightarrow> Entryplus3" where
  "sent_entryplus e = e\<lparr>Name_attributes := sent_post (Name_attributes e), Name_handle := sent_post_fh (Name_handle e)\<rparr>"

text \<open>Of the two structures of a result the one for its status is sent.\<close>

definition sent_res :: "('ok, 'fail) res3 \<Rightarrow> ('ok \<Rightarrow> 'ok) \<Rightarrow> ('fail \<Rightarrow> 'fail) \<Rightarrow> ('ok, 'fail) res3 \<Rightarrow> ('ok, 'fail) res3" where
  "sent_res z ok fail r =
     (if Status r = 0 then \<lparr>Status = 0, Resok = ok (Resok r), Resfail = Resfail z\<rparr>
      else \<lparr>Status = Status r, Resok = Resok z, Resfail = fail (Resfail r)\<rparr>)"

fun sent_nfs_reply :: "nfs_reply \<Rightarrow> nfs_reply" where
  "sent_nfs_reply (PGetattr r) = PGetattr (sent_res zero_getattr (\<lambda>a. a) (\<lambda>u. u) r)"
| "sent_nfs_reply (PWcc r) = PWcc (sent_res zero_wcc_res sent_wcc sent_wcc r)"
| "sent_nfs_reply (PLookup r) = PLookup (sent_res zero_lookup
     (\<lambda>k. k\<lparr>LkObj_attributes := sent_post (LkObj_attributes k), LkDir_attributes := sent_post (LkDir_attributes k)\<rparr>) sent_post r)"
| "sent_nfs_reply (PAccess r) = PAccess (sent_res zero_access
     (\<lambda>k. k\<lparr>AcObj_attributes := sent_post (AcObj_attributes k)\<rparr>) sent_post r)"
| "sent_nfs_reply (PReadlink r) = PReadlink (sent_res zero_readlink
     (\<lambda>k. k\<lparr>RlSymlink_attributes := sent_post (RlSymlink_attributes k)\<rparr>) sent_post r)"
| "sent_nfs_reply (PRead r) = PRead (sent_res zero_read
     (\<lambda>k. k\<lparr>RdFile_attributes := sent_post (RdFile_attributes k)\<rparr>) sent_post r)"
| "sent_nfs_reply (PWrite r) = PWrite (sent_res zero_write (\<lambda>k. k\<lparr>WrFile_wcc := sent_wcc (WrFile_wcc k)\<rparr>) sent_wcc r)"
| "sent_nfs_reply (PCreate r) = PCreate (sent_res zero_create
     (\<lambda>k. k\<lparr>CrObj := sent_post_fh (CrObj k), CrObj_attributes := sent_post (CrObj_attributes k), CrDir_wcc := sent_wcc (CrDir_wcc k)\<rparr>)
     sent_wcc r)"
| "sent_nfs_reply (PRename r) = PRename (let arm = (\<lambda>k. k\<lparr>Fromdir_wcc := sent_wcc (Fromdir_wcc k), Todir_wcc := sent_wcc (Todir_wcc k)\<rparr>)
     in sent_res zero_rename arm arm r)"
| "sent_nfs_reply (PLink r) = PLink (let arm = (\<lambda>k. k\<lparr>LnFile_attributes := sent_post (LnFile_attributes k), Linkdir_wcc := sent_wcc (Linkdir_wcc k)\<rparr>)
     in sent_res zero_link arm arm r)"
| "sent_nfs_reply (PReaddir r) = PReaddir (sent_res zero_readdir
     (\<lambda>k. k\<lparr>RdDir_attributes := sent_post (RdDir_attributes k)\<rparr>) sent_post r)"
| "sent_nfs_reply (PReaddirplus r) = PReaddirplus (sent_res zero_readdirplus
     (\<lambda>k. k\<lparr>RpDir_attributes := sent_post (RpDir_attributes k),
       RpReply := (RpReply k)\<lparr>PEntries := map sent_entryplus (PEntries (RpReply k))\<rparr>\<rparr>) sent_post r)"
| "sent_nfs_reply (PFsstat r) = PFsstat (sent_res zero_fsstat
     (\<lambda>k. k\<lparr>FsObj_attributes := sent_post (FsObj_attributes k)\<rparr>) sent_post r)"
| "sent_nfs_reply (PFsinfo r) = PFsinfo (sent_res zero_fsinfo
     (\<lambda>k. k\<lparr>FiObj_attributes := sent_post (FiObj_attributes k)\<rparr>) sent_post r)"
| "sent_nfs_reply (PPathconf r) = PPathconf (sent_res zero_pathconf
     (\<lambda>k. k\<lparr>PcObj_attributes := sent_post (PcObj_attributes k)\<rparr>) sent_post r)"
| "sent_nfs_reply (PCommit r) = PCommit (sent_res zero_commit (\<lambda>k. k\<lparr>CmFile_wcc := sent_wcc (CmFile_wcc k)\<rparr>) sent_wcc r)"
| "sent_nfs_reply (PMnt r) = PMnt (if Fhs_status r = 0 then r else r\<lparr>Mountinfo := Mountinfo zero_mount\<rparr>)"
| "sent_nfs_reply r = r"

lemma part_kinds [simp]:
  "type_of (rv_fattr a) = Fattr3_type" "type_of (rv_post p) = Post_op_attr_type" "type_of (rv_wcc_attr wa) = Wcc_attr_type"
  "type_of (rv_wcc w) = Wcc_data_type" "type_of (rv_post_fh pf) = Post_op_fh3_type" "type_of (rv_fh h) = Nfs_fh3_type"
  "type_of (rv_wrap v) = wrap_type (type_of v)" "type_of (rv_entries es) = TPtr (TNamed ''Entry3'')"
  "type_of (rv_entriesplus ps) = TPtr (TNamed ''Entryplus3'')" "type_of (rv_dirlist l) = Dirlist3_type"
proof -
  show e: "type_of (rv_entries es) = TPtr (TNamed ''Entry3'')" for es by (cases es) simp_all
  show "type_of (rv_entriesplus ps) = TPtr (TNamed ''Entryplus3'')" by (cases ps) simp_all
  show "type_of (rv_dirlist l) = Dirlist3_type" using e by (simp add: rv_dirlist_def Dirlist3_type_def)
  show "type_of (rv_fh h) = Nfs_fh3_type" by (simp add: rv_fh_def Nfs_fh3_type_def)
  show "type_of (rv_wrap v) = wrap_type (type_of v)" by (simp add: rv_wrap_def wrap_type_def)
  show "type_of (rv_fattr a) = Fattr3_type" "type_of (rv_post p) = Post_op_attr_type" "type_of (rv_wcc_attr wa) = Wcc_attr_type"
    "type_of (rv_wcc w) = Wcc_data_type" "type_of (rv_post_fh pf) = Post_op_fh3_type"
    by (rule has_type_type_of [OF typed_parts(1)] has_type_type_of [OF typed_parts(2)] has_type_type_of [OF typed_parts(3)]
        has_type_type_of [OF typed_parts(5)] has_type_type_of [OF typed_parts(6)])+
qed

lemma part_zeros [simp]:
  "zero Fattr3_type = rv_fattr zero_fattr" "zero Post_op_attr_type = rv_post zero_post"
  "zero Wcc_attr_type = rv_wcc_attr \<lparr>WSize = 0, WMtime = zero_time, WCtime = zero_time\<rparr>" "zero Wcc_data_type = rv_wcc zero_wcc"
  "zero Nfs_fh3_type = rv_fh []" "zero (wrap_type T) = rv_wrap (zero T)" "RSlice (TUint Uint8) [] [] = rv_bytes []"
  "zero Post_op_fh3_type = rv_post_fh \<lparr>Handle_follows = False, Handle = []\<rparr>" "zero Dirlist3_type = rv_dirlist \<lparr>Entries = [], DEof = False\<rparr>"
  "RInt Int32 0 = rv_i32 0"
proof -
  show i: "RInt Int32 0 = rv_i32 0" by (simp add: rv_i32_def)
  show a: "zero Fattr3_type = rv_fattr zero_fattr" by (simp add: Fattr3_type_def rv_fattr_def zero_fattr_def i)
  show p: "zero Post_op_attr_type = rv_post zero_post" by (simp add: Post_op_attr_type_def rv_post_def zero_post_def a)
  show w: "zero Wcc_attr_type = rv_wcc_attr \<lparr>WSize = 0, WMtime = zero_time, WCtime = zero_time\<rparr>"
    by (simp add: Wcc_attr_type_def rv_wcc_attr_def)
  show "zero Wcc_data_type = rv_wcc zero_wcc"
    by (simp add: Wcc_data_type_def Pre_op_attr_type_def rv_wcc_def rv_pre_def zero_wcc_def w p)
  show b: "RSlice (TUint Uint8) [] [] = rv_bytes []" by (simp add: rv_bytes_def)
  show h: "zero Nfs_fh3_type = rv_fh []" by (simp add: Nfs_fh3_type_def rv_fh_def b)
  show "zero (wrap_type T) = rv_wrap (zero T)" by (simp add: wrap_type_def rv_wrap_def)
  show "zero Post_op_fh3_type = rv_post_fh \<lparr>Handle_follows = False, Handle = []\<rparr>" by (simp add: Post_op_fh3_type_def rv_post_fh_def h)
  show "zero Dirlist3_type = rv_dirlist \<lparr>Entries = [], DEof = False\<rparr>" by (simp add: Dirlist3_type_def rv_dirlist_def)
qed

lemma part_indirect [simp]:
  "indirect (rv_fattr a) = rv_fattr a" "indirect (rv_post p) = rv_post p" "indirect (rv_wcc_attr wa) = rv_wcc_attr wa"
  "indirect (rv_pre pr) = rv_pre pr" "indirect (rv_wcc w) = rv_wcc w" "indirect (rv_post_fh pf) = rv_post_fh pf"
  "indirect (rv_wrap v) = rv_wrap v" "indirect (rv_dirlist l) = rv_dirlist l"
  by (simp_all add: rv_fattr_def rv_post_def rv_wcc_attr_def rv_pre_def rv_wcc_def rv_post_fh_def rv_wrap_def rv_dirlist_def)

lemma canon_parts [simp]:
  "canon G (rv_fattr a) = rv_fattr a" "canon G (rv_post p) = rv_post (sent_post p)" "canon G (rv_wcc_attr wa) = rv_wcc_attr wa"
  "canon G (rv_wcc w) = rv_wcc (sent_wcc w)" "canon G (rv_post_fh pf) = rv_post_fh (sent_post_fh pf)"
  "canon G (rv_wrap v) = rv_wrap (canon G v)"
proof -
  show a: "canon G (rv_fattr a) = rv_fattr a" for a by (simp add: rv_fattr_def canon_step)
  show p: "canon G (rv_post p) = rv_post (sent_post p)" for p
    by (auto simp: rv_post_def canon_step a sent_post_def zero_post_def)
  show w: "canon G (rv_wcc_attr wa) = rv_wcc_attr wa" for wa by (simp add: rv_wcc_attr_def canon_step)
  have pr: "canon G (rv_pre pr) = rv_pre (sent_pre pr)" for pr
    by (auto simp: rv_pre_def canon_step w sent_pre_def zero_wcc_def)
  show "canon G (rv_wcc w) = rv_wcc (sent_wcc w)" by (simp add: rv_wcc_def canon_step p pr sent_wcc_def)
  show "canon G (rv_post_fh pf) = rv_post_fh (sent_post_fh pf)" by (auto simp: rv_post_fh_def canon_step sent_post_fh_def)
  show "canon G (rv_wrap v) = rv_wrap (canon G v)" by (simp add: rv_wrap_def canon_step)
qed

lemma canon_res:
  assumes "\<not> is_ptr (ok (Resok r))" and "\<not> is_ptr (fail (Resfail r))"
    and "canon G (ok (Resok r)) = ok (okf (Resok r))" and "canon G (fail (Resfail r)) = fail (failf (Resfail r))"
    and "zero (type_of (ok (Resok r))) = ok (Resok z)" and "zero (type_of (fail (Resfail r))) = fail (Resfail z)"
  shows "canon G (rv_res ok fail r) = rv_res ok fail (sent_res z okf failf r)"
  using assms by (auto simp: rv_res_def sent_res_def canon_step uint_0_iff)

text \<open>An optional field: no pointer, or one to a structure.\<close>

fun chain :: "rvalue \<Rightarrow> bool" where
  "chain (RPtr T None) = True"
| "chain (RPtr T (Some (RStruct fs))) = True"
| "chain v = False"

lemma chains [simp]: "chain (rv_entries es)" "chain (rv_groups gs)" "chain (rv_exports ex)"
  by (cases es, simp_all, cases gs, simp_all, cases ex, simp_all)

lemmas chainE = chain.elims(2)

lemma canon_optional:
  "chain v \<Longrightarrow> canon_fields G (canon G) disc ((xtag ''optional'', v) # fs) = (xtag ''optional'', canon G v) # canon_fields G (canon G) disc fs"
  by (erule chainE) (simp_all add: canon_step tag_Get_eq skip_case_def)

lemma canon_plain:
  "canon_fields G c disc ((xtag '''', v) # fs) = (xtag '''', c v) # canon_fields G c disc fs"
  by (simp add: canon_step)

lemmas canon_chain = canon_optional canon_plain

lemma canon_chains [simp]:
  "canon G (rv_entries es) = rv_entries es" "canon G (rv_groups gs) = rv_groups gs" "canon G (rv_exports ex) = rv_exports ex"
  "canon G (rv_entriesplus ps) = rv_entriesplus (map sent_entryplus ps)"
proof -
  show "canon G (rv_entries es) = rv_entries es"
    by (induction es) (simp_all add: canon_chain del: canon_fields.simps(2))
  show g: "canon G (rv_groups gs) = rv_groups gs" for gs
    by (induction gs) (simp_all add: canon_chain del: canon_fields.simps(2))
  show "canon G (rv_exports ex) = rv_exports ex"
    using g by (induction ex) (simp_all add: canon_chain del: canon_fields.simps(2))
  show "canon G (rv_entriesplus ps) = rv_entriesplus (map sent_entryplus ps)"
    by (induction ps) (simp_all add: canon_plain sent_entryplus_def del: canon_fields.simps(2))
qed

lemma canon_dirlist [simp]: "canon G (rv_dirlist l) = rv_dirlist l"
  by (simp add: rv_dirlist_def canon_chain del: canon_fields.simps(2))

lemmas res_zeros = zero_lookup_def zero_access_def zero_readlink_def zero_read_def zero_write_def zero_create_def zero_rename_def
  zero_link_def zero_readdir_def zero_readdirplus_def zero_fsinfo_def zero_fsstat_def zero_pathconf_def zero_commit_def zero_wcc_res_def
  zero_getattr_def zero_res_def zero_mount_def

lemma readdirok_verf:
  "rv_readdirok r = RStruct [(xtag '''', rv_post (RdDir_attributes r)), (xtag '''', rv_verf (RdrCookieverf r)), (xtag '''', rv_dirlist (RdReply r))]"
  "rv_readdirfail p = rv_wrap (rv_post p)" "rv_readdir r' = rv_res rv_readdirok rv_readdirfail r'"
  by (simp_all only: rv_readdirok_def rv_verf_def rv_readdirfail_def rv_wrap_def rv_readdir_def rv_res_def)

lemma part_not_ptr [simp]:
  "\<not> is_ptr (rv_wrap v)" "\<not> is_ptr (rv_wcc w)" "\<not> is_ptr (rv_pre pr)" "\<not> is_ptr (rv_wcc_attr wa)" "\<not> is_ptr (rv_post_fh pf)"
  "\<not> is_ptr (rv_fh h)"
  by (simp_all add: rv_wrap_def rv_wcc_def rv_pre_def rv_wcc_attr_def rv_post_fh_def rv_fh_def)

lemma canon_nfs_reply: "verfs_ok reply \<Longrightarrow> canon G (rv_nfs_reply reply) = rv_nfs_reply (sent_nfs_reply reply)"
proof (cases reply)
  case (PGetattr r)
  then show ?thesis by (auto simp: rv_getattr_def sent_res_def canon_step uint_0_iff res_zeros)
next
  case (PMnt r)
  have "sint (Fhs_status r) = 0 \<longleftrightarrow> Fhs_status r = 0" by (metis sint_0 word_eq_iff_signed)
  then show ?thesis by (auto simp: PMnt rv_mount_def canon_step res_zeros)
next
  case (PExport e)
  then show ?thesis by (simp add: canon_chain del: canon_fields.simps(2))
next
  case PVoid
  then show ?thesis by simp
next
  case (PReaddir r)
  assume "verfs_ok reply"
  with PReaddir show ?thesis
    by (simp add: readdirok_verf(3)) (rule canon_res; simp add: readdirok_verf res_zeros canon_plain del: canon_fields.simps(2))
next
  case (PReaddirplus r)
  assume "verfs_ok reply"
  with PReaddirplus show ?thesis
    by (simp add: rv_readdirplus_def) (rule canon_res; simp add: res_zeros canon_plain del: canon_fields.simps(2))
next
  case (PRename r)
  then show ?thesis
    by (simp add: rv_rename_def Let_def) (rule canon_res; simp add: res_zeros canon_plain del: canon_fields.simps(2))
next
  case (PLink r)
  then show ?thesis
    by (simp add: rv_link_def Let_def) (rule canon_res; simp add: res_zeros canon_plain del: canon_fields.simps(2))
qed (simp add: rv_results; rule canon_res; simp add: res_zeros canon_plain del: canon_fields.simps(2))+

section \<open>What XDR can carry\<close>

text \<open>Strings and opaque data of a length the decoder takes.\<close>

fun reply_small :: "nfs_reply \<Rightarrow> bool" where
  "reply_small (PLookup r) = len31 (LkObject (Resok r))"
| "reply_small (PReadlink r) = len31 (RlData (Resok r))"
| "reply_small (PRead r) = len31 (RdData (Resok r))"
| "reply_small (PCreate r) = len31 (Handle (CrObj (Resok r)))"
| "reply_small (PReaddir r) = (\<forall>e \<in> set (Entries (RdReply (Resok r))). len31 (EName e))"
| "reply_small (PReaddirplus r) = (\<forall>e \<in> set (PEntries (RpReply (Resok r))). len31 (PName e) \<and> len31 (Handle (Name_handle e)))"
| "reply_small (PMnt r) = (len31 (Fhandle (Mountinfo r)) \<and> len31 (Auth_flavors (Mountinfo r)))"
| "reply_small (PExport ex) = (\<forall>e \<in> set ex. len31 (Ex_dir e) \<and> (\<forall>g \<in> set (Ex_groups e). len31 g))"
| "reply_small _ = True"

lemma sendable_fields:
  "field_ok (xtag '''', v)" "chain v \<Longrightarrow> field_ok (xtag ''optional'', v)" "field_ok (xtag ''union'', v)"
  "\<not> is_ptr v \<Longrightarrow> field_ok (xtag ''unioncase=0'', v)" "\<not> is_ptr v \<Longrightarrow> field_ok (xtag ''unioncase=1'', v)"
  "\<not> is_ptr v \<Longrightarrow> field_ok (xtag ''unionnotcase=0'', v)"
  by (auto simp: field_ok_def case_tagged_def tag_Get_eq Let_def elim!: chainE)

lemma sendable_parts [simp]:
  "sendable G 0 (rv_fattr a)" "sendable G 0 (rv_post p)" "sendable G 0 (rv_wcc w)" "sendable G 0 (rv_wrap v) = sendable G 0 v"
  "sendable G 0 (rv_post_fh pf) = len31 (Handle pf)"
proof -
  show a: "sendable G 0 (rv_fattr a)" for a by (simp add: rv_fattr_def sendable_fields)
  show p: "sendable G 0 (rv_post p)" for p by (simp add: rv_post_def sendable_fields a)
  show "sendable G 0 (rv_wcc w)" by (simp add: rv_wcc_def rv_pre_def rv_wcc_attr_def sendable_fields p)
  show "sendable G 0 (rv_wrap v) = sendable G 0 v" by (simp add: rv_wrap_def sendable_fields)
  show "sendable G 0 (rv_post_fh pf) = len31 (Handle pf)" by (simp add: rv_post_fh_def sendable_fields)
qed

lemma sendable_lengths [simp]: "sendable G 0 (RString s) = len31 s" "sendable G 0 (rv_bytes b) = len31 b"
  by (simp_all add: len31_def len_ok_def)

lemma sendable_chains [simp]:
  "sendable G 0 (rv_entries es) \<longleftrightarrow> (\<forall>e \<in> set es. len31 (EName e))" "sendable G 0 (rv_groups gs) \<longleftrightarrow> (\<forall>g \<in> set gs. len31 g)"
  "sendable G 0 (rv_exports ex) \<longleftrightarrow> (\<forall>e \<in> set ex. len31 (Ex_dir e) \<and> (\<forall>g \<in> set (Ex_groups e). len31 g))"
  "sendable G 0 (rv_entriesplus ps) \<longleftrightarrow> (\<forall>e \<in> set ps. len31 (PName e) \<and> len31 (Handle (Name_handle e)))"
proof -
  note [simp del] = sendable.simps(4)
  show "sendable G 0 (rv_entries es) \<longleftrightarrow> (\<forall>e \<in> set es. len31 (EName e))"
    by (induction es) (simp_all add: sendable_fields)
  show g: "sendable G 0 (rv_groups gs) \<longleftrightarrow> (\<forall>g \<in> set gs. len31 g)" for gs
    by (induction gs) (simp_all add: sendable_fields)
  show "sendable G 0 (rv_exports ex) \<longleftrightarrow> (\<forall>e \<in> set ex. len31 (Ex_dir e) \<and> (\<forall>g \<in> set (Ex_groups e). len31 g))"
    by (induction ex) (simp_all add: sendable_fields g conj_assoc)
  show "sendable G 0 (rv_entriesplus ps) \<longleftrightarrow> (\<forall>e \<in> set ps. len31 (PName e) \<and> len31 (Handle (Name_handle e)))"
    by (induction ps) (simp_all add: sendable_fields conj_assoc)
qed

lemma sendable_res:
  "\<not> is_ptr (ok (Resok r)) \<Longrightarrow> \<not> is_ptr (fail (Resfail r)) \<Longrightarrow> sendable G 0 (ok (Resok r)) \<Longrightarrow> sendable G 0 (fail (Resfail r)) \<Longrightarrow>
   sendable G 0 (rv_res ok fail r)"
  by (simp add: rv_res_def sendable_fields)

lemma sendable_reply:
  "verfs_ok reply \<Longrightarrow> reply_small reply \<Longrightarrow> sendable G 0 (rv_nfs_reply reply)"
proof (cases reply)
  case (PGetattr r)
  then show ?thesis by (simp add: rv_getattr_def sendable_fields)
next
  case (PMnt r)
  moreover assume "reply_small reply"
  ultimately show ?thesis by (simp add: rv_mount_def sendable_fields len31_def len_ok_def)
next
  case (PExport ex)
  moreover assume "reply_small reply"
  ultimately show ?thesis by (simp add: sendable_fields)
next
  case (PReaddir r)
  assume "verfs_ok reply" "reply_small reply"
  with PReaddir show ?thesis
    by (simp add: readdirok_verf(3)) (rule sendable_res; simp add: readdirok_verf rv_dirlist_def sendable_fields)
next
  case (PReaddirplus r)
  assume "verfs_ok reply" "reply_small reply"
  with PReaddirplus show ?thesis by (simp add: rv_readdirplus_def) (rule sendable_res; simp add: sendable_fields)
qed (simp_all add: rv_results Let_def sendable_fields sendable_res del: sendable.simps(4) rv_sendable(4))

text \<open>The reply of a method, decoded into a fresh value of its result type, is what was sent of it.\<close>

lemma result_types_ok: "wf_ty True (result_type m)" "resolve G (result_type m) = result_type m"
proof -
  have all: "\<forall>e \<in> set nfs_results. wf_ty True (snd e) \<and> resolve G (snd e) = snd e"
    by (simp add: nfs_results_def result_types part_types arg_types resolve_def)
  have void: "wf_ty True Void_type" "resolve G Void_type = Void_type" by (simp_all add: Void_type_def resolve_def)
  show "wf_ty True (result_type m)" "resolve G (result_type m) = result_type m"
    using bspec [OF all, of "(m, the (map_of nfs_results m))"] void
    by (cases "map_of nfs_results m"; simp add: result_type_def map_of_SomeD)+
qed

end
