(* ===== verification/Nfs_Answers.thy ===== *)
theory Nfs_Answers
  imports Nfs_Service Nfs_Results
begin

text \<open>
  A call from the client's side: the request it writes, through the server, to the reply it reads.  And every reply of the
  server, whatever happens while it is computed, is a value of the type its method declares.
\<close>

lemma result_names:
  "map fst nfs_results = map fst (take 22 nfs_methods) @ dump_method # map fst (drop 23 nfs_methods)"
  by (simp add: nfs_methods_def nfs_results_def dump_method_def)

lemma undeclared_results:
  assumes "request_ok r" and "method_name r \<noteq> dump_method" and r: "r = QVoid m"
  shows "map_of nfs_results m = None"
proof -
  from assms have "m \<notin> fst ` set nfs_methods" "m \<noteq> dump_method" by (simp_all add: map_of_eq_None_iff)
  then have "m \<notin> set (map fst nfs_results)"
    unfolding result_names by (auto dest!: in_set_takeD in_set_dropD)
  then show ?thesis by (simp add: map_of_eq_None_iff)
qed

lemma reply_value:
  assumes "names_ok G" and "request_ok r" and "method_name r \<noteq> dump_method" and "reply \<in> results (serve os r)"
  shows "has_type G (result_type (method_name r)) (rv_nfs_reply reply)"
  using typed_reply [OF assms(1) serve_answers [OF assms(4)] serve_verfs [OF assms(4)] assms(3) undeclared_results [OF assms(2,3)]] .

text \<open>C19: Every result a method can end with, whatever the operating system gives and whoever acts in between, is, where the
  codec finds it, a value of the result type the method declares, and the encoder is sure to write it.  The one exception is
  MOUNT DUMP: its result, a nil pointer, has the declared type, and the encoder is sure to refuse it, with nothing written.\<close>

theorem replies_typed:
  assumes "names_ok G" and "request_ok r" and "reply \<in> results (serve os r)"
  shows "has_type G (result_type (method_name r)) (pointee (Some (rv_result (method_name r) reply))) \<and>
    (if method_name r = dump_method then \<exists>e. \<forall>w. Marshal G buffer_write w (Some (rv_result (method_name r) reply)) = Inr (0, Some e, w)
     else \<exists>b. \<forall>w. Marshal G buffer_write w (Some (rv_result (method_name r) reply)) = Inr (length b, None, w @ b))"
proof (cases "method_name r = dump_method")
  case True
  then have "result_type (method_name r) = TPtr (TNamed ''Mountbody'')" by (simp add: result_type_def nfs_results_def dump_method_def)
  with True show ?thesis by (simp add: rv_result_def resolve_def Marshal_def Encode_def failE_def)
next
  case False
  with reply_value [OF assms(1,2) False assms(3)] Marshal_reply [OF serve_reply_ok [OF assms(3)] False] show ?thesis
    by (simp add: rv_result_def)
qed

text \<open>C1: A call from the client's bytes and back.  The client writes a request for a procedure; the server reads it, serves it and
  answers; the client, with any codec that reads the answer, gets the sequence number of its call (its low 32 bits) and, in
  a fresh result of the type the method declares, the reply of the method, the arms of unions that were not sent zeroed.
  Nothing is left over on either side.  It holds for every procedure but MOUNT DUMP, which is never answered (\<open>send_dump\<close>), when
  request and reply fit into a record of \<^verbatim>\<open>maxRecordSize\<close>.\<close>

theorem call_answered:
  assumes G: "env_ok G" "names_ok G" and r: "request_ok r" and m: "method_name r \<noteq> dump_method"
    and wr: "WriteRequest G buffer_write \<lparr>ServiceMethod = method_name r, Seq = q\<rparr>
      (Some (RPtr (fst (method_entry (method_name r))) (Some (rv_args r)))) cl = Inr (None, cl')" and cl: "cl_table cl = procTableServer"
    and inp: "conn_in c = drop (length (cl_out cl)) (cl_out cl') @ rest" "length (cl_out cl') - length (cl_out cl) \<le> maxRecordSize"
    and c: "\<not> closed c" "procTable c = procTableServer" and sv: "exec (serve os r) s = Inr (reply, s')"
    and small: "reply_small reply" "vdepth (rv_nfs_reply reply) \<le> Suc d"
      "Marshal G buffer_write [] (Some (rv_result (method_name r) reply)) = Inr (n, None, b)" "28 + length b \<le> maxRecordSize"
  shows "\<exists>c'. (conn_step G grow os buffer_write)\<^sup>*\<^sup>* (new_conn c, s) (new_conn c', s') \<and> conn_in c' = rest \<and>
    (\<forall>ck. cl_in ck = drop (length (conn_out c)) (conn_out c') @ rest' \<longrightarrow>
      (\<exists>ck1 ck2. ReadResponseHeader G grow r0 ck = Inr (r0\<lparr>RSeq := ucast (ucast q :: u32)\<rparr>, None, ck1) \<and>
         ReadResponseBody G (Suc (Suc (Suc d)))
             (Some (RPtr (result_type (method_name r)) (Some (newval G (result_type (method_name r)))))) ck1 =
           Inr (Some (RPtr (result_type (method_name r)) (Some (rv_nfs_reply (sent_nfs_reply reply)))), None, ck2) \<and>
         cl_in ck2 = rest'))"
proof -
  let ?T = "result_type (method_name r)" and ?v = "rv_nfs_reply reply" and ?h = "base_reply (ucast q)"
  note res = exec_results [OF sv]
  have typed: "has_type G ?T ?v" by (rule reply_value [OF G(2) r m res])
  from request_served [OF G(1) r m wr cl inp c sv] small(3,4) obtain c' where
    run: "(conn_step G grow os buffer_write)\<^sup>*\<^sup>* (new_conn c, s) (new_conn c', s')" and
    out: "conn_out c' = conn_out c @ fragment True (msg_bytes ?h @ b)" and c': "conn_in c' = rest"
    by (auto simp: maxRecordSize_def)
  have rv: "rv_result (method_name r) reply = RPtr ?T (Some ?v)"
    using m has_type_type_of [OF typed] by (simp add: rv_result_def)
  obtain b' where b': "\<forall>w. Marshal G buffer_write w (Some (RPtr ?T (Some ?v))) = Inr (length b', None, w @ b')"
    using Marshal_reply [OF serve_reply_ok [OF res] m, of G] rv by auto
  then have "b' = b" using small(3) rv by auto
  with b' have pm: "Marshal G buffer_write (msg_bytes ?h) (Some (RPtr ?T (Some ?v))) = Inr (length b, None, msg_bytes ?h @ b)" by blast
  have len: "length (fragment True (msg_bytes ?h @ b)) \<le> maxRecordSize"
    using small(4) by (simp add: fragment_def length_reply)
  have answer: "\<exists>ck1 ck2. ReadResponseHeader G grow r0 ck = Inr (r0\<lparr>RSeq := ucast (ucast q :: u32)\<rparr>, None, ck1) \<and>
      ReadResponseBody G (Suc (Suc (Suc d))) (Some (RPtr ?T (Some (newval G ?T)))) ck1 =
        Inr (Some (RPtr ?T (Some (rv_nfs_reply (sent_nfs_reply reply)))), None, ck2) \<and> cl_in ck2 = rest'"
    if "cl_in ck = drop (length (conn_out c)) (conn_out c') @ rest'" for ck
  proof -
    from that have ck: "cl_in ck = fragment True (msg_bytes ?h @ b) @ rest'" by (simp add: out)
    have T: "wf_ty True ?T" "has_type G (resolve G ?T) ?v" "sendable G 0 ?v"
      using typed sendable_reply [OF serve_verfs [OF res] small(1)] by (simp_all add: result_types_ok)
    from response_read [OF G(1) T small(2) pm ck len, of grow r0] show ?thesis
      by (simp add: canon_nfs_reply [OF serve_verfs [OF res]])
  qed
  with run c' show ?thesis by blast
qed

section \<open>A concrete call\<close>

definition nfs_env :: genv where
  "nfs_env = sample_env\<lparr>named := map_of [(''Entry3'', Entry3_type), (''Entryplus3'', Entryplus3_type),
     (''Groupnode'', Groupnode_type), (''Exportnode'', Exportnode_type)]\<rparr>"

lemma nfs_env_ok: "env_ok nfs_env" "names_ok nfs_env"
  by (auto simp: env_ok_def names_ok_def nfs_env_def Entry3_type_def Entryplus3_type_def Groupnode_type_def Exportnode_type_def
      part_types arg_types split: if_splits)

definition toy_mount_reply :: nfs_reply where
  "toy_mount_reply = PMnt \<lparr>Fhs_status = MNT3_OK, Mountinfo = \<lparr>Fhandle = le64 toy_root, Auth_flavors = [AUTH_UNIX]\<rparr>\<rparr>"

lemma toy_mount_served: "exec (serve toy_os (QMnt ''/d'')) (toy_started True) = Inr (toy_mount_reply, toy_mounted True)"
  by (simp add: Mountproc_mnt_3_svc_def Mount_def mapR_def run_defs toy_started_def toy_mounted_def toy_config_def toy_root_def newBackend_def
      mount_handle_def toy_mount_reply_def zero_mount_def)

lemma toy_mount_request: "request_ok (QMnt ''/d'')" "method_name (QMnt ''/d'') \<noteq> dump_method"
  by (simp_all add: dump_method_def len31_def)

theorem replies_typed_witness:
  "toy_mount_reply \<in> results (serve toy_os (QMnt ''/d'')) \<and> has_type nfs_env Mountres3_type (rv_nfs_reply toy_mount_reply)"
proof -
  from replies_typed [OF nfs_env_ok(2) toy_mount_request(1) exec_results [OF toy_mount_served]] toy_mount_request(2)
  have "has_type nfs_env (result_type (method_name (QMnt ''/d''))) (rv_nfs_reply toy_mount_reply)" by (simp add: rv_result_def)
  then show ?thesis using exec_results [OF toy_mount_served] by (simp add: result_type_def nfs_results_def)
qed

lemma toy_mount_encoded:
  "\<exists>b. Marshal nfs_env buffer_write [] (Some (rv_result (method_name (QMnt ''/d'')) toy_mount_reply)) = Inr (length b, None, b) \<and>
     length b \<le> 100"
proof -
  have "case Marshal nfs_env buffer_write [] (Some (rv_result (method_name (QMnt ''/d'')) toy_mount_reply)) of Inl _ \<Rightarrow> False
    | Inr (n, err, b) \<Rightarrow> n = length b \<and> err = None \<and> length b \<le> 100" by code_simp
  then show ?thesis by (auto split: sum.splits)
qed

theorem call_answered_witness:
  "\<exists>c' ck1 ck2. (conn_step nfs_env grow_double toy_os buffer_write)\<^sup>*\<^sup>*
       (new_conn (toy_codec toy_mnt), toy_started True) (new_conn c', toy_mounted True) \<and>
     ReadResponseHeader nfs_env grow_double zero_response (NewClientCodec (conn_out c') ([] :: bytes) procTableServer) =
       Inr (zero_response\<lparr>RSeq := 7\<rparr>, None, ck1) \<and>
     ReadResponseBody nfs_env 9 (Some (RPtr Mountres3_type (Some (newval nfs_env Mountres3_type)))) ck1 =
       Inr (Some (RPtr Mountres3_type (Some (rv_nfs_reply toy_mount_reply))), None, ck2)"
proof -
  obtain b where b: "Marshal nfs_env buffer_write [] (Some (rv_result (method_name (QMnt ''/d'')) toy_mount_reply)) = Inr (length b, None, b)"
    "length b \<le> 100" using toy_mount_encoded by blast
  have v: "1 \<le> Suc (vdepth (rv_args (QMnt ''/d'')))" "\<not> is_ptr (rv_args (QMnt ''/d''))" by simp_all
  have l: "length (opaque_bytes (string_bytes ''/d'')) < 1000" by (simp add: opaque_bytes_def pad_len_def)
  have d: "vdepth (rv_nfs_reply toy_mount_reply) \<le> Suc 6"
    using order_trans [OF rv_vdepth(4), of 4 "le64 toy_root"] by (simp add: toy_mount_reply_def rv_mount_def maxl_def)
  have small: "reply_small toy_mount_reply" by (simp add: toy_mount_reply_def len31_def)
  have t: "result_type (method_name (QMnt ''/d'')) = Mountres3_type" "sent_nfs_reply toy_mount_reply = toy_mount_reply"
    by (simp_all add: result_type_def nfs_results_def toy_mount_reply_def MNT3_OK_def)
  have call: "conn_in (toy_codec toy_mnt) = drop (length ([] :: bytes)) toy_mnt @ []"
    "length toy_mnt - length ([] :: bytes) \<le> maxRecordSize" "\<not> closed (toy_codec toy_mnt)" "procTable (toy_codec toy_mnt) = procTableServer"
    by (simp_all add: toy_codec_def NewServerCodec_def toy_mnt_def length_toy_call maxRecordSize_def opaque_bytes_def pad_len_def)
  let ?ck = "\<lambda>c'. NewClientCodec (conn_out c') ([] :: bytes) procTableServer"
  have n: "Suc (Suc (Suc 6)) = 9" "ucast (ucast (7 :: u64) :: u32) = (7 :: u64)" "conn_out (toy_codec toy_mnt) = []"
    "cl_in (?ck c') = conn_out c'" for c' by (simp_all add: toy_codec_def NewServerCodec_def NewClientCodec_def)
  have w: "cl_table (NewClientCodec [] ([] :: bytes) procTableServer) = procTableServer"
    "cl_out (NewClientCodec [] ([] :: bytes) procTableServer) = []" "toy_call 1 1 (opaque_bytes (string_bytes ''/d'')) = toy_mnt"
    by (simp_all add: NewClientCodec_def toy_mnt_def)
  note answered = call_answered [OF nfs_env_ok toy_mount_request toy_write [OF toy_finds(1) toy_encodes(1) v l] w(1) _ _ call(3,4)
      toy_mount_served small d b(1), of "[]" grow_double "[]" zero_response, unfolded t n(1-3) w(2,3)]
  from answered call(1,2) b(2) obtain c' where
    run: "(conn_step nfs_env grow_double toy_os buffer_write)\<^sup>*\<^sup>* (new_conn (toy_codec toy_mnt), toy_started True) (new_conn c', toy_mounted True)"
    and all: "\<And>ck :: bytes clientCodec. cl_in ck = conn_out c' \<Longrightarrow>
      \<exists>ck1 ck2. ReadResponseHeader nfs_env grow_double zero_response ck = Inr (zero_response\<lparr>RSeq := 7\<rparr>, None, ck1) \<and>
        ReadResponseBody nfs_env 9 (Some (RPtr Mountres3_type (Some (newval nfs_env Mountres3_type)))) ck1 =
          Inr (Some (RPtr Mountres3_type (Some (rv_nfs_reply toy_mount_reply))), None, ck2) \<and> cl_in ck2 = []"
    by (auto simp: maxRecordSize_def)
  from run all [OF n(4)] show ?thesis by blast
qed

end
