(* ===== verification/Spec2Isabelle.thy ===== *)
theory Spec2Isabelle
  imports Onc_Rpc Nfs_Readdir Nfs_Stable Nfs_Table Nfs_Files Nfs_Limits Nfs_Wire Nfs_Race Nfs_Answers
begin

text \<open>
  \<^bold>\<open>gonfs: an NFS version 3 server in user space.\<close>

  The program exports one directory of the machine it runs on.  A client's bytes arrive over TCP as records of ONC RPC;
  \<^verbatim>\<open>oncrpc\<close> is a codec for Go's \<^verbatim>\<open>net/rpc\<close> that cuts them into records, decodes the call header and picks a method by the
  numbers of program and procedure; \<^verbatim>\<open>xdr\<close> decodes the arguments and encodes the replies by reflection, guided by struct
  tags; \<^verbatim>\<open>nfs3\<close> has the methods, one for each procedure, and behind them the backend, which keeps a table from file
  handles to paths and makes the system calls; \<^verbatim>\<open>portmapper\<close> registers the server, as a client over the same codec;
  \<^verbatim>\<open>main.go\<close> checks the flags, sets all of this up and accepts connections.

  The development follows this structure from the bytes up.  Definitions keep the names of the source and its order of
  guards, calls and early returns.

  \<^bold>\<open>Conventions\<close> (\<open>Go_Prelude\<close>).  A Go computation is a value of \<open>'a go\<close>: \<open>Inr\<close> of its result, or \<open>Inl\<close> of how the
  process goes down (\<open>Panic\<close>, \<open>Fatal\<close> for \<^verbatim>\<open>log.Fatal\<close>) or of \<open>Diverge\<close>, when the recursion depth given to the model
  was too small.  A Go error is an option of \<open>goerror\<close>, returned beside the values, as in the source.  Integers are words of
  their width; bytes are \<open>u8\<close> lists; strings are \<open>string\<close>.  An \<^verbatim>\<open>io.Writer\<close> is a function on a state of its own.

  A handler of the NFS server is a program of atomic actions (\<open>('w, 'a) run\<close>, \<open>Nfs_Backend\<close>): one use of the handle table
  under its lock, one reading of the configuration, one system call.  Between two actions the goroutines of other
  requests, and other processes, may act.  \<open>exec\<close> runs a program alone, from first to last; \<open>results\<close> are the values it can
  end with whatever happens in between.

  \<^bold>\<open>xdr\<close>
    \<^item> \<open>Xdr_Base\<close>: \<^verbatim>\<open>error.go\<close> (error codes and values) and \<^verbatim>\<open>tag.go\<close> (\<open>parseTag\<close>, \<open>tag_Get\<close>, which is shown to be the
      first of the comma-separated options).
    \<^item> \<open>Xdr_Value\<close>: the part of \<^verbatim>\<open>reflect\<close> the package works on: \<open>gotype\<close>, \<open>rvalue\<close>, zero values, \<open>has_type\<close>.
    \<^item> \<open>Xdr_Encode\<close>: \<^verbatim>\<open>encode.go\<close>.  The locale \<open>encoder_property\<close> is an induction principle for the encoder: what
      writes, sequencing and the crash have, \<open>Marshal\<close> has.  Two instances: bytes are counted right for every writer
      that keeps the contract of \<^verbatim>\<open>io.Writer\<close> (locale \<open>io_writer\<close>, interpreted for the buffer), and the depth given to
      the model is enough.
    \<^item> \<open>Xdr_Decode\<close>: \<^verbatim>\<open>decode.go\<close>.  \<open>Xdr_Safety\<close>: on every input it counts the bytes it consumed, keeps the type of the
      target, and returns for types without interfaces and recursive names.
    \<^item> \<open>Xdr_Roundtrip\<close>: decoding what was encoded gives the value back (\<open>canon\<close>: what was not sent is zero).
    \<^item> \<open>Xdr_Sure\<close>: which values the encoder is sure to write.

  \<^bold>\<open>oncrpc\<close>
    \<^item> \<open>Onc_Record\<close>: \<^verbatim>\<open>record.go\<close>, fragments and the limits on them, the round trip of a record.
    \<^item> \<open>Onc_Types\<close>: \<^verbatim>\<open>rpctypes.go\<close>.  \<open>Onc_Wire\<close>: the bytes RFC 5531 gives the messages, and that the codec writes them.
    \<^item> \<open>Onc_Server\<close>, \<open>Onc_Client\<close>: \<^verbatim>\<open>servercodec.go\<close> and \<^verbatim>\<open>clientcodec.go\<close>, every method.
    \<^item> \<open>Onc_Rpc\<close>: the two together: requests reach the method they name, responses reach the client, every input is survived,
      and what clients make of the error replies.

  \<^bold>\<open>portmapper\<close> and \<^bold>\<open>main\<close>
    \<^item> \<open>Pmap_Client\<close>: \<^verbatim>\<open>portmapClient.go\<close> over a network that is a parameter (\<open>net\<close>), with the contract of a port
      mapper (\<open>rpcbind\<close>).
    \<^item> \<open>Gonfs_Main\<close>: \<^verbatim>\<open>main.go\<close>: \<open>startup\<close> is everything before the accept loop, \<open>exit\<close> its early ends, \<open>accepted_conn\<close> the
      check of the client's address; and that the procedure table has the numbers of the protocol.

  \<^bold>\<open>nfs3\<close>
    \<^item> \<open>Nfs_Types\<close>: \<^verbatim>\<open>nfstypdef.go\<close>, the constants and structures.
    \<^item> \<open>Nfs_Backend\<close>: the state (\<open>Backend\<close>, with the handle table \<open>fhandleMap\<close>), the operating system (\<open>os\<close>, a record of
      functions on a world of any type), programs of actions, the handle table, the attribute reader and MOUNT.
    \<^item> \<open>Nfs_Query\<close>, \<open>Nfs_Update\<close>, \<open>Nfs_Twodir\<close>: the handlers of \<^verbatim>\<open>allunix.go\<close>, every branch of each, with the error
      translations.
    \<^item> \<open>Nfs_Proc\<close>: the methods of \<^verbatim>\<open>nfsprocdef.go\<close>; \<open>serve\<close> is one request.
    \<^item> \<open>Nfs_Logic\<close>: \<open>ends R I\<close>, what a program keeps and ends with when the states it meets between its actions satisfy \<open>R\<close>
      and the others keep \<open>I\<close>, with one rule for each construct of the handlers (\<open>inv_intro\<close>).  \<open>Nfs_Inv\<close>: what the actions of every request keep: table,
      configuration, and any property of the world that survives the calls the server may make.
    \<^item> \<open>Nfs_System\<close>: the server as a pool of requests in progress (\<open>pool_step\<close>: a request arrives, acts or leaves, or
      something else changes the world), of which one request after the other (\<open>srv_step\<close>) is a special case; locales \<open>kept_by\<close>
      and \<open>simulation\<close>; a read-only export is never changed.
    \<^item> \<open>Nfs_Observe\<close>: what entitles a handler to change the handle table.  The locale \<open>observer\<close> takes the meaning of four
      observations (a handle is free, a handle has a path, a path is unreadable, numbers are reported for a path) and says once
      for all handlers that a table entry is dropped or made only after the observation for it; \<open>mover\<close> extends it with the silly
      rename, MOUNT and UMNT.  \<open>Nfs_Table\<close> interprets \<open>mover\<close> twice: \<open>table_step\<close>, the abstract handle table, which the
      server refines, request by request, and the handles as hashes of what was reported, in every interleaving.  \<open>Nfs_Stable\<close>
      interprets \<open>observer\<close>: a handle stays good while its file can be read.
    \<^item> \<open>Nfs_Handles\<close>: what handles mean, and what becomes of short, unknown and stale ones.  \<open>Nfs_Files\<close>: READ, WRITE, ACCESS,
      SETATTR against contracts of the operating system on contents and attributes.  \<open>Nfs_Readdir\<close>: the pages of a directory.  \<open>Nfs_Limits\<close>: where the checks of the handlers end.
    \<^item> \<open>Nfs_Race\<close>: LOOKUP interleaved with a silly rename of the same file stops the server.
    \<^item> \<open>Nfs_Wire\<close>, \<open>Nfs_Args\<close>, \<open>Nfs_Replies\<close>: arguments and results as reflection shows them, with the tags.
      \<open>Nfs_Results\<close>: the result types, that every reply has the type its method declares, and what of a reply goes over the
      wire (\<open>sent_nfs_reply\<close>).

  \<^bold>\<open>The process\<close>
    \<^item> \<open>Nfs_Conn\<close>: the loop of \<^verbatim>\<open>rpc.ServeCodec\<close> over the codec and the methods, as steps in any interleaving
      (\<open>conn_step\<close>, \<open>conn_crash\<close>), and the process with all its connections (\<open>proc_step\<close>) and its ends (\<open>proc_crash\<close>: a
      goroutine crashes, or \<^verbatim>\<open>Accept\<close> fails and \<^verbatim>\<open>log.Fatal\<close> follows).  A \<open>simulation\<close> leads from the process to the pool, and
      the process keeps \<open>proc_ok\<close>.
    \<^item> \<open>Nfs_Steps\<close>: how many actions a request takes (at most thirteen).
    \<^item> \<open>Nfs_Service\<close>: what follows for a client and for the export: requests are served as \<open>serve\<close> serves them, and only
      for clients whose address is allowed; none is lost and none answered twice; connections end; and the paths of handles are the
      export path followed by names (names may be \<^verbatim>\<open>..\<close>: see \<open>lookup_leaves_export\<close> for what that leaves open).
    \<^item> \<open>Nfs_Answers\<close>: a call from the client's bytes to the reply the client reads.

  \<^bold>\<open>Parameters.\<close>  The operating system (\<open>os\<close>), the network (\<open>net\<close>), the shell of the process (\<open>shell\<close>: working directory,
  CIDR parsing, log file, listening, user), the writer of a connection, the growth of \<^verbatim>\<open>bytes.Buffer\<close> (\<open>grow\<close>) and the
  environment of \<^verbatim>\<open>reflect\<close> (\<open>genv\<close>: named types, formats of times, float conversions).  Where a theorem relies on
  their documented behaviour it names it as a hypothesis (\<open>env_ok\<close>, \<open>io_writer\<close>, \<open>rpcbind\<close>, \<open>reads_keep\<close>,
  \<open>posix_files\<close>, \<open>posix_attrs\<close>, \<open>sees\<close>, \<open>moves_file\<close>), and a concrete run shows it can hold.  Of \<^verbatim>\<open>net/rpc\<close> the documented behaviour is written out:
  one goroutine reads, each call has its own, replies are written one at a time.

  \<^bold>\<open>Depths and bounds.\<close>  The encoder's depth is that of the value, which is proved enough.  The decoder's depth is
  an argument: \<open>rpc_depth\<close> for headers, \<open>arg_depth\<close> for arguments; the types have less, which the theorems on reading use.
  \<open>WriteFullRecord\<close> needs two rounds at most.  Reading loops recurse on the input, which shrinks.  A request takes at
  most thirteen actions (\<open>takes\<close>), and a connection at most fifteen steps for each byte of input and two more (\<open>within\<close>).

  \<^bold>\<open>Not modelled.\<close>  Texts: error descriptions, log lines, what is printed.  The parsing of
  the command line, signals.  Go data that contains itself (\<open>rvalue\<close> is finite).  \<^verbatim>\<open>NewEncoder\<close> and \<^verbatim>\<open>NewDecoder\<close>, which only build structures.  The spare
  capacity \<^verbatim>\<open>DecodeFixedOpaque\<close> leaves.  What is behind the parameters.
\<close>

end
